theory Spec2Isabelle
  imports Complex_Main "HOL-Library.Multiset"
begin

section \<open>Decision tree learners of libforest (classifier\_learning.cpp)\<close>

text \<open>
  The embedding follows \<^verbatim>\<open>src/classifier_learning.cpp\<close>. The C++ \<^verbatim>\<open>float\<close>
  values (features, thresholds, objectives, leaf log-probabilities) are idealised as
  \<^typ>\<open>real\<close>; rounding, overflow and NaN are not part of the model. A failing
  \<^verbatim>\<open>BOOST_ASSERT\<close> aborts the build and is the error value \<open>AssertionFailed\<close>; a write
  outside a freshly allocated child list is the error value \<open>OutOfBounds\<close>.
\<close>

subsection \<open>Errors, data storage, configuration\<close>

datatype error = AssertionFailed | OutOfBounds

type_synonym DataPoint = "real list"

text \<open>The dataset collaborator, read through its accessors: \<^verbatim>\<open>getDataPoint\<close>,
  \<^verbatim>\<open>getClassLabel\<close>, \<^verbatim>\<open>getDimensionality\<close>, \<^verbatim>\<open>getClasscount\<close>; \<^verbatim>\<open>getSize\<close> is the
  number of data points.\<close>

record DataStorage =
  dataPoints :: "DataPoint list"
  classLabels :: "nat list"
  dimensionality :: int
  classcount :: int

definition getSize :: "DataStorage \<Rightarrow> int" where
  "getSize st = int (length (dataPoints st))"

definition getDataPoint :: "DataStorage \<Rightarrow> nat \<Rightarrow> DataPoint" where
  "getDataPoint st n = dataPoints st ! n"

definition getClassLabel :: "DataStorage \<Rightarrow> nat \<Rightarrow> nat" where
  "getClassLabel st n = classLabels st ! n"

text \<open>The learners' configuration knobs (members of the learner objects).\<close>

record Config =
  numFeatures :: int
  useBootstrap :: bool
  numBootstrapExamples :: int
  maxDepth :: int
  minSplitExamples :: int
  minChildSplitExamples :: int
  smoothingParameter :: real
  numThresholds :: int
  minSplitObjective :: real

subsection \<open>EfficientEntropyHistogram\<close>

text \<open>Modelled from the spec: the class \<^verbatim>\<open>EfficientEntropyHistogram\<close> is declared in a
  header that is not part of the sources. Following section 3 of the specification it is
  an ordered sequence of integer counts indexed by class id; the mass is the sum of the
  counts, the histogram is pure iff at most one bucket is nonzero, and the entropy is the
  total entropy \<open>- \<Sum> count \<sqdot> log (count / mass)\<close>.\<close>

type_synonym EfficientEntropyHistogram = "int list"

definition histogramOfSize :: "int \<Rightarrow> EfficientEntropyHistogram" where
  "histogramOfSize C = replicate (nat C) 0"

definition addOne :: "EfficientEntropyHistogram \<Rightarrow> nat \<Rightarrow> EfficientEntropyHistogram" where
  "addOne h c = h[c := h ! c + 1]"

definition subOne :: "EfficientEntropyHistogram \<Rightarrow> nat \<Rightarrow> EfficientEntropyHistogram" where
  "subOne h c = h[c := h ! c - 1]"

definition reset :: "EfficientEntropyHistogram \<Rightarrow> EfficientEntropyHistogram" where
  "reset h = replicate (length h) 0"

definition getMass :: "EfficientEntropyHistogram \<Rightarrow> int" where
  "getMass h = sum_list h"

definition isPure :: "EfficientEntropyHistogram \<Rightarrow> bool" where
  "isPure h = (length (filter (\<lambda>c. c \<noteq> 0) h) \<le> 1)"

definition getEntropy :: "EfficientEntropyHistogram \<Rightarrow> real" where
  "getEntropy h =
     - (\<Sum>c\<leftarrow>h. real_of_int c * ln (real_of_int c / real_of_int (getMass h)))"

subsection \<open>Trees\<close>

text \<open>Modelled from the spec: the tree classes (\<^verbatim>\<open>DecisionTree\<close>,
  \<^verbatim>\<open>ProjectiveDecisionTree\<close>, \<^verbatim>\<open>DotProductDecisionTree\<close>, \<^verbatim>\<open>OnlineDecisionTree\<close>) are
  declared in headers that are not part of the sources. Following sections 3 and 4.2 of the
  specification a tree is a dense growable node table; a node carries its depth (root 0),
  the split descriptor written by the learner's setters, the index of its left child
  (the right child is the next index; 0 while the node is a leaf) and its node data: the
  leaf histogram and, for the online learner, the per-leaf candidate statistics.\<close>

record Node =
  depth :: int
  splitFeature :: int
  threshold :: real
  projection :: DataPoint
  projection1 :: DataPoint
  projection2 :: DataPoint
  leftChild :: nat
  histogram :: "real list"
  nodeStatistics :: EfficientEntropyHistogram
  nodeFeatures :: "nat list"
  nodeThresholds :: "real list list"
  leftChildStatistics :: "EfficientEntropyHistogram list"
  rightChildStatistics :: "EfficientEntropyHistogram list"

type_synonym Tree = "Node list"

definition freshNode :: "int \<Rightarrow> Node" where
  "freshNode d = \<lparr> depth = d, splitFeature = 0, threshold = 0, projection = [],
     projection1 = [], projection2 = [], leftChild = 0, histogram = [],
     nodeStatistics = [], nodeFeatures = [], nodeThresholds = [],
     leftChildStatistics = [], rightChildStatistics = [] \<rparr>"

definition addNode :: "Tree \<Rightarrow> Tree" where
  "addNode t = t @ [freshNode 0]"

definition splitNode :: "Tree \<Rightarrow> nat \<Rightarrow> Tree \<times> nat" where
  "splitNode t node =
     (let l = length t; d = depth (t ! node)
      in (t[node := (t ! node)\<lparr>leftChild := l\<rparr>] @ [freshNode (d + 1), freshNode (d + 1)], l))"

definition isLeafNode :: "Tree \<Rightarrow> nat \<Rightarrow> bool" where
  "isLeafNode t node = (leftChild (t ! node) = 0)"

subsection \<open>updateLeafNodeHistogram\<close>

definition resize :: "nat \<Rightarrow> 'a \<Rightarrow> 'a list \<Rightarrow> 'a list" where
  "resize n v xs = take n xs @ replicate (n - length xs) v"

definition smoothedLogProb :: "EfficientEntropyHistogram \<Rightarrow> real \<Rightarrow> nat \<Rightarrow> real" where
  "smoothedLogProb hist smoothing c =
     ln ((real_of_int (hist ! c) + smoothing)
         / (real_of_int (getMass hist) + real (length hist) * smoothing))"

definition updateLeafNodeHistogram ::
  "real list \<Rightarrow> EfficientEntropyHistogram \<Rightarrow> real \<Rightarrow> bool \<Rightarrow> error + real list" where
  "updateLeafNodeHistogram leafNodeHistogram hist smoothing bootstrap =
     (let C = length hist;
          resized = resize C 0 leafNodeHistogram
      in if \<not> (0 < length resized) then Inl AssertionFailed
         else if \<not> bootstrap
           then Inr (fold (\<lambda>c lh. lh[c := smoothedLogProb hist smoothing c]) [0..<C] resized)
           else Inr resized)"

subsection \<open>Child lists filled by countdown\<close>

text \<open>The pass \<^verbatim>\<open>leftList[--bestLeftMass] = n\<close> / \<^verbatim>\<open>rightList[--bestRightMass] = n\<close>
  over the parent's list: each child list is filled from its end, its counter counting
  down. A write below index 0 leaves the allocated list.\<close>

fun partitionExamples ::
  "(nat \<Rightarrow> bool) \<Rightarrow> nat list \<Rightarrow> nat list \<times> int \<Rightarrow> nat list \<times> int
     \<Rightarrow> error + ((nat list \<times> int) \<times> (nat list \<times> int))" where
  "partitionExamples goesLeft [] L R = Inr (L, R)"
| "partitionExamples goesLeft (n # ns) (leftList, bl) (rightList, br) =
     (if goesLeft n
      then if 0 < bl \<and> bl \<le> int (length leftList)
           then partitionExamples goesLeft ns (leftList[nat (bl - 1) := n], bl - 1) (rightList, br)
           else Inl OutOfBounds
      else if 0 < br \<and> br \<le> int (length rightList)
           then partitionExamples goesLeft ns (leftList, bl) (rightList[nat (br - 1) := n], br - 1)
           else Inl OutOfBounds)"

subsection \<open>Random sources and the dataset's bootstrap\<close>

text \<open>The learners draw from the file-static \<^verbatim>\<open>std::random_device rd\<close> (and the online
  learner from the file-static \<^verbatim>\<open>std::mt19937 g\<close>). The device is an oracle: \<open>rd env k\<close> is
  the value of its \<open>k\<close>-th call since the program started, and the number of calls made so far
  is program state that every build reads and advances. \<open>shuffleWith env seed xs\<close> is
  \<^verbatim>\<open>std::shuffle(xs, std::default_random_engine(seed))\<close>; \<open>mt19937 env seed k\<close> is the
  \<open>k\<close>-th number produced by an engine seeded with \<open>seed\<close>, which a distribution maps into
  its range. \<open>poissonDraw env k\<close> is the value of the \<open>k\<close>-th call \<^verbatim>\<open>poisson(g)\<close> on the
  file-static engine. \<open>bootstrapDraw\<close> and \<open>thresholdSample\<close> are the draws of the dataset's
  and the threshold generator's own generators (\<open>thresholdSample env k feature\<close> is the
  \<open>k\<close>-th call of \<^verbatim>\<open>thresholdGenerator.sample\<close>), and \<open>thresholdGeneratorSize\<close> is
  \<^verbatim>\<open>thresholdGenerator.getSize()\<close>.\<close>

record Env =
  rd :: "nat \<Rightarrow> nat"
  shuffleWith :: "nat \<Rightarrow> nat list \<Rightarrow> nat list"
  mt19937 :: "nat \<Rightarrow> nat \<Rightarrow> nat"
  poissonDraw :: "nat \<Rightarrow> nat"
  bootstrapDraw :: "nat \<Rightarrow> nat"
  thresholdSample :: "nat \<Rightarrow> nat \<Rightarrow> real"
  thresholdGeneratorSize :: int

text \<open>Modelled from the spec: \<^verbatim>\<open>AbstractDataStorage::bootstrap\<close> is not part of the
  sources. Following section 6 and the glossary it samples \<open>n\<close> examples of the dataset with
  replacement; dimensionality and class count are those of the dataset.\<close>

definition bootstrap :: "Env \<Rightarrow> DataStorage \<Rightarrow> int \<Rightarrow> DataStorage" where
  "bootstrap env st n =
     (let idx = map (\<lambda>k. bootstrapDraw env k mod length (dataPoints st)) [0..<nat n]
      in st\<lparr>dataPoints := map (\<lambda>i. dataPoints st ! i) idx,
            classLabels := map (\<lambda>i. classLabels st ! i) idx\<rparr>)"

subsection \<open>State of a batch build\<close>

text \<open>The locals of \<^verbatim>\<open>learn\<close> that live across iterations of the \<^verbatim>\<open>while\<close> loop, the
  tree under construction, and the call counters of the random sources. The stack's top is
  the head of \<open>splitStack\<close>. The progress record \<^verbatim>\<open>state\<close> (processed, depth, numNodes) is
  written but never read by the learners and is left out, as is \<^verbatim>\<open>delete[]\<close>.\<close>

record LearnState =
  tree :: Tree
  splitStack :: "nat list"
  trainingExamples :: "nat list list"
  trainingExamplesSizes :: "int list"
  sampledFeatures :: "nat list"
  rdCalls :: nat
  gSeed :: nat
  gCalls :: nat

record Best =
  bestThreshold :: real
  bestFeature :: int
  bestObjective :: real
  bestLeftMass :: int
  bestRightMass :: int
  bestProjection :: DataPoint
  bestProjection1 :: DataPoint
  bestProjection2 :: DataPoint

definition initialBest :: "int \<Rightarrow> int \<Rightarrow> Best" where
  "initialBest D N = \<lparr> bestThreshold = 0, bestFeature = - 1, bestObjective = 10 ^ 35,
     bestLeftMass = 0, bestRightMass = N, bestProjection = replicate (nat D) 0,
     bestProjection1 = replicate (nat D) 0, bestProjection2 = replicate (nat D) 0 \<rparr>"

definition nodeHistogram :: "DataStorage \<Rightarrow> nat list \<Rightarrow> EfficientEntropyHistogram" where
  "nodeHistogram storage trainingExampleList =
     fold (\<lambda>n hist. addOne hist (getClassLabel storage n)) trainingExampleList
       (histogramOfSize (classcount storage))"

text \<open>\<^verbatim>\<open>updateLeafNodeHistogram(tree->getNodeData(node).histogram, hist, ...)\<close> followed by
  \<^verbatim>\<open>BOOST_ASSERT(tree->getNodeData(node).histogram.size() > 0)\<close>.\<close>

definition finalizeLeaf ::
  "Config \<Rightarrow> Tree \<Rightarrow> nat \<Rightarrow> EfficientEntropyHistogram \<Rightarrow> error + Tree" where
  "finalizeLeaf cfg t node hist =
     (case updateLeafNodeHistogram (histogram (t ! node)) hist (smoothingParameter cfg)
             (useBootstrap cfg) of
        Inl e \<Rightarrow> Inl e
      | Inr h \<Rightarrow> if \<not> (0 < length h) then Inl AssertionFailed
                 else Inr (t[node := (t ! node)\<lparr>histogram := h\<rparr>]))"

definition leafStep ::
  "Config \<Rightarrow> LearnState \<Rightarrow> nat \<Rightarrow> EfficientEntropyHistogram \<Rightarrow> error + LearnState" where
  "leafStep cfg s node hist =
     (case finalizeLeaf cfg (tree s) node hist of
        Inl e \<Rightarrow> Inl e
      | Inr t \<Rightarrow> Inr (s\<lparr>tree := t\<rparr>))"

text \<open>The end of an iteration that splits: the two child lists have been pushed, the
  descriptor has been written by \<open>setConfig\<close>, \<^verbatim>\<open>splitNode\<close> appends the children, and both
  are pushed on the stack (the right child on top).\<close>

definition commitSplit ::
  "(Node \<Rightarrow> Node) \<Rightarrow> LearnState \<Rightarrow> nat \<Rightarrow> int \<Rightarrow> int \<Rightarrow> nat list \<Rightarrow> nat list \<Rightarrow> LearnState" where
  "commitSplit setConfig s node L R leftList rightList =
     (let (t, leftChild) = splitNode ((tree s)[node := setConfig (tree s ! node)]) node
      in s\<lparr>tree := t,
           splitStack := (leftChild + 1) # leftChild # splitStack s,
           trainingExamples := trainingExamples s @ [leftList, rightList],
           trainingExamplesSizes := trainingExamplesSizes s @ [L, R]\<rparr>)"

subsection \<open>DecisionTreeLearner::learn\<close>

definition tooClose :: "real \<Rightarrow> real \<Rightarrow> bool" where
  "tooClose leftValue rightValue =
     (\<bar>rightValue - leftValue\<bar>
        < (1 / 10 ^ 6) * max \<bar>rightValue + 1 / 10 ^ 6\<bar> \<bar>leftValue + 1 / 10 ^ 6\<bar>)"

text \<open>The sweep \<^verbatim>\<open>for (int m = 1; m < N; m++)\<close> over the sorted list, from its second
  element on.\<close>

fun sweep ::
  "DataStorage \<Rightarrow> nat \<Rightarrow> nat list \<Rightarrow> EfficientEntropyHistogram \<Rightarrow> EfficientEntropyHistogram
     \<Rightarrow> real \<Rightarrow> nat \<Rightarrow> Best \<Rightarrow> Best" where
  "sweep storage feature [] leftHistogram rightHistogram leftValue leftClass best = best"
| "sweep storage feature (n # ns) leftHistogram rightHistogram leftValue leftClass best =
     (let leftHistogram' = addOne leftHistogram leftClass;
          rightHistogram' = subOne rightHistogram leftClass;
          rightValue = getDataPoint storage n ! feature
      in if tooClose leftValue rightValue
         then sweep storage feature ns leftHistogram' rightHistogram' rightValue
                (getClassLabel storage n) best
         else
           (let localObjective = getEntropy leftHistogram' + getEntropy rightHistogram';
                best' = (if localObjective < bestObjective best
                         then best\<lparr>bestThreshold := leftValue + rightValue,
                                   bestFeature := int feature,
                                   bestObjective := localObjective,
                                   bestLeftMass := getMass leftHistogram',
                                   bestRightMass := getMass rightHistogram'\<rparr>
                         else best)
            in sweep storage feature ns leftHistogram' rightHistogram' rightValue
                 (getClassLabel storage n) best'))"

text \<open>One round of \<^verbatim>\<open>for (int f = 0; f < _numFeatures; f++)\<close>: \<^verbatim>\<open>std::sort\<close> with the
  feature comparator reorders the node's list in place, then the sweep runs. The list has
  at least two entries here (the node's histogram is not pure), so element 0 exists.\<close>

definition evalFeature ::
  "DataStorage \<Rightarrow> EfficientEntropyHistogram \<Rightarrow> nat \<Rightarrow> nat list \<times> Best \<Rightarrow> nat list \<times> Best" where
  "evalFeature storage hist feature = (\<lambda>(trainingExampleList, best).
     (let sorted = sort_key (\<lambda>n. getDataPoint storage n ! feature) trainingExampleList
      in (sorted,
          sweep storage feature (drop 1 sorted) (reset hist) hist
            (getDataPoint storage (sorted ! 0) ! feature) (getClassLabel storage (sorted ! 0))
            best)))"

definition effectiveNumFeatures :: "Config \<Rightarrow> DataStorage \<Rightarrow> int" where
  "effectiveNumFeatures cfg dataStorage =
     (if numFeatures cfg < 0 then \<lfloor>sqrt (real_of_int (dimensionality dataStorage))\<rfloor>
      else numFeatures cfg)"

definition dtStep :: "Env \<Rightarrow> Config \<Rightarrow> int \<Rightarrow> DataStorage \<Rightarrow> LearnState \<Rightarrow> error + LearnState" where
  "dtStep env cfg numF storage s =
     (let node = hd (splitStack s);
          s1 = s\<lparr>splitStack := tl (splitStack s)\<rparr>;
          N = trainingExamplesSizes s ! node;
          trainingExampleList = take (nat N) (trainingExamples s ! node);
          hist = nodeHistogram storage trainingExampleList
      in if getMass hist < minSplitExamples cfg \<or> isPure hist
            \<or> depth (tree s ! node) \<ge> maxDepth cfg
         then leafStep cfg s1 node hist
         else
           (let feats = shuffleWith env (rd env (rdCalls s)) (sampledFeatures s);
                s2 = s1\<lparr>sampledFeatures := feats, rdCalls := rdCalls s + 1\<rparr>;
                (sortedList, best) =
                   fold (evalFeature storage hist) (take (nat numF) feats)
                     (trainingExampleList, initialBest (dimensionality storage) N);
                thr = bestThreshold best * (1 / 2)
            in if bestFeature best < 0 \<or> bestLeftMass best < minChildSplitExamples cfg
                  \<or> bestRightMass best < minChildSplitExamples cfg
               then leafStep cfg s2 node hist
               else
                 (case partitionExamples
                         (\<lambda>n. getDataPoint storage n ! nat (bestFeature best) < thr) sortedList
                         (replicate (nat (bestLeftMass best)) 0, bestLeftMass best)
                         (replicate (nat (bestRightMass best)) 0, bestRightMass best) of
                    Inl e \<Rightarrow> Inl e
                  | Inr ((leftList, bl), (rightList, br)) \<Rightarrow>
                      if bl \<noteq> 0 then Inl AssertionFailed
                      else if br \<noteq> 0 then Inl AssertionFailed
                      else Inr (commitSplit
                                 (\<lambda>nd. nd\<lparr>threshold := thr, splitFeature := bestFeature best\<rparr>)
                                 s2 node (bestLeftMass best) (bestRightMass best)
                                 leftList rightList))))"

text \<open>The loop \<^verbatim>\<open>while (splitStack.size() > 0)\<close>, shared by the three batch learners. It
  runs on fuel: \<open>None\<close> means that the fuel ran out before the stack was empty.\<close>

fun learnLoop ::
  "(LearnState \<Rightarrow> error + LearnState) \<Rightarrow> nat \<Rightarrow> LearnState \<Rightarrow> (error + LearnState) option" where
  "learnLoop step 0 s = (if splitStack s = [] then Some (Inr s) else None)"
| "learnLoop step (Suc k) s =
     (if splitStack s = [] then Some (Inr s)
      else case step s of Inl e \<Rightarrow> Some (Inl e) | Inr s' \<Rightarrow> learnLoop step k s')"

definition initialState :: "DataStorage \<Rightarrow> nat \<Rightarrow> nat \<Rightarrow> LearnState" where
  "initialState storage rd0 seed =
     \<lparr> tree = addNode [], splitStack = [0],
       trainingExamples = [[0..<nat (getSize storage)]],
       trainingExamplesSizes = [getSize storage],
       sampledFeatures = [0..<nat (dimensionality storage)],
       rdCalls = rd0, gSeed = seed, gCalls = 0 \<rparr>"

subsection \<open>Routing and the bootstrap refresh pass\<close>

definition dot :: "DataPoint \<Rightarrow> DataPoint \<Rightarrow> real" where
  "dot x y = (\<Sum>(a, b)\<leftarrow>zip x y. a * b)"

datatype TreeKind = AxisAlignedTree | ProjectiveTree | DotProductTree

text \<open>Modelled from the spec: \<^verbatim>\<open>findLeafNode\<close> and \<^verbatim>\<open>TreeLearningTools::updateHistograms\<close>
  are not part of the sources. Following sections 4.3 to 4.6 an example is routed from the
  root by the split descriptors (left iff the decision value is below the threshold) until
  a node without children is reached; children have larger indices than their parent. The
  refresh pass recomputes every leaf histogram from the examples of the full dataset that
  are routed to the leaf, smoothed.\<close>

definition goesLeftAt :: "TreeKind \<Rightarrow> Node \<Rightarrow> DataPoint \<Rightarrow> bool" where
  "goesLeftAt kind nd x =
     (case kind of
        AxisAlignedTree \<Rightarrow> x ! nat (splitFeature nd) < threshold nd
      | ProjectiveTree \<Rightarrow> dot (projection nd) x < 0
      | DotProductTree \<Rightarrow> dot x (projection2 nd) - dot x (projection1 nd) < threshold nd)"

function findLeafNode :: "TreeKind \<Rightarrow> Tree \<Rightarrow> DataPoint \<Rightarrow> nat \<Rightarrow> nat" where
  "findLeafNode kind t x node =
     (if node < length t \<and> node < leftChild (t ! node)
      then findLeafNode kind t x
             (if goesLeftAt kind (t ! node) x then leftChild (t ! node)
              else leftChild (t ! node) + 1)
      else node)"
  by pat_completeness auto
termination
  by (relation "measure (\<lambda>(kind, t, x, node). length t - node)") auto

declare findLeafNode.simps [simp del]

definition updateHistograms :: "TreeKind \<Rightarrow> Tree \<Rightarrow> DataStorage \<Rightarrow> real \<Rightarrow> Tree" where
  "updateHistograms kind t dataStorage smoothing =
     map (\<lambda>node.
            if isLeafNode t node
            then (t ! node)\<lparr>histogram :=
                   (let hist = nodeHistogram dataStorage
                                 (filter (\<lambda>n. findLeafNode kind t (getDataPoint dataStorage n) 0 = node)
                                    [0..<nat (getSize dataStorage)])
                    in map (smoothedLogProb hist smoothing) [0..<length hist])\<rparr>
            else t ! node)
       [0..<length t]"

definition dtLearn ::
  "nat \<Rightarrow> Env \<Rightarrow> Config \<Rightarrow> DataStorage \<Rightarrow> nat \<Rightarrow> (error + Tree \<times> nat) option" where
  "dtLearn fuel env cfg dataStorage rd0 =
     (if \<not> (numFeatures cfg \<le> dimensionality dataStorage) then Some (Inl AssertionFailed)
      else
        (let numBoot = (if numBootstrapExamples cfg < 0 then getSize dataStorage
                        else numBootstrapExamples cfg);
             numF = effectiveNumFeatures cfg dataStorage;
             storage = (if useBootstrap cfg then bootstrap env dataStorage numBoot
                        else dataStorage)
         in case learnLoop (dtStep env cfg numF storage) fuel (initialState storage rd0 0) of
              None \<Rightarrow> None
            | Some (Inl e) \<Rightarrow> Some (Inl e)
            | Some (Inr s) \<Rightarrow>
                Some (Inr (if useBootstrap cfg
                           then updateHistograms AxisAlignedTree (tree s) dataStorage
                                  (smoothingParameter cfg)
                           else tree s, rdCalls s))))"

subsection \<open>ProjectiveDecisionTreeLearner::learn\<close>

text \<open>The statistics of one candidate: every example on the left of the candidate moves
  from the right histogram (a copy of the node's) to the left one.\<close>

definition moveLeft ::
  "(nat \<Rightarrow> bool) \<Rightarrow> DataStorage \<Rightarrow> nat
     \<Rightarrow> EfficientEntropyHistogram \<times> EfficientEntropyHistogram
     \<Rightarrow> EfficientEntropyHistogram \<times> EfficientEntropyHistogram" where
  "moveLeft goesLeft storage n = (\<lambda>(leftHistogram, rightHistogram).
     if goesLeft n
     then (addOne leftHistogram (getClassLabel storage n),
           subOne rightHistogram (getClassLabel storage n))
     else (leftHistogram, rightHistogram))"

definition candidateHistograms ::
  "(nat \<Rightarrow> bool) \<Rightarrow> DataStorage \<Rightarrow> nat list \<Rightarrow> EfficientEntropyHistogram
     \<Rightarrow> EfficientEntropyHistogram \<times> EfficientEntropyHistogram" where
  "candidateHistograms goesLeft storage trainingExampleList hist =
     fold (moveLeft goesLeft storage) trainingExampleList (reset hist, hist)"

text \<open>\<^verbatim>\<open>projection(dimensionDist(g)) = 2*rademacher(g) - 1\<close>, three times (the right-hand side
  is evaluated first), then the division by \<open>sqrt 3\<close>. Six numbers of the local engine.\<close>

definition sampleProjection :: "Env \<Rightarrow> nat \<Rightarrow> nat \<Rightarrow> int \<Rightarrow> DataPoint" where
  "sampleProjection env seed k D =
     map (\<lambda>v. v / sqrt 3)
       (fold (\<lambda>i p. p[mt19937 env seed (k + 2 * i + 1) mod nat D
                       := 2 * real (mt19937 env seed (k + 2 * i) mod 2) - 1])
          [0..<3] (replicate (nat D) 0))"

definition projCandidate ::
  "Env \<Rightarrow> DataStorage \<Rightarrow> nat \<Rightarrow> nat list \<Rightarrow> EfficientEntropyHistogram \<Rightarrow> nat
     \<Rightarrow> nat \<times> Best \<Rightarrow> nat \<times> Best" where
  "projCandidate env storage seed trainingExampleList hist f = (\<lambda>(k, best).
     (let projection = sampleProjection env seed k (dimensionality storage);
          (leftHistogram, rightHistogram) =
             candidateHistograms (\<lambda>n. dot projection (getDataPoint storage n) < 0)
               storage trainingExampleList hist;
          localObjective = getEntropy leftHistogram + getEntropy rightHistogram
      in (k + 6,
          if localObjective < bestObjective best
          then best\<lparr>bestProjection := projection,
                    bestObjective := localObjective,
                    bestLeftMass := getMass leftHistogram,
                    bestRightMass := getMass rightHistogram\<rparr>
          else best)))"

definition projStep :: "Env \<Rightarrow> Config \<Rightarrow> DataStorage \<Rightarrow> LearnState \<Rightarrow> error + LearnState" where
  "projStep env cfg storage s =
     (let node = hd (splitStack s);
          s1 = s\<lparr>splitStack := tl (splitStack s)\<rparr>;
          N = trainingExamplesSizes s ! node;
          trainingExampleList = take (nat N) (trainingExamples s ! node);
          hist = nodeHistogram storage trainingExampleList
      in if getMass hist < minSplitExamples cfg \<or> isPure hist
            \<or> depth (tree s ! node) \<ge> maxDepth cfg
         then leafStep cfg s1 node hist
         else
           (let (k, best) =
                   fold (projCandidate env storage (gSeed s) trainingExampleList hist)
                     [0..<nat (numFeatures cfg)]
                     (gCalls s, initialBest (dimensionality storage) N);
                s2 = s1\<lparr>gCalls := k\<rparr>
            in if bestObjective best > 10 ^ 20 \<or> bestLeftMass best < minChildSplitExamples cfg
                  \<or> bestRightMass best < minChildSplitExamples cfg
               then leafStep cfg s2 node hist
               else
                 (case partitionExamples
                         (\<lambda>n. dot (bestProjection best) (getDataPoint storage n) < 0)
                         trainingExampleList
                         (replicate (nat (bestLeftMass best)) 0, bestLeftMass best)
                         (replicate (nat (bestRightMass best)) 0, bestRightMass best) of
                    Inl e \<Rightarrow> Inl e
                  | Inr ((leftList, bl), (rightList, br)) \<Rightarrow>
                      Inr (commitSplit (\<lambda>nd. nd\<lparr>projection := bestProjection best\<rparr>)
                             s2 node (bestLeftMass best) (bestRightMass best)
                             leftList rightList))))"

definition projLearn ::
  "nat \<Rightarrow> Env \<Rightarrow> Config \<Rightarrow> DataStorage \<Rightarrow> nat \<Rightarrow> (error + Tree \<times> nat) option" where
  "projLearn fuel env cfg dataStorage rd0 =
     (let storage = (if useBootstrap cfg
                     then bootstrap env dataStorage (numBootstrapExamples cfg)
                     else dataStorage)
      in case learnLoop (projStep env cfg storage) fuel
                (initialState storage (rd0 + 1) (rd env rd0)) of
           None \<Rightarrow> None
         | Some (Inl e) \<Rightarrow> Some (Inl e)
         | Some (Inr s) \<Rightarrow>
             Some (Inr (if useBootstrap cfg
                        then updateHistograms ProjectiveTree (tree s) dataStorage
                               (smoothingParameter cfg)
                        else tree s, rdCalls s)))"

subsection \<open>DotProductDecisionTreeLearner::learn\<close>

text \<open>Modelled from the spec: \<^verbatim>\<open>Util::sampleTwo\<close> and \<^verbatim>\<open>Util::getRandomEntry\<close> are not part
  of the sources. Following section 4.5 the first samples two distinct positions of the
  list of non-empty classes and the second one entry of a list, each from numbers of the
  local engine.\<close>

definition sampleTwo :: "Env \<Rightarrow> nat \<Rightarrow> nat \<Rightarrow> nat \<Rightarrow> nat \<times> nat" where
  "sampleTwo env seed k n =
     (let first = mt19937 env seed k mod n;
          second = (first + 1 + mt19937 env seed (k + 1) mod (n - 1)) mod n
      in (first, second))"

definition getRandomEntry :: "Env \<Rightarrow> nat \<Rightarrow> nat \<Rightarrow> nat list \<Rightarrow> nat" where
  "getRandomEntry env seed k v = v ! (mt19937 env seed k mod length v)"

definition squaredNorm :: "DataPoint \<Rightarrow> real" where
  "squaredNorm x = dot x x"

definition dotCandidate ::
  "Env \<Rightarrow> DataStorage \<Rightarrow> nat \<Rightarrow> nat list \<Rightarrow> EfficientEntropyHistogram \<Rightarrow> nat
     \<Rightarrow> nat \<times> Best \<Rightarrow> nat \<times> Best" where
  "dotCandidate env storage seed trainingExampleList hist f = (\<lambda>(k, best).
     (let sortedPointIndices =
             (\<lambda>c. filter (\<lambda>n. getClassLabel storage n = c) trainingExampleList);
          classLabels = filter (\<lambda>c. hist ! c \<noteq> 0) [0..<length hist];
          twoClassLabels = sampleTwo env seed k (length classLabels);
          x1 = getDataPoint storage
                 (getRandomEntry env seed (k + 2)
                    (sortedPointIndices (classLabels ! fst twoClassLabels)));
          x2 = getDataPoint storage
                 (getRandomEntry env seed (k + 3)
                    (sortedPointIndices (classLabels ! snd twoClassLabels)));
          thr = (1 / 2) * (squaredNorm x2 - squaredNorm x1);
          (leftHistogram, rightHistogram) =
             candidateHistograms
               (\<lambda>n. dot (getDataPoint storage n) x2 - dot (getDataPoint storage n) x1 < thr)
               storage trainingExampleList hist;
          localObjective = getEntropy leftHistogram + getEntropy rightHistogram
      in (k + 4,
          if localObjective < bestObjective best
          then best\<lparr>bestThreshold := thr,
                    bestProjection1 := x1,
                    bestProjection2 := x2,
                    bestObjective := localObjective,
                    bestLeftMass := getMass leftHistogram,
                    bestRightMass := getMass rightHistogram\<rparr>
          else best)))"

definition dotStep :: "Env \<Rightarrow> Config \<Rightarrow> DataStorage \<Rightarrow> LearnState \<Rightarrow> error + LearnState" where
  "dotStep env cfg storage s =
     (let node = hd (splitStack s);
          s1 = s\<lparr>splitStack := tl (splitStack s)\<rparr>;
          N = trainingExamplesSizes s ! node;
          trainingExampleList = take (nat N) (trainingExamples s ! node);
          hist = nodeHistogram storage trainingExampleList
      in if getMass hist < minSplitExamples cfg \<or> isPure hist
            \<or> depth (tree s ! node) \<ge> maxDepth cfg
         then leafStep cfg s1 node hist
         else
           (let (k, best) =
                   fold (dotCandidate env storage (gSeed s) trainingExampleList hist)
                     [0..<nat (numFeatures cfg)]
                     (gCalls s, initialBest (dimensionality storage) N);
                s2 = s1\<lparr>gCalls := k\<rparr>
            in if bestObjective best > 10 ^ 20 \<or> bestLeftMass best < minChildSplitExamples cfg
                  \<or> bestRightMass best < minChildSplitExamples cfg
               then leafStep cfg s2 node hist
               else
                 (case partitionExamples
                         (\<lambda>n. dot (getDataPoint storage n) (bestProjection2 best)
                                - dot (getDataPoint storage n) (bestProjection1 best)
                              < bestThreshold best)
                         trainingExampleList
                         (replicate (nat (bestLeftMass best)) 0, bestLeftMass best)
                         (replicate (nat (bestRightMass best)) 0, bestRightMass best) of
                    Inl e \<Rightarrow> Inl e
                  | Inr ((leftList, bl), (rightList, br)) \<Rightarrow>
                      Inr (commitSplit
                             (\<lambda>nd. nd\<lparr>threshold := bestThreshold best,
                                       projection1 := bestProjection1 best,
                                       projection2 := bestProjection2 best\<rparr>)
                             s2 node (bestLeftMass best) (bestRightMass best)
                             leftList rightList))))"

definition dotLearn ::
  "nat \<Rightarrow> Env \<Rightarrow> Config \<Rightarrow> DataStorage \<Rightarrow> nat \<Rightarrow> (error + Tree \<times> nat) option" where
  "dotLearn fuel env cfg dataStorage rd0 =
     (let storage = (if useBootstrap cfg
                     then bootstrap env dataStorage (numBootstrapExamples cfg)
                     else dataStorage)
      in case learnLoop (dotStep env cfg storage) fuel
                (initialState storage (rd0 + 1) (rd env rd0)) of
           None \<Rightarrow> None
         | Some (Inl e) \<Rightarrow> Some (Inl e)
         | Some (Inr s) \<Rightarrow>
             Some (Inr (if useBootstrap cfg
                        then updateHistograms DotProductTree (tree s) dataStorage
                               (smoothingParameter cfg)
                        else tree s, rdCalls s)))"

subsection \<open>OnlineDecisionTreeLearner\<close>

definition updateSplitStatistics ::
  "Config \<Rightarrow> EfficientEntropyHistogram list \<Rightarrow> EfficientEntropyHistogram list \<Rightarrow> nat list
     \<Rightarrow> real list list \<Rightarrow> DataPoint \<Rightarrow> nat
     \<Rightarrow> EfficientEntropyHistogram list \<times> EfficientEntropyHistogram list" where
  "updateSplitStatistics cfg leftStats rightStats feats thresholds x label =
     fold (\<lambda>f. fold (\<lambda>t (l, r).
                       (let slot = t + nat (numThresholds cfg) * f
                        in if x ! (feats ! f) < thresholds ! f ! t
                           then (l[slot := addOne (l ! slot) label], r)
                           else (l, r[slot := addOne (r ! slot) label])))
                 [0..<length (thresholds ! f)])
       [0..<nat (numFeatures cfg)] (leftStats, rightStats)"

text \<open>The state of an online build: the tree that is mutated in place, the local list
  \<^verbatim>\<open>features\<close>, and the call counters of the file-static random device, of the file-static
  engine and of the threshold generator.\<close>

record OnlineState =
  onlineTree :: Tree
  features :: "nat list"
  rdCount :: nat
  gCount :: nat
  thresholdCalls :: nat

text \<open>The retry loop \<^verbatim>\<open>while (std::abs(...) < 1e-6f && m < M)\<close> with \<open>M = 10\<close>.\<close>

fun resampleThreshold :: "Env \<Rightarrow> nat \<Rightarrow> real \<Rightarrow> nat \<Rightarrow> real \<times> nat \<Rightarrow> real \<times> nat" where
  "resampleThreshold env feature previous 0 (current, k) = (current, k)"
| "resampleThreshold env feature previous (Suc m) (current, k) =
     (if \<bar>current - previous\<bar> < 1 / 10 ^ 6
      then resampleThreshold env feature previous m (thresholdSample env k feature, k + 1)
      else (current, k))"

fun sampleThresholds :: "Env \<Rightarrow> nat \<Rightarrow> nat \<Rightarrow> real list \<Rightarrow> nat \<Rightarrow> real list \<times> nat" where
  "sampleThresholds env feature 0 sampled k = (sampled, k)"
| "sampleThresholds env feature (Suc r) sampled k =
     (let (current, k') =
             (if sampled = [] then (thresholdSample env k feature, k + 1)
              else resampleThreshold env feature (last sampled) 10
                     (thresholdSample env k feature, k + 1))
      in sampleThresholds env feature r (sampled @ [current]) k')"

text \<open>The block \<^verbatim>\<open>if (nodeStatistics.getSize() <= 0)\<close> for a fresh leaf.\<close>

definition initLeaf ::
  "Env \<Rightarrow> Config \<Rightarrow> DataStorage \<Rightarrow> OnlineState \<Rightarrow> nat \<Rightarrow> error + OnlineState" where
  "initLeaf env cfg storage s leaf =
     (let F = nat (numFeatures cfg);
          C = classcount storage;
          feats = shuffleWith env (rd env (rdCount s)) (features s);
          chosen = take F feats
      in if \<not> (\<forall>feature \<in> set chosen. int feature < dimensionality storage)
         then Inl AssertionFailed
         else
           (let (thresholds, k) =
                   fold (\<lambda>f (sampled, k).
                           (let (ts, k') = sampleThresholds env (chosen ! f)
                                             (nat (numThresholds cfg)) [] k
                            in (sampled @ [ts], k')))
                     [0..<F] ([], thresholdCalls s);
                slots = nat (numFeatures cfg * numThresholds cfg);
                nd = (onlineTree s ! leaf)
                       \<lparr>nodeStatistics := histogramOfSize C,
                        nodeFeatures := chosen,
                        nodeThresholds := thresholds,
                        leftChildStatistics := replicate slots (histogramOfSize C),
                        rightChildStatistics := replicate slots (histogramOfSize C)\<rparr>
            in Inr (s\<lparr>onlineTree := (onlineTree s)[leaf := nd], features := feats,
                      rdCount := rdCount s + 1, thresholdCalls := k\<rparr>)))"

text \<open>One round of \<^verbatim>\<open>for (int k = 0; k < K; k++)\<close>.\<close>

definition accumulate :: "Config \<Rightarrow> DataPoint \<Rightarrow> nat \<Rightarrow> Node \<Rightarrow> Node" where
  "accumulate cfg x label nd =
     (let (l, r) = updateSplitStatistics cfg (leftChildStatistics nd) (rightChildStatistics nd)
                     (nodeFeatures nd) (nodeThresholds nd) x label
      in nd\<lparr>nodeStatistics := addOne (nodeStatistics nd) label,
            leftChildStatistics := l, rightChildStatistics := r\<rparr>)"

text \<open>The scan for the best split; \<open>(bestObjective, bestThreshold, bestFeature)\<close> starts at
  \<open>(0, -1, -1)\<close>.\<close>

definition scanSlot :: "Config \<Rightarrow> Node \<Rightarrow> nat \<times> nat \<Rightarrow> real \<times> int \<times> int \<Rightarrow> real \<times> int \<times> int" where
  "scanSlot cfg nd = (\<lambda>(f, t) (bestObj, bestThr, bestFeat).
     (let slot = t + nat (numThresholds cfg) * f;
          leftMass = getMass (leftChildStatistics nd ! slot);
          rightMass = getMass (rightChildStatistics nd ! slot)
      in if leftMass > minChildSplitExamples cfg \<and> rightMass > minChildSplitExamples cfg
         then (let localObjective = getEntropy (nodeStatistics nd)
                                    - getEntropy (leftChildStatistics nd ! slot)
                                    - getEntropy (rightChildStatistics nd ! slot)
               in if localObjective > bestObj then (localObjective, int t, int f)
                  else (bestObj, bestThr, bestFeat))
         else (bestObj, bestThr, bestFeat)))"

definition candidateSlots :: "Config \<Rightarrow> (nat \<times> nat) list" where
  "candidateSlots cfg =
     concat (map (\<lambda>f. map (\<lambda>t. (f, t)) [0..<nat (numThresholds cfg)])
               [0..<nat (numFeatures cfg)])"

definition bestSplit :: "Config \<Rightarrow> Node \<Rightarrow> real \<times> int \<times> int" where
  "bestSplit cfg nd = fold (scanSlot cfg nd) (candidateSlots cfg) (0, - 1, - 1)"

text \<open>\<^verbatim>\<open>updateLeafNodeHistogram(tree->getNodeData(leaf).histogram, nodeStatistics,
  smoothingParameter, false); continue;\<close>\<close>

definition refreshLeaf :: "Config \<Rightarrow> OnlineState \<Rightarrow> nat \<Rightarrow> Node \<Rightarrow> error + OnlineState" where
  "refreshLeaf cfg s leaf nd =
     (case updateLeafNodeHistogram (histogram nd) (nodeStatistics nd) (smoothingParameter cfg)
             False of
        Inl e \<Rightarrow> Inl e
      | Inr h \<Rightarrow> Inr (s\<lparr>onlineTree := (onlineTree s)[leaf := nd\<lparr>histogram := h\<rparr>]\<rparr>))"

definition splitLeaf ::
  "Config \<Rightarrow> OnlineState \<Rightarrow> nat \<Rightarrow> Node \<Rightarrow> nat \<Rightarrow> nat \<Rightarrow> error + OnlineState" where
  "splitLeaf cfg s leaf nd bestFeat bestThr =
     (let slot = bestThr + nat (numThresholds cfg) * bestFeat;
          configured = (onlineTree s)[leaf := nd\<lparr>threshold := nodeThresholds nd ! bestFeat ! bestThr,
                                                splitFeature := int (nodeFeatures nd ! bestFeat)\<rparr>];
          (t, leftChild) = splitNode configured leaf;
          rightChild = leftChild + 1
      in case updateLeafNodeHistogram (histogram (t ! leftChild))
                (leftChildStatistics nd ! slot) (smoothingParameter cfg) False of
           Inl e \<Rightarrow> Inl e
         | Inr hl \<Rightarrow>
             (let t1 = t[leftChild := (t ! leftChild)\<lparr>histogram := hl\<rparr>]
              in case updateLeafNodeHistogram (histogram (t1 ! rightChild))
                        (rightChildStatistics nd ! slot) (smoothingParameter cfg) False of
                   Inl e \<Rightarrow> Inl e
                 | Inr hr \<Rightarrow>
                     (let t2 = t1[rightChild := (t1 ! rightChild)\<lparr>histogram := hr\<rparr>];
                          cleared = (t2 ! leaf)\<lparr>leftChildStatistics := [],
                                      rightChildStatistics := [], nodeThresholds := [],
                                      nodeFeatures := [], histogram := []\<rparr>
                      in Inr (s\<lparr>onlineTree := t2[leaf := cleared]\<rparr>))))"

text \<open>The body of \<^verbatim>\<open>for (int n = 0; n < N; n++)\<close>, one example visit, in two parts.
  \<open>prepareVisit\<close> routes the example, sets a fresh leaf up, draws \<open>K\<close> and accumulates
  the statistics \<open>K\<close> times; it yields the state, the leaf, the leaf's depth read at the
  start, and the leaf's accumulated node data. \<open>decideVisit\<close> is the rest of the body, from
  the stop re-check on.\<close>

definition prepareVisit ::
  "Env \<Rightarrow> Config \<Rightarrow> DataStorage \<Rightarrow> OnlineState \<Rightarrow> nat
     \<Rightarrow> error + (OnlineState \<times> nat \<times> int \<times> Node)" where
  "prepareVisit env cfg storage s0 n =
     (let x = getDataPoint storage n;
          label = getClassLabel storage n;
          leaf = findLeafNode AxisAlignedTree (onlineTree s0) x 0;
          leafDepth = depth (onlineTree s0 ! leaf)
      in case (if length (nodeStatistics (onlineTree s0 ! leaf)) \<le> 0
               then initLeaf env cfg storage s0 leaf else Inr s0) of
           Inl e \<Rightarrow> Inl e
         | Inr s1 \<Rightarrow>
             (let K = (if useBootstrap cfg then poissonDraw env (gCount s1) else 1);
                  s2 = (if useBootstrap cfg then s1\<lparr>gCount := gCount s1 + 1\<rparr> else s1)
              in Inr (s2, leaf, leafDepth,
                      (accumulate cfg x label ^^ K) (onlineTree s2 ! leaf))))"

definition decideVisit ::
  "Config \<Rightarrow> DataStorage \<Rightarrow> OnlineState \<Rightarrow> nat \<Rightarrow> int \<Rightarrow> Node \<Rightarrow> error + OnlineState" where
  "decideVisit cfg storage s2 leaf leafDepth nd =
     (if getMass (nodeStatistics nd) < minSplitExamples cfg
         \<or> isPure (nodeStatistics nd) \<or> leafDepth \<ge> maxDepth cfg
      then refreshLeaf cfg s2 leaf nd
      else
        (let (bestObj, bestThr, bestFeat) = bestSplit cfg nd
         in if bestObj < minSplitObjective cfg then refreshLeaf cfg s2 leaf nd
            else if \<not> (bestFeat \<ge> 0
                        \<and> int (nodeFeatures nd ! nat bestFeat) < dimensionality storage)
            then Inl AssertionFailed
            else splitLeaf cfg s2 leaf nd (nat bestFeat) (nat bestThr)))"

definition onlineVisit ::
  "Env \<Rightarrow> Config \<Rightarrow> DataStorage \<Rightarrow> OnlineState \<Rightarrow> nat \<Rightarrow> error + OnlineState" where
  "onlineVisit env cfg storage s0 n =
     (case prepareVisit env cfg storage s0 n of
        Inl e \<Rightarrow> Inl e
      | Inr (s2, leaf, leafDepth, nd) \<Rightarrow> decideVisit cfg storage s2 leaf leafDepth nd)"

fun onlineLoop ::
  "Env \<Rightarrow> Config \<Rightarrow> DataStorage \<Rightarrow> nat list \<Rightarrow> OnlineState \<Rightarrow> error + OnlineState" where
  "onlineLoop env cfg storage [] s = Inr s"
| "onlineLoop env cfg storage (n # ns) s =
     (case onlineVisit env cfg storage s n of
        Inl e \<Rightarrow> Inl e
      | Inr s' \<Rightarrow> onlineLoop env cfg storage ns s')"

text \<open>\<open>rd0\<close>, \<open>g0\<close> and \<open>thr0\<close> are the numbers of calls made to the file-static device, the
  file-static engine and the threshold generator before this call of \<^verbatim>\<open>learn\<close>.\<close>

definition onlineLearn ::
  "Env \<Rightarrow> Config \<Rightarrow> DataStorage \<Rightarrow> Tree \<Rightarrow> nat \<Rightarrow> nat \<Rightarrow> nat \<Rightarrow> error + OnlineState" where
  "onlineLearn env cfg storage t rd0 g0 thr0 =
     (let D = dimensionality storage
      in if \<not> (1 \<le> numFeatures cfg \<and> numFeatures cfg \<le> D) then Inl AssertionFailed
         else if \<not> (thresholdGeneratorSize env = D) then Inl AssertionFailed
         else if \<not> (0 < length t) then Inl AssertionFailed
         else onlineLoop env cfg storage [0..<nat (getSize storage)]
                \<lparr> onlineTree = t, features = [0..<nat D], rdCount = rd0, gCount = g0,
                  thresholdCalls = thr0 \<rparr>)"

subsection \<open>Well-formed inputs and invariants of a build\<close>

text \<open>A dataset is well formed when every example has a label and every label is below
  the class count.\<close>

definition wfStorage :: "DataStorage \<Rightarrow> bool" where
  "wfStorage st \<longleftrightarrow>
     length (classLabels st) = length (dataPoints st)
     \<and> (\<forall>c \<in> set (classLabels st). int c < classcount st)"

text \<open>The bookkeeping of a batch build: one example list and one size per node, each
  size the length of its list, every entry an example of the storage, and every pending
  node a node of the tree.\<close>

definition buildInv :: "DataStorage \<Rightarrow> LearnState \<Rightarrow> bool" where
  "buildInv storage s \<longleftrightarrow>
     length (trainingExamples s) = length (tree s)
     \<and> length (trainingExamplesSizes s) = length (tree s)
     \<and> (\<forall>i < length (tree s).
           trainingExamplesSizes s ! i = int (length (trainingExamples s ! i))
           \<and> (\<forall>n \<in> set (trainingExamples s ! i). n < length (dataPoints storage)))
     \<and> (\<forall>node \<in> set (splitStack s). node < length (tree s))"

text \<open>Every split node's two child lists partition its own list, their sizes add up to
  its size, and both are at least the minimum child size.\<close>

definition partitionInv :: "Config \<Rightarrow> LearnState \<Rightarrow> bool" where
  "partitionInv cfg s \<longleftrightarrow>
     (\<forall>p < length (tree s). leftChild (tree s ! p) \<noteq> 0 \<longrightarrow>
        (let l = leftChild (tree s ! p); r = l + 1
         in r < length (tree s)
            \<and> trainingExamplesSizes s ! l + trainingExamplesSizes s ! r
                = trainingExamplesSizes s ! p
            \<and> minChildSplitExamples cfg \<le> trainingExamplesSizes s ! l
            \<and> minChildSplitExamples cfg \<le> trainingExamplesSizes s ! r
            \<and> mset (trainingExamples s ! l) + mset (trainingExamples s ! r)
                = mset (trainingExamples s ! p)))"

text \<open>The depth bound on a tree: every node but the root is at most at the maximum
  depth, and every node that has children is strictly above it.\<close>

definition depthBounded :: "Config \<Rightarrow> Tree \<Rightarrow> bool" where
  "depthBounded cfg t \<longleftrightarrow>
     (\<forall>i < length t. (i = 0 \<or> depth (t ! i) \<le> maxDepth cfg)
                     \<and> (leftChild (t ! i) \<noteq> 0 \<longrightarrow> depth (t ! i) < maxDepth cfg))"

text \<open>The outcomes of one iteration of a batch learner, for the node \<open>node\<close> on top of the
  stack. A leaf outcome writes the node's histogram only, with what
  \<open>updateLeafNodeHistogram\<close> makes of the histogram of the node's examples; a split outcome by the predicate
  \<open>goesLeft\<close> appends two children and their lists, which hold the examples of some
  reordering of the node's list on the left and on the right of the predicate.\<close>

definition leafOutcome :: "Config \<Rightarrow> DataStorage \<Rightarrow> LearnState \<Rightarrow> LearnState \<Rightarrow> bool" where
  "leafOutcome cfg storage s s' \<longleftrightarrow>
     (let node = hd (splitStack s)
      in (\<exists>h. tree s' = (tree s)[node := (tree s ! node)\<lparr>histogram := h\<rparr>]
              \<and> updateLeafNodeHistogram (histogram (tree s ! node))
                    (nodeHistogram storage (trainingExamples s ! node))
                    (smoothingParameter cfg) (useBootstrap cfg) = Inr h)
         \<and> splitStack s' = tl (splitStack s)
         \<and> trainingExamples s' = trainingExamples s
         \<and> trainingExamplesSizes s' = trainingExamplesSizes s)"

definition splitOutcome :: "(nat \<Rightarrow> bool) \<Rightarrow> Config \<Rightarrow> LearnState \<Rightarrow> LearnState \<Rightarrow> bool" where
  "splitOutcome goesLeft cfg s s' \<longleftrightarrow>
     (let node = hd (splitStack s); l = length (tree s)
      in (\<exists>setConfig reordered leftList rightList.
            (\<forall>nd. depth (setConfig nd) = depth nd)
            \<and> mset reordered = mset (trainingExamples s ! node)
            \<and> leftList = rev (filter goesLeft reordered)
            \<and> rightList = rev (filter (\<lambda>n. \<not> goesLeft n) reordered)
            \<and> tree s' = fst (splitNode ((tree s)[node := setConfig (tree s ! node)]) node)
            \<and> splitStack s' = (l + 1) # l # tl (splitStack s)
            \<and> trainingExamples s' = trainingExamples s @ [leftList, rightList]
            \<and> trainingExamplesSizes s'
                = trainingExamplesSizes s @ [int (length leftList), int (length rightList)]
            \<and> minChildSplitExamples cfg \<le> int (length leftList)
            \<and> minChildSplitExamples cfg \<le> int (length rightList)
            \<and> depth (tree s ! node) < maxDepth cfg))"

text \<open>The storage a batch build runs on: the dataset itself, or its bootstrap resample.\<close>

definition dtStorage :: "Env \<Rightarrow> Config \<Rightarrow> DataStorage \<Rightarrow> DataStorage" where
  "dtStorage env cfg dataStorage =
     (if useBootstrap cfg
      then bootstrap env dataStorage
             (if numBootstrapExamples cfg < 0 then getSize dataStorage
              else numBootstrapExamples cfg)
      else dataStorage)"

definition pdStorage :: "Env \<Rightarrow> Config \<Rightarrow> DataStorage \<Rightarrow> DataStorage" where
  "pdStorage env cfg dataStorage =
     (if useBootstrap cfg then bootstrap env dataStorage (numBootstrapExamples cfg)
      else dataStorage)"

text \<open>A node table whose child indices point into the table.\<close>

definition childrenInRange :: "Tree \<Rightarrow> bool" where
  "childrenInRange t \<longleftrightarrow>
     t \<noteq> [] \<and> (\<forall>i < length t. leftChild (t ! i) \<noteq> 0 \<longrightarrow> leftChild (t ! i) + 1 < length t)"

text \<open>The root is node 0 and its depth is 0.\<close>

definition rootAtZero :: "Tree \<Rightarrow> bool" where
  "rootAtZero t \<longleftrightarrow> 0 < length t \<and> depth (t ! 0) = 0"

text \<open>The structure of a tree: per node its depth, its left child and its split.\<close>

definition treeStructure :: "Tree \<Rightarrow> (int \<times> nat \<times> int \<times> real) list" where
  "treeStructure t = map (\<lambda>nd. (depth nd, leftChild nd, splitFeature nd, threshold nd)) t"

text \<open>What the split-commit pass of each batch learner compares for an example \<open>x\<close>,
  read back from the split node it writes: the value of the example, and the bound below
  which the example is put into the left child's list.\<close>

definition decisionValue :: "TreeKind \<Rightarrow> Node \<Rightarrow> DataPoint \<Rightarrow> real" where
  "decisionValue kind nd x =
     (case kind of
        AxisAlignedTree \<Rightarrow> x ! nat (splitFeature nd)
      | ProjectiveTree \<Rightarrow> dot (projection nd) x
      | DotProductTree \<Rightarrow> dot x (projection2 nd) - dot x (projection1 nd))"

definition decisionThreshold :: "TreeKind \<Rightarrow> Node \<Rightarrow> real" where
  "decisionThreshold kind nd =
     (case kind of
        AxisAlignedTree \<Rightarrow> threshold nd
      | ProjectiveTree \<Rightarrow> 0
      | DotProductTree \<Rightarrow> threshold nd)"

text \<open>The body of the inner loop of \<open>updateSplitStatistics\<close> for the slot of feature
  position \<open>f\<close> and threshold position \<open>t\<close>, with the comparison as a parameter.\<close>

definition slotStep ::
  "nat \<Rightarrow> (nat \<Rightarrow> nat \<Rightarrow> bool) \<Rightarrow> nat \<Rightarrow> nat \<Rightarrow> nat
   \<Rightarrow> EfficientEntropyHistogram list \<times> EfficientEntropyHistogram list
   \<Rightarrow> EfficientEntropyHistogram list \<times> EfficientEntropyHistogram list" where
  "slotStep T left label f t = (\<lambda>(l, r).
     (let slot = t + T * f
      in if left f t then (l[slot := addOne (l ! slot) label], r)
         else (l, r[slot := addOne (r ! slot) label])))"



text \<open>The state of a build after at most \<open>k\<close> iterations of the loop (fewer when the
  stack runs empty first).\<close>

fun stateAfter ::
  "(LearnState \<Rightarrow> error + LearnState) \<Rightarrow> nat \<Rightarrow> LearnState \<Rightarrow> error + LearnState" where
  "stateAfter step 0 s = Inr s"
| "stateAfter step (Suc k) s =
     (if splitStack s = [] then Inr s
      else case step s of Inl e \<Rightarrow> Inl e | Inr s' \<Rightarrow> stateAfter step k s')"

subsection \<open>Concrete inputs\<close>

text \<open>Two examples of two classes on one feature, \<open>(x = 0, class 0)\<close> and
  \<open>(x = 1, class 1)\<close>; a configuration; and an environment whose random device counts its
  calls and whose shuffle keeps the order on even seeds and reverses it on odd ones.\<close>

definition twoExamples :: DataStorage where
  "twoExamples = \<lparr> dataPoints = [[0], [1]], classLabels = [0, 1],
                    dimensionality = 1, classcount = 2 \<rparr>"

definition exampleConfig :: Config where
  "exampleConfig = \<lparr> numFeatures = 1, useBootstrap = False, numBootstrapExamples = - 1,
                      maxDepth = 10, minSplitExamples = 2, minChildSplitExamples = 1,
                      smoothingParameter = 1, numThresholds = 1, minSplitObjective = 0 \<rparr>"

definition exampleEnv :: Env where
  "exampleEnv = \<lparr> rd = (\<lambda>k. k),
                   shuffleWith = (\<lambda>seed xs. if even seed then xs else rev xs),
                   mt19937 = (\<lambda>seed k. seed + k),
                   poissonDraw = (\<lambda>k. 1),
                   bootstrapDraw = (\<lambda>k. k),
                   thresholdSample = (\<lambda>k feature. 1 / 2),
                   thresholdGeneratorSize = 1 \<rparr>"

text \<open>The axis-aligned build on \<open>twoExamples\<close> after its first iteration: the root is split
  at threshold \<open>1/2\<close> on feature 0, example 0 is in the left child's list and example 1 in
  the right child's.\<close>

definition splitRoot :: Node where
  "splitRoot = (freshNode 0)\<lparr>threshold := 1 / 2, splitFeature := 0, leftChild := 1\<rparr>"

definition afterFirstSplit :: LearnState where
  "afterFirstSplit =
     \<lparr> tree = [splitRoot, freshNode 1, freshNode 1], splitStack = [2, 1],
       trainingExamples = [[0, 1], [0], [1]], trainingExamplesSizes = [2, 1, 1],
       sampledFeatures = [0], rdCalls = 1, gSeed = 0, gCalls = 0 \<rparr>"

text \<open>The same build after its second iteration: the right child, whose only example is
  of class 1, has become a leaf with the smoothed log-probabilities \<open>ln (1/3)\<close> and
  \<open>ln (2/3)\<close> (smoothing constant 1).\<close>

definition afterRightLeaf :: LearnState where
  "afterRightLeaf =
     afterFirstSplit\<lparr>tree := [splitRoot, freshNode 1,
                                (freshNode 1)\<lparr>histogram := [ln (1 / 3), ln (2 / 3)]\<rparr>],
                      splitStack := [1]\<rparr>"

text \<open>The same build after its third and last iteration, and the tree it returns.\<close>

definition learnedTree :: Tree where
  "learnedTree = [splitRoot,
                  (freshNode 1)\<lparr>histogram := [ln (2 / 3), ln (1 / 3)]\<rparr>,
                  (freshNode 1)\<lparr>histogram := [ln (1 / 3), ln (2 / 3)]\<rparr>]"

definition afterLeftLeaf :: LearnState where
  "afterLeftLeaf = afterFirstSplit\<lparr>tree := learnedTree, splitStack := []\<rparr>"

text \<open>A configuration with a negative maximum depth, and the single leaf that the
  axis-aligned learner builds from \<open>twoExamples\<close> under it.\<close>

definition negativeDepthConfig :: Config where
  "negativeDepthConfig = exampleConfig\<lparr>maxDepth := - 1\<rparr>"

definition rootLeaf :: Node where
  "rootLeaf = (freshNode 0)\<lparr>histogram := [ln (1 / 2), ln (1 / 2)]\<rparr>"




text \<open>The projective build on \<open>twoExamples\<close> under \<open>exampleConfig\<close> after its first
  iteration: example 0, whose projection is 0, is in the right child's list.\<close>

definition afterProjectiveSplit :: LearnState where
  "afterProjectiveSplit =
     \<lparr> tree = [(freshNode 0)\<lparr>projection := [- 1 / sqrt 3], leftChild := 1\<rparr>,
               freshNode 1, freshNode 1],
       splitStack = [2, 1],
       trainingExamples = [[0, 1], [1], [0]], trainingExamplesSizes = [2, 1, 1],
       sampledFeatures = [0], rdCalls = 1, gSeed = 0, gCalls = 6 \<rparr>"

text \<open>A visit of the online learner whose example lies exactly on the candidate
  threshold \<open>1/2\<close> of the only slot.\<close>

definition tiedPoint :: DataPoint where
  "tiedPoint = [1 / 2]"

text \<open>An online build on \<open>twoExamples\<close> from a tree that has just its root, with Poisson
  bagging on (every draw is 1), no minimum child mass, and a minimum split objective of
  \<open>2 ln 2\<close>, which is the gain of the only candidate slot once both examples are seen.\<close>

definition onlineConfig :: Config where
  "onlineConfig = exampleConfig\<lparr>useBootstrap := True, minChildSplitExamples := 0,
                                 minSplitObjective := 2 * ln 2\<rparr>"

definition onlineStart :: OnlineState where
  "onlineStart = \<lparr> onlineTree = [freshNode 0], features = [0], rdCount = 0, gCount = 0,
                    thresholdCalls = 0 \<rparr>"

definition seenRoot :: "EfficientEntropyHistogram \<Rightarrow> EfficientEntropyHistogram
                         \<Rightarrow> EfficientEntropyHistogram \<Rightarrow> Node" where
  "seenRoot stats leftStat rightStat =
     (freshNode 0)\<lparr>nodeStatistics := stats, nodeFeatures := [0], nodeThresholds := [[1 / 2]],
                   leftChildStatistics := [leftStat], rightChildStatistics := [rightStat]\<rparr>"

definition afterFirstVisit :: OnlineState where
  "afterFirstVisit =
     \<lparr> onlineTree = [(seenRoot [1, 0] [1, 0] [0, 0])\<lparr>histogram := [ln (2 / 3), ln (1 / 3)]\<rparr>],
       features = [0], rdCount = 1, gCount = 1, thresholdCalls = 1 \<rparr>"

definition accumulatedRoot :: Node where
  "accumulatedRoot = (seenRoot [1, 1] [1, 0] [0, 1])\<lparr>histogram := [ln (2 / 3), ln (1 / 3)]\<rparr>"

definition afterOnlineSplit :: OnlineState where
  "afterOnlineSplit =
     \<lparr> onlineTree =
         [(freshNode 0)\<lparr>threshold := 1 / 2, leftChild := 1, nodeStatistics := [1, 1]\<rparr>,
          (freshNode 1)\<lparr>histogram := [ln (2 / 3), ln (1 / 3)]\<rparr>,
          (freshNode 1)\<lparr>histogram := [ln (1 / 3), ln (2 / 3)]\<rparr>],
       features = [0], rdCount = 1, gCount = 2, thresholdCalls = 1 \<rparr>"

section \<open>Properties\<close>

lemma drop_update_pred:
  "0 < k \<Longrightarrow> k \<le> length xs \<Longrightarrow> drop (k - 1) (xs[k - 1 := n]) = n # drop k xs"
  by (cases k) (simp_all add: Cons_nth_drop_Suc[symmetric] drop_update_cancel)

lemma partitionExamples_Inr:
  "partitionExamples gl xs (ll0, bl0) (rl0, br0) = Inr ((ll, bl), (rl, br)) \<Longrightarrow>
   0 \<le> bl0 \<Longrightarrow> bl0 \<le> int (length ll0) \<Longrightarrow> 0 \<le> br0 \<Longrightarrow> br0 \<le> int (length rl0) \<Longrightarrow>
   bl = bl0 - int (length (filter gl xs)) \<and> br = br0 - int (length (filter (\<lambda>n. \<not> gl n) xs))
   \<and> 0 \<le> bl \<and> 0 \<le> br \<and> length ll = length ll0 \<and> length rl = length rl0
   \<and> drop (nat bl) ll = rev (filter gl xs) @ drop (nat bl0) ll0
   \<and> drop (nat br) rl = rev (filter (\<lambda>n. \<not> gl n) xs) @ drop (nat br0) rl0"
proof (induction xs arbitrary: ll0 bl0 rl0 br0)
  case Nil
  then show ?case by simp
next
  case (Cons n ns)
  show ?case
  proof (cases "gl n")
    case True
    with Cons.prems(1) have ok: "0 < bl0" "bl0 \<le> int (length ll0)"
      and rec: "partitionExamples gl ns (ll0[nat (bl0 - 1) := n], bl0 - 1) (rl0, br0) = Inr ((ll, bl), (rl, br))"
      by (auto split: if_splits)
    have d: "drop (nat (bl0 - 1)) (ll0[nat (bl0 - 1) := n]) = n # drop (nat bl0) ll0"
      using drop_update_pred[of "nat bl0" ll0 n] ok by (simp add: nat_diff_distrib)
    from Cons.IH[OF rec] ok Cons.prems(4,5) d True show ?thesis by auto
  next
    case False
    with Cons.prems(1) have ok: "0 < br0" "br0 \<le> int (length rl0)"
      and rec: "partitionExamples gl ns (ll0, bl0) (rl0[nat (br0 - 1) := n], br0 - 1) = Inr ((ll, bl), (rl, br))"
      by (auto split: if_splits)
    have d: "drop (nat (br0 - 1)) (rl0[nat (br0 - 1) := n]) = n # drop (nat br0) rl0"
      using drop_update_pred[of "nat br0" rl0 n] ok by (simp add: nat_diff_distrib)
    from Cons.IH[OF rec] ok Cons.prems(2,3) d False show ?thesis by auto
  qed
qed

lemma partitionExamples_succeeds:
  "int (length (filter gl xs)) \<le> bl0 \<Longrightarrow> bl0 \<le> int (length ll0) \<Longrightarrow>
   int (length (filter (\<lambda>n. \<not> gl n) xs)) \<le> br0 \<Longrightarrow> br0 \<le> int (length rl0) \<Longrightarrow>
   \<exists>r. partitionExamples gl xs (ll0, bl0) (rl0, br0) = Inr r"
proof (induction xs arbitrary: ll0 bl0 rl0 br0)
  case Nil
  then show ?case by simp
next
  case (Cons n ns)
  then show ?case by (cases "gl n") auto
qed

lemma length_addOne [simp]: "length (addOne h c) = length h"
  by (simp add: addOne_def)

lemma length_subOne [simp]: "length (subOne h c) = length h"
  by (simp add: subOne_def)

lemma length_reset [simp]: "length (reset h) = length h"
  by (simp add: reset_def)

lemma getMass_reset [simp]: "getMass (reset h) = 0"
  by (simp add: reset_def getMass_def sum_list_replicate)

lemma sum_list_update_int:
  "k < length xs \<Longrightarrow> sum_list (xs[k := (v::int)]) = sum_list xs + v - xs ! k"
proof (induction xs arbitrary: k)
  case Nil
  then show ?case by simp
next
  case (Cons a xs)
  then show ?case by (cases k) auto
qed

lemma getMass_addOne: "c < length h \<Longrightarrow> getMass (addOne h c) = getMass h + 1"
  by (simp add: addOne_def getMass_def sum_list_update_int)

lemma getMass_subOne: "c < length h \<Longrightarrow> getMass (subOne h c) = getMass h - 1"
  by (simp add: subOne_def getMass_def sum_list_update_int)

lemma length_histogramOfSize [simp]: "length (histogramOfSize C) = nat C"
  by (simp add: histogramOfSize_def)

lemma getMass_histogramOfSize [simp]: "getMass (histogramOfSize C) = 0"
  by (simp add: histogramOfSize_def getMass_def sum_list_replicate)

lemma fold_addOne:
  "\<forall>n \<in> set xs. lab n < length h \<Longrightarrow>
   length (fold (\<lambda>n hist. addOne hist (lab n)) xs h) = length h
   \<and> getMass (fold (\<lambda>n hist. addOne hist (lab n)) xs h) = getMass h + int (length xs)"
  by (induction xs arbitrary: h) (simp_all add: getMass_addOne)

lemma length_nodeHistogram [simp]:
  "length (nodeHistogram storage xs) = nat (classcount storage)"
proof -
  have "length (fold (\<lambda>n hist. addOne hist (lab n)) xs h) = length h" for lab h
    by (induction xs arbitrary: h) simp_all
  then show ?thesis by (simp add: nodeHistogram_def)
qed

lemma wfStorage_label:
  "wfStorage storage \<Longrightarrow> n < length (dataPoints storage) \<Longrightarrow>
   getClassLabel storage n < nat (classcount storage)"
proof -
  assume wf: "wfStorage storage" and n: "n < length (dataPoints storage)"
  then have "classLabels storage ! n \<in> set (classLabels storage)"
    by (simp add: wfStorage_def)
  with wf have "int (classLabels storage ! n) < classcount storage"
    by (simp add: wfStorage_def)
  then show ?thesis by (simp add: getClassLabel_def)
qed

lemma getMass_nodeHistogram:
  "wfStorage storage \<Longrightarrow> \<forall>n \<in> set xs. n < length (dataPoints storage) \<Longrightarrow>
   getMass (nodeHistogram storage xs) = int (length xs)"
  using fold_addOne[of xs "getClassLabel storage" "histogramOfSize (classcount storage)"]
  by (simp add: nodeHistogram_def wfStorage_label)

lemma fold_moveLeft:
  "\<forall>n \<in> set xs. getClassLabel storage n < length lh0 \<Longrightarrow> length rh0 = length lh0 \<Longrightarrow>
   length (fst (fold (moveLeft gl storage) xs (lh0, rh0))) = length lh0
   \<and> length (snd (fold (moveLeft gl storage) xs (lh0, rh0))) = length lh0
   \<and> getMass (fst (fold (moveLeft gl storage) xs (lh0, rh0)))
       = getMass lh0 + int (length (filter gl xs))
   \<and> getMass (snd (fold (moveLeft gl storage) xs (lh0, rh0)))
       = getMass rh0 - int (length (filter gl xs))"
proof (induction xs arbitrary: lh0 rh0)
  case Nil
  then show ?case by simp
next
  case (Cons n xs)
  show ?case
  proof (cases "gl n")
    case True
    from Cons.prems have c: "getClassLabel storage n < length lh0" by simp
    have "fold (moveLeft gl storage) (n # xs) (lh0, rh0)
          = fold (moveLeft gl storage) xs
              (addOne lh0 (getClassLabel storage n), subOne rh0 (getClassLabel storage n))"
      using True by (simp add: moveLeft_def)
    moreover note Cons.IH[of "addOne lh0 (getClassLabel storage n)"
        "subOne rh0 (getClassLabel storage n)"]
    ultimately show ?thesis using Cons.prems True c
      by (simp add: getMass_addOne getMass_subOne)
  next
    case False
    have "fold (moveLeft gl storage) (n # xs) (lh0, rh0)
          = fold (moveLeft gl storage) xs (lh0, rh0)"
      using False by (simp add: moveLeft_def)
    with Cons.IH[of lh0 rh0] Cons.prems False show ?thesis by simp
  qed
qed

lemma candidateHistograms_mass:
  assumes "\<forall>n \<in> set xs. getClassLabel storage n < length hist"
    and "candidateHistograms gl storage xs hist = (lh, rh)"
  shows "getMass lh = int (length (filter gl xs))
         \<and> getMass rh = getMass hist - int (length (filter gl xs))"
proof -
  have e: "fold (moveLeft gl storage) xs (reset hist, hist) = (lh, rh)"
    using assms(2) by (simp add: candidateHistograms_def)
  have "\<forall>n \<in> set xs. getClassLabel storage n < length (reset hist)"
    using assms(1) by simp
  from fold_moveLeft[OF this, of hist gl] show ?thesis
    unfolding e by simp
qed

lemma leafStep_Inr:
  "leafStep cfg s node hist = Inr s' \<Longrightarrow>
   \<exists>h. s' = s\<lparr>tree := (tree s)[node := (tree s ! node)\<lparr>histogram := h\<rparr>]\<rparr>
       \<and> updateLeafNodeHistogram (histogram (tree s ! node)) hist (smoothingParameter cfg)
            (useBootstrap cfg) = Inr h"
  by (auto simp: leafStep_def finalizeLeaf_def split: sum.splits if_splits)

lemma evalFeature_mset:
  "mset (fst (evalFeature storage hist feature acc)) = mset (fst acc)"
  by (cases acc) (simp add: evalFeature_def Let_def)

lemma fold_evalFeature_mset:
  "mset (fst (fold (evalFeature storage hist) feats acc)) = mset (fst acc)"
  by (induction feats arbitrary: acc) (simp_all add: evalFeature_mset)

lemma buildInv_top:
  "buildInv storage s \<Longrightarrow> splitStack s \<noteq> [] \<Longrightarrow>
   hd (splitStack s) < length (tree s)
   \<and> take (nat (trainingExamplesSizes s ! hd (splitStack s)))
        (trainingExamples s ! hd (splitStack s)) = trainingExamples s ! hd (splitStack s)"
  by (cases "splitStack s") (auto simp: buildInv_def)

lemma partitionExamples_counters:
  "partitionExamples gl xs (ll0, bl0) (rl0, br0) = Inr ((ll, bl), (rl, br)) \<Longrightarrow>
   bl = bl0 - int (length (filter gl xs)) \<and> br = br0 - int (length (filter (\<lambda>n. \<not> gl n) xs))"
proof (induction xs arbitrary: ll0 bl0 rl0 br0)
  case Nil
  then show ?case by simp
next
  case (Cons n ns)
  show ?case
  proof (cases "gl n")
    case True
    with Cons.prems have
      "partitionExamples gl ns (ll0[nat (bl0 - 1) := n], bl0 - 1) (rl0, br0) = Inr ((ll, bl), (rl, br))"
      by (auto split: if_splits)
    from Cons.IH[OF this] True show ?thesis by simp
  next
    case False
    with Cons.prems have
      "partitionExamples gl ns (ll0, bl0) (rl0[nat (br0 - 1) := n], br0 - 1) = Inr ((ll, bl), (rl, br))"
      by (auto split: if_splits)
    from Cons.IH[OF this] False show ?thesis by simp
  qed
qed

lemma partitionExamples_filled:
  assumes "partitionExamples gl xs (replicate (nat L) 0, L) (replicate (nat R) 0, R)
             = Inr ((leftList, 0), (rightList, 0))"
  shows "leftList = rev (filter gl xs) \<and> rightList = rev (filter (\<lambda>n. \<not> gl n) xs)
         \<and> L = int (length leftList) \<and> R = int (length rightList)"
proof -
  from partitionExamples_counters[OF assms]
  have L: "L = int (length (filter gl xs))" and R: "R = int (length (filter (\<lambda>n. \<not> gl n) xs))"
    by simp_all
  from partitionExamples_Inr[OF assms] L R show ?thesis by simp
qed

lemma commit_outcome:
  assumes part: "partitionExamples gl xs (replicate (nat L) 0, L) (replicate (nat R) 0, R)
                   = Inr ((leftList, 0), (rightList, 0))"
    and s': "s' = commitSplit setConfig s2 (hd (splitStack s)) L R leftList rightList"
    and s2: "tree s2 = tree s" "splitStack s2 = tl (splitStack s)"
      "trainingExamples s2 = trainingExamples s"
      "trainingExamplesSizes s2 = trainingExamplesSizes s"
    and xs: "mset xs = mset (trainingExamples s ! hd (splitStack s))"
    and dp: "\<forall>nd. depth (setConfig nd) = depth nd"
    and mc: "minChildSplitExamples cfg \<le> L" "minChildSplitExamples cfg \<le> R"
    and md: "depth (tree s ! hd (splitStack s)) < maxDepth cfg"
  shows "splitOutcome gl cfg s s'"
proof -
  note f = partitionExamples_filled[OF part]
  show ?thesis
    unfolding splitOutcome_def Let_def
    apply (rule exI[of _ setConfig], rule exI[of _ xs], rule exI[of _ leftList],
        rule exI[of _ rightList])
    using f s' s2 xs dp mc md
    by (simp add: commitSplit_def splitNode_def Let_def)
qed

lemma dtStep_outcome:
  assumes inv: "buildInv storage s" and ne: "splitStack s \<noteq> []"
    and step: "dtStep env cfg numF storage s = Inr s'"
  shows "leafOutcome cfg storage s s' \<or>
         (\<exists>feature. splitOutcome
            (\<lambda>n. getDataPoint storage n ! feature
                   < threshold (tree s' ! hd (splitStack s))) cfg s s'
            \<and> splitFeature (tree s' ! hd (splitStack s)) = int feature)"
proof -
  define node where "node = hd (splitStack s)"
  define xs where "xs = trainingExamples s ! node"
  define hist where "hist = nodeHistogram storage xs"
  define feats where "feats = shuffleWith env (rd env (rdCalls s)) (sampledFeatures s)"
  define s1 where "s1 = s\<lparr>splitStack := tl (splitStack s)\<rparr>"
  define s2 where "s2 = s1\<lparr>sampledFeatures := feats, rdCalls := rdCalls s + 1\<rparr>"
  define res where "res = fold (evalFeature storage hist) (take (nat numF) feats)
                     (xs, initialBest (dimensionality storage) (trainingExamplesSizes s ! node))"
  define sortedList where "sortedList = fst res"
  define best where "best = snd res"
  define thr where "thr = bestThreshold best * (1 / 2)"
  define gl where "gl = (\<lambda>n. getDataPoint storage n ! nat (bestFeature best) < thr)"
  define L where "L = bestLeftMass best"
  define R where "R = bestRightMass best"
  have top: "node < length (tree s)"
    using buildInv_top[OF inv ne] by (simp_all add: node_def)
  have eq: "dtStep env cfg numF storage s =
     (if getMass hist < minSplitExamples cfg \<or> isPure hist
            \<or> depth (tree s ! node) \<ge> maxDepth cfg
      then leafStep cfg s1 node hist
      else if bestFeature best < 0 \<or> L < minChildSplitExamples cfg
                  \<or> R < minChildSplitExamples cfg
      then leafStep cfg s2 node hist
      else (case partitionExamples gl sortedList (replicate (nat L) 0, L) (replicate (nat R) 0, R) of
              Inl e \<Rightarrow> Inl e
            | Inr ((leftList, bl), (rightList, br)) \<Rightarrow>
                if bl \<noteq> 0 then Inl AssertionFailed
                else if br \<noteq> 0 then Inl AssertionFailed
                else Inr (commitSplit
                           (\<lambda>nd. nd\<lparr>threshold := thr, splitFeature := bestFeature best\<rparr>)
                           s2 node L R leftList rightList)))"
  proof -
    have tk: "take (nat (trainingExamplesSizes s ! hd (splitStack s)))
        (trainingExamples s ! hd (splitStack s)) = trainingExamples s ! hd (splitStack s)"
      using buildInv_top[OF inv ne] by simp
    show ?thesis
      unfolding R_def L_def gl_def thr_def best_def sortedList_def res_def s2_def s1_def feats_def
        hist_def xs_def node_def dtStep_def Let_def case_prod_beta tk
      by (rule refl)
  qed
  have ms: "mset sortedList = mset xs"
    unfolding sortedList_def res_def using fold_evalFeature_mset by simp
  show ?thesis
  proof (cases "getMass hist < minSplitExamples cfg \<or> isPure hist
                  \<or> depth (tree s ! node) \<ge> maxDepth cfg")
    case True
    with step eq have "leafStep cfg s1 node hist = Inr s'" by simp
    from leafStep_Inr[OF this] show ?thesis
      by (auto simp: leafOutcome_def node_def[symmetric] s1_def hist_def xs_def)
  next
    case stop: False
    show ?thesis
    proof (cases "bestFeature best < 0 \<or> L < minChildSplitExamples cfg
                  \<or> R < minChildSplitExamples cfg")
      case True
      with step eq stop have "leafStep cfg s2 node hist = Inr s'" by simp
      from leafStep_Inr[OF this] show ?thesis
        by (auto simp: leafOutcome_def node_def[symmetric] s2_def s1_def hist_def xs_def)
    next
      case good: False
      from step eq stop good obtain leftList rightList where
        part: "partitionExamples gl sortedList (replicate (nat L) 0, L) (replicate (nat R) 0, R)
                 = Inr ((leftList, 0), (rightList, 0))"
        and s': "s' = commitSplit (\<lambda>nd. nd\<lparr>threshold := thr, splitFeature := bestFeature best\<rparr>)
                        s2 node L R leftList rightList"
        by (auto split: sum.splits if_splits)
      have nd: "hd (splitStack s) = node" by (simp add: node_def)
      have so: "splitOutcome gl cfg s s'"
        using commit_outcome[OF part s'[folded nd], of cfg] ms stop good
        by (simp add: s2_def s1_def xs_def node_def)
      have bf: "int (nat (bestFeature best)) = bestFeature best" using good by simp
      have "tree s' ! node
              = (tree s ! node)\<lparr>threshold := thr, splitFeature := bestFeature best,
                                leftChild := length (tree s)\<rparr>"
        using top s' by (simp add: commitSplit_def splitNode_def Let_def s2_def s1_def nth_append)
      then have "threshold (tree s' ! node) = thr" "splitFeature (tree s' ! node) = bestFeature best"
        by simp_all
      with so bf show ?thesis
        unfolding node_def[symmetric] gl_def by (intro disjI2 exI[of _ "nat (bestFeature best)"]) simp
    qed
  qed
qed

lemma big_objective: "\<not> (10::real) ^ 35 \<le> 10 ^ 20"
  by simp

lemma labels_in_hist:
  assumes wf: "wfStorage storage" and inv: "buildInv storage s" and ne: "splitStack s \<noteq> []"
  shows "\<forall>n \<in> set (trainingExamples s ! hd (splitStack s)).
           getClassLabel storage n
             < length (nodeHistogram storage (trainingExamples s ! hd (splitStack s)))"
    and "getMass (nodeHistogram storage (trainingExamples s ! hd (splitStack s)))
           = int (length (trainingExamples s ! hd (splitStack s)))"
    and "trainingExamplesSizes s ! hd (splitStack s)
           = int (length (trainingExamples s ! hd (splitStack s)))"
proof -
  have top: "hd (splitStack s) < length (tree s)" using buildInv_top[OF inv ne] by simp
  with inv have r: "\<forall>n \<in> set (trainingExamples s ! hd (splitStack s)). n < length (dataPoints storage)"
    and sz: "trainingExamplesSizes s ! hd (splitStack s)
           = int (length (trainingExamples s ! hd (splitStack s)))"
    by (simp_all add: buildInv_def)
  from r wf show "\<forall>n \<in> set (trainingExamples s ! hd (splitStack s)).
           getClassLabel storage n
             < length (nodeHistogram storage (trainingExamples s ! hd (splitStack s)))"
    by (simp add: wfStorage_label)
  from r wf show "getMass (nodeHistogram storage (trainingExamples s ! hd (splitStack s)))
           = int (length (trainingExamples s ! hd (splitStack s)))"
    by (simp add: getMass_nodeHistogram)
  from sz show "trainingExamplesSizes s ! hd (splitStack s)
           = int (length (trainingExamples s ! hd (splitStack s)))" .
qed

lemma partition_counters_zero:
  assumes "partitionExamples gl xs (ll0, L) (rl0, R) = Inr ((leftList, bl), (rightList, br))"
    and "L = int (length (filter gl xs))" and "R = int (length xs) - int (length (filter gl xs))"
  shows "bl = 0 \<and> br = 0"
proof -
  have "length xs = length (filter gl xs) + length (filter (\<lambda>n. \<not> gl n) xs)"
    using sum_length_filter_compl[of gl xs] by simp
  with partitionExamples_counters[OF assms(1)] assms(2,3) show ?thesis by simp
qed

lemma projCandidate_best:
  assumes lab: "\<forall>n \<in> set xs. getClassLabel storage n < length hist"
    and mass: "getMass hist = int (length xs)"
  shows "bestObjective (snd (fold (projCandidate env storage seed xs hist) fs
            (k0, initialBest D N))) = 10 ^ 35
         \<or> (let best = snd (fold (projCandidate env storage seed xs hist) fs
                              (k0, initialBest D N));
                gl = (\<lambda>n. dot (bestProjection best) (getDataPoint storage n) < 0)
            in bestLeftMass best = int (length (filter gl xs))
               \<and> bestRightMass best = int (length xs) - int (length (filter gl xs)))"
proof -
  define P where "P = (\<lambda>kb :: nat \<times> Best. bestObjective (snd kb) = 10 ^ 35
         \<or> (let best = snd kb;
                gl = (\<lambda>n. dot (bestProjection best) (getDataPoint storage n) < 0)
            in bestLeftMass best = int (length (filter gl xs))
               \<and> bestRightMass best = int (length xs) - int (length (filter gl xs))))"
  have step: "P (projCandidate env storage seed xs hist f kb)" if "P kb" for f kb
  proof -
    obtain k best where kb: "kb = (k, best)" by (cases kb)
    define pr where "pr = sampleProjection env seed k (dimensionality storage)"
    obtain lh rh where c: "candidateHistograms
        (\<lambda>n. dot pr (getDataPoint storage n) < 0) storage xs hist = (lh, rh)"
      by (cases "candidateHistograms (\<lambda>n. dot pr (getDataPoint storage n) < 0) storage xs hist")
    note m = candidateHistograms_mass[OF lab c]
    show ?thesis
      using that m mass c
      by (simp add: kb projCandidate_def Let_def pr_def[symmetric] P_def)
  qed
  have "P (fold (projCandidate env storage seed xs hist) fs (k0, initialBest D N))"
  proof (rule fold_invariant[where Q = "\<lambda>_. True" and P = P])
    show "P (k0, initialBest D N)" by (simp add: P_def initialBest_def)
    show "P (projCandidate env storage seed xs hist f kb)" if "P kb" for f kb
      using that by (rule step)
  qed simp
  then show ?thesis by (simp add: P_def)
qed

lemma projStep_outcome:
  assumes wf: "wfStorage storage" and inv: "buildInv storage s" and ne: "splitStack s \<noteq> []"
    and step: "projStep env cfg storage s = Inr s'"
  shows "leafOutcome cfg storage s s' \<or>
         splitOutcome (\<lambda>n. dot (projection (tree s' ! hd (splitStack s)))
                              (getDataPoint storage n) < 0) cfg s s'"
proof -
  define node where "node = hd (splitStack s)"
  define xs where "xs = trainingExamples s ! node"
  define hist where "hist = nodeHistogram storage xs"
  define s1 where "s1 = s\<lparr>splitStack := tl (splitStack s)\<rparr>"
  define res where "res = fold (projCandidate env storage (gSeed s) xs hist)
                     [0..<nat (numFeatures cfg)]
                     (gCalls s, initialBest (dimensionality storage) (trainingExamplesSizes s ! node))"
  define best where "best = snd res"
  define s2 where "s2 = s1\<lparr>gCalls := fst res\<rparr>"
  define gl where "gl = (\<lambda>n. dot (bestProjection best) (getDataPoint storage n) < 0)"
  define L where "L = bestLeftMass best"
  define R where "R = bestRightMass best"
  have top: "node < length (tree s)"
    using buildInv_top[OF inv ne] by (simp_all add: node_def)
  have eq: "projStep env cfg storage s =
     (if getMass hist < minSplitExamples cfg \<or> isPure hist
            \<or> depth (tree s ! node) \<ge> maxDepth cfg
      then leafStep cfg s1 node hist
      else if bestObjective best > 10 ^ 20 \<or> L < minChildSplitExamples cfg
                  \<or> R < minChildSplitExamples cfg
      then leafStep cfg s2 node hist
      else (case partitionExamples gl xs (replicate (nat L) 0, L) (replicate (nat R) 0, R) of
              Inl e \<Rightarrow> Inl e
            | Inr ((leftList, bl), (rightList, br)) \<Rightarrow>
                Inr (commitSplit (\<lambda>nd. nd\<lparr>projection := bestProjection best\<rparr>)
                           s2 node L R leftList rightList)))"
  proof -
    have tk: "take (nat (trainingExamplesSizes s ! hd (splitStack s)))
        (trainingExamples s ! hd (splitStack s)) = trainingExamples s ! hd (splitStack s)"
      using buildInv_top[OF inv ne] by simp
    show ?thesis
      unfolding R_def L_def gl_def best_def res_def s2_def s1_def
        hist_def xs_def node_def projStep_def Let_def case_prod_beta tk
      by (rule refl)
  qed
  note lh = labels_in_hist[OF wf inv ne, folded node_def, folded xs_def, folded hist_def]
  show ?thesis
  proof (cases "getMass hist < minSplitExamples cfg \<or> isPure hist
                  \<or> depth (tree s ! node) \<ge> maxDepth cfg")
    case True
    with step eq have "leafStep cfg s1 node hist = Inr s'" by simp
    from leafStep_Inr[OF this] show ?thesis
      by (auto simp: leafOutcome_def node_def[symmetric] s1_def hist_def xs_def)
  next
    case stop: False
    show ?thesis
    proof (cases "bestObjective best > 10 ^ 20 \<or> L < minChildSplitExamples cfg
                  \<or> R < minChildSplitExamples cfg")
      case True
      with step eq stop have "leafStep cfg s2 node hist = Inr s'" by simp
      from leafStep_Inr[OF this] show ?thesis
        by (auto simp: leafOutcome_def node_def[symmetric] s2_def s1_def hist_def xs_def)
    next
      case good: False
      from step eq stop good obtain leftList bl rightList br where
        part0: "partitionExamples gl xs (replicate (nat L) 0, L) (replicate (nat R) 0, R)
                 = Inr ((leftList, bl), (rightList, br))"
        and s': "s' = commitSplit (\<lambda>nd. nd\<lparr>projection := bestProjection best\<rparr>)
                        s2 node L R leftList rightList"
        by (auto split: sum.splits if_splits)
      from good have "bestObjective best \<noteq> 10 ^ 35" by auto
      with projCandidate_best[OF lh(1) lh(2), of env "gSeed s" "[0..<nat (numFeatures cfg)]"
          "gCalls s" "dimensionality storage" "trainingExamplesSizes s ! node"]
      have LR: "L = int (length (filter gl xs))"
        "R = int (length xs) - int (length (filter gl xs))"
        by (simp_all add: Let_def res_def[symmetric] best_def[symmetric] gl_def L_def R_def)
      from partition_counters_zero[OF part0 LR] part0
      have part: "partitionExamples gl xs (replicate (nat L) 0, L) (replicate (nat R) 0, R)
                 = Inr ((leftList, 0), (rightList, 0))" by simp
      have nd: "hd (splitStack s) = node" by (simp add: node_def)
      have so: "splitOutcome gl cfg s s'"
        using commit_outcome[OF part s'[folded nd], of cfg] stop good
        by (simp add: s2_def s1_def xs_def node_def)
      have "tree s' ! node
              = (tree s ! node)\<lparr>projection := bestProjection best,
                                leftChild := length (tree s)\<rparr>"
        using top s' by (simp add: commitSplit_def splitNode_def Let_def s2_def s1_def nth_append)
      then have "projection (tree s' ! node) = bestProjection best"
        by simp
      with so show ?thesis
        unfolding node_def[symmetric] gl_def by simp
    qed
  qed
qed

lemma dotCandidate_best:
  assumes lab: "\<forall>n \<in> set xs. getClassLabel storage n < length hist"
    and mass: "getMass hist = int (length xs)"
  shows "bestObjective (snd (fold (dotCandidate env storage seed xs hist) fs
            (k0, initialBest D N))) = 10 ^ 35
         \<or> (let best = snd (fold (dotCandidate env storage seed xs hist) fs
                              (k0, initialBest D N));
                gl = (\<lambda>n. dot (getDataPoint storage n) (bestProjection2 best)
                            - dot (getDataPoint storage n) (bestProjection1 best)
                          < bestThreshold best)
            in bestLeftMass best = int (length (filter gl xs))
               \<and> bestRightMass best = int (length xs) - int (length (filter gl xs)))"
proof -
  define P where "P = (\<lambda>kb :: nat \<times> Best. bestObjective (snd kb) = 10 ^ 35
         \<or> (let best = snd kb;
                gl = (\<lambda>n. dot (getDataPoint storage n) (bestProjection2 best)
                            - dot (getDataPoint storage n) (bestProjection1 best)
                          < bestThreshold best)
            in bestLeftMass best = int (length (filter gl xs))
               \<and> bestRightMass best = int (length xs) - int (length (filter gl xs))))"
  have step: "P (dotCandidate env storage seed xs hist f kb)" if "P kb" for f kb
  proof -
    obtain k best where kb: "kb = (k, best)" by (cases kb)
    define cls where "cls = filter (\<lambda>c. hist ! c \<noteq> 0) [0..<length hist]"
    define two where "two = sampleTwo env seed k (length cls)"
    define x1 where "x1 = getDataPoint storage (getRandomEntry env seed (k + 2)
                    (filter (\<lambda>n. getClassLabel storage n = cls ! fst two) xs))"
    define x2 where "x2 = getDataPoint storage (getRandomEntry env seed (k + 3)
                    (filter (\<lambda>n. getClassLabel storage n = cls ! snd two) xs))"
    define thr where "thr = (1 / 2) * (squaredNorm x2 - squaredNorm x1)"
    define gl where "gl = (\<lambda>n. dot (getDataPoint storage n) x2 - dot (getDataPoint storage n) x1 < thr)"
    obtain lh rh where c: "candidateHistograms gl storage xs hist = (lh, rh)"
      by (cases "candidateHistograms gl storage xs hist")
    note m = candidateHistograms_mass[OF lab c]
    have "dotCandidate env storage seed xs hist f kb =
       (k + 4, if getEntropy lh + getEntropy rh < bestObjective best
          then best\<lparr>bestThreshold := thr, bestProjection1 := x1, bestProjection2 := x2,
                    bestObjective := getEntropy lh + getEntropy rh,
                    bestLeftMass := getMass lh, bestRightMass := getMass rh\<rparr>
          else best)"
      unfolding kb dotCandidate_def Let_def
      using c unfolding gl_def thr_def x1_def x2_def two_def cls_def
      by simp
    then show ?thesis
      using that m mass by (simp add: kb P_def gl_def)
  qed
  have "P (fold (dotCandidate env storage seed xs hist) fs (k0, initialBest D N))"
  proof (rule fold_invariant[where Q = "\<lambda>_. True" and P = P])
    show "P (k0, initialBest D N)" by (simp add: P_def initialBest_def)
    show "P (dotCandidate env storage seed xs hist f kb)" if "P kb" for f kb
      using that by (rule step)
  qed simp
  then show ?thesis by (simp add: P_def)
qed

lemma dotStep_outcome:
  assumes wf: "wfStorage storage" and inv: "buildInv storage s" and ne: "splitStack s \<noteq> []"
    and step: "dotStep env cfg storage s = Inr s'"
  shows "leafOutcome cfg storage s s' \<or>
         splitOutcome (\<lambda>n. dot (getDataPoint storage n) (projection2 (tree s' ! hd (splitStack s)))
                            - dot (getDataPoint storage n) (projection1 (tree s' ! hd (splitStack s)))
                          < threshold (tree s' ! hd (splitStack s))) cfg s s'"
proof -
  define node where "node = hd (splitStack s)"
  define xs where "xs = trainingExamples s ! node"
  define hist where "hist = nodeHistogram storage xs"
  define s1 where "s1 = s\<lparr>splitStack := tl (splitStack s)\<rparr>"
  define res where "res = fold (dotCandidate env storage (gSeed s) xs hist)
                     [0..<nat (numFeatures cfg)]
                     (gCalls s, initialBest (dimensionality storage) (trainingExamplesSizes s ! node))"
  define best where "best = snd res"
  define s2 where "s2 = s1\<lparr>gCalls := fst res\<rparr>"
  define gl where "gl = (\<lambda>n. dot (getDataPoint storage n) (bestProjection2 best)
                                - dot (getDataPoint storage n) (bestProjection1 best)
                              < bestThreshold best)"
  define L where "L = bestLeftMass best"
  define R where "R = bestRightMass best"
  define setc where "setc = (\<lambda>nd :: Node. nd\<lparr>threshold := bestThreshold best,
                                       projection1 := bestProjection1 best,
                                       projection2 := bestProjection2 best\<rparr>)"
  have top: "node < length (tree s)"
    using buildInv_top[OF inv ne] by (simp_all add: node_def)
  have eq: "dotStep env cfg storage s =
     (if getMass hist < minSplitExamples cfg \<or> isPure hist
            \<or> depth (tree s ! node) \<ge> maxDepth cfg
      then leafStep cfg s1 node hist
      else if bestObjective best > 10 ^ 20 \<or> L < minChildSplitExamples cfg
                  \<or> R < minChildSplitExamples cfg
      then leafStep cfg s2 node hist
      else (case partitionExamples gl xs (replicate (nat L) 0, L) (replicate (nat R) 0, R) of
              Inl e \<Rightarrow> Inl e
            | Inr ((leftList, bl), (rightList, br)) \<Rightarrow>
                Inr (commitSplit setc s2 node L R leftList rightList)))"
  proof -
    have tk: "take (nat (trainingExamplesSizes s ! hd (splitStack s)))
        (trainingExamples s ! hd (splitStack s)) = trainingExamples s ! hd (splitStack s)"
      using buildInv_top[OF inv ne] by simp
    show ?thesis
      unfolding setc_def R_def L_def gl_def best_def res_def s2_def s1_def
        hist_def xs_def node_def dotStep_def Let_def case_prod_beta tk
      by (rule refl)
  qed
  note lh = labels_in_hist[OF wf inv ne, folded node_def, folded xs_def, folded hist_def]
  show ?thesis
  proof (cases "getMass hist < minSplitExamples cfg \<or> isPure hist
                  \<or> depth (tree s ! node) \<ge> maxDepth cfg")
    case True
    with step eq have "leafStep cfg s1 node hist = Inr s'" by simp
    from leafStep_Inr[OF this] show ?thesis
      by (auto simp: leafOutcome_def node_def[symmetric] s1_def hist_def xs_def)
  next
    case stop: False
    show ?thesis
    proof (cases "bestObjective best > 10 ^ 20 \<or> L < minChildSplitExamples cfg
                  \<or> R < minChildSplitExamples cfg")
      case True
      with step eq stop have "leafStep cfg s2 node hist = Inr s'" by simp
      from leafStep_Inr[OF this] show ?thesis
        by (auto simp: leafOutcome_def node_def[symmetric] s2_def s1_def hist_def xs_def)
    next
      case good: False
      from step eq stop good obtain leftList bl rightList br where
        part0: "partitionExamples gl xs (replicate (nat L) 0, L) (replicate (nat R) 0, R)
                 = Inr ((leftList, bl), (rightList, br))"
        and s': "s' = commitSplit setc s2 node L R leftList rightList"
        by (auto split: sum.splits if_splits)
      from good have "bestObjective best \<noteq> 10 ^ 35" by auto
      with dotCandidate_best[OF lh(1) lh(2), of env "gSeed s" "[0..<nat (numFeatures cfg)]"
          "gCalls s" "dimensionality storage" "trainingExamplesSizes s ! node"]
      have LR: "L = int (length (filter gl xs))"
        "R = int (length xs) - int (length (filter gl xs))"
        by (simp_all add: Let_def res_def[symmetric] best_def[symmetric] gl_def L_def R_def)
      from partition_counters_zero[OF part0 LR] part0
      have part: "partitionExamples gl xs (replicate (nat L) 0, L) (replicate (nat R) 0, R)
                 = Inr ((leftList, 0), (rightList, 0))" by simp
      have nd: "hd (splitStack s) = node" by (simp add: node_def)
      have so: "splitOutcome gl cfg s s'"
        using commit_outcome[OF part s'[folded nd], of cfg] stop good
        by (simp add: s2_def s1_def xs_def node_def setc_def)
      have "tree s' ! node = (setc (tree s ! node))\<lparr>leftChild := length (tree s)\<rparr>"
        using top s' by (simp add: commitSplit_def splitNode_def Let_def s2_def s1_def nth_append)
      then have "projection1 (tree s' ! node) = bestProjection1 best"
        "projection2 (tree s' ! node) = bestProjection2 best"
        "threshold (tree s' ! node) = bestThreshold best"
        by (simp_all add: setc_def)
      with so show ?thesis
        unfolding node_def[symmetric] gl_def by simp
    qed
  qed
qed

lemma leafOutcome_buildInv:
  "buildInv storage s \<Longrightarrow> splitStack s \<noteq> [] \<Longrightarrow> leafOutcome cfg storage s s' \<Longrightarrow> buildInv storage s'"
  unfolding buildInv_def leafOutcome_def Let_def
  by (cases "splitStack s") auto

lemma nth_update_histogram:
  "i < length t \<Longrightarrow>
   depth (t[k := (t ! k)\<lparr>histogram := h\<rparr>] ! i) = depth (t ! i)
   \<and> leftChild (t[k := (t ! k)\<lparr>histogram := h\<rparr>] ! i) = leftChild (t ! i)"
  by (cases "i = k") simp_all

lemma leafOutcome_partitionInv:
  "partitionInv cfg s \<Longrightarrow> leafOutcome cfg storage s s' \<Longrightarrow> partitionInv cfg s'"
  unfolding partitionInv_def leafOutcome_def Let_def
  by (auto simp: nth_update_histogram)

lemma leafOutcome_depthBounded:
  "depthBounded cfg (tree s) \<Longrightarrow> leafOutcome cfg storage s s' \<Longrightarrow> depthBounded cfg (tree s')"
  unfolding depthBounded_def leafOutcome_def Let_def
  by (auto simp: nth_update_histogram)

lemma splitOutcome_buildInv:
  assumes inv: "buildInv storage s" and ne: "splitStack s \<noteq> []"
    and so: "splitOutcome gl cfg s s'"
  shows "buildInv storage s'"
proof -
  define node where "node = hd (splitStack s)"
  from so obtain setConfig reordered where
    ms: "mset reordered = mset (trainingExamples s ! node)"
    and t: "tree s' = fst (splitNode ((tree s)[node := setConfig (tree s ! node)]) node)"
    and st: "splitStack s' = (length (tree s) + 1) # length (tree s) # tl (splitStack s)"
    and ex: "trainingExamples s' = trainingExamples s
               @ [rev (filter gl reordered), rev (filter (\<lambda>n. \<not> gl n) reordered)]"
    and sz: "trainingExamplesSizes s' = trainingExamplesSizes s
               @ [int (length (rev (filter gl reordered))),
                  int (length (rev (filter (\<lambda>n. \<not> gl n) reordered)))]"
    unfolding splitOutcome_def Let_def node_def by blast
  have top: "node < length (tree s)" using buildInv_top[OF inv ne] by (simp add: node_def)
  have len: "length (tree s') = length (tree s) + 2"
    using t by (simp add: splitNode_def Let_def)
  from inv top have rng: "\<forall>n \<in> set reordered. n < length (dataPoints storage)"
    using mset_eq_setD[OF ms] by (simp add: buildInv_def)
  from inv have l1: "length (trainingExamples s) = length (tree s)"
    and l2: "length (trainingExamplesSizes s) = length (tree s)"
    and old: "\<forall>i < length (tree s).
           trainingExamplesSizes s ! i = int (length (trainingExamples s ! i))
           \<and> (\<forall>n \<in> set (trainingExamples s ! i). n < length (dataPoints storage))"
    and stk: "\<forall>node \<in> set (splitStack s). node < length (tree s)"
    by (simp_all add: buildInv_def)
  have each: "trainingExamplesSizes s' ! i = int (length (trainingExamples s' ! i))
           \<and> (\<forall>n \<in> set (trainingExamples s' ! i). n < length (dataPoints storage))"
    if i: "i < length (tree s')" for i
  proof -
    consider "i < length (tree s)" | "i = length (tree s)" | "i = length (tree s) + 1"
      using i len by atomize_elim auto
    then show ?thesis
    proof cases
      case 1
      with old l1 l2 show ?thesis by (simp add: ex sz nth_append)
    next
      case 2
      with rng l1 l2 show ?thesis by (simp add: ex sz nth_append)
    next
      case 3
      with rng l1 l2 show ?thesis by (simp add: ex sz nth_append)
    qed
  qed
  have "\<forall>n \<in> set (splitStack s'). n < length (tree s')"
    using stk ne len st by (cases "splitStack s") auto
  with each l1 l2 len show ?thesis
    unfolding buildInv_def by (simp add: ex sz)
qed

lemma splitOutcome_depthBounded:
  assumes inv: "buildInv storage s" and ne: "splitStack s \<noteq> []"
    and db: "depthBounded cfg (tree s)"
    and so: "splitOutcome gl cfg s s'"
  shows "depthBounded cfg (tree s')"
proof -
  define node where "node = hd (splitStack s)"
  from so obtain setConfig where
    dp: "\<forall>nd. depth (setConfig nd) = depth nd"
    and t: "tree s' = fst (splitNode ((tree s)[node := setConfig (tree s ! node)]) node)"
    and md: "depth (tree s ! node) < maxDepth cfg"
    unfolding splitOutcome_def Let_def node_def by blast
  have top: "node < length (tree s)" using buildInv_top[OF inv ne] by (simp add: node_def)
  define d where "d = depth (tree s ! node)"
  have t': "tree s' = (tree s)[node := (setConfig (tree s ! node))\<lparr>leftChild := length (tree s)\<rparr>]
                 @ [freshNode (d + 1), freshNode (d + 1)]"
    using t top dp by (simp add: splitNode_def Let_def d_def)
  show ?thesis
    unfolding depthBounded_def
  proof (intro allI impI)
    fix i assume i: "i < length (tree s')"
    have "i < length (tree s) \<and> i \<noteq> node \<or> i = node
      \<or> i = length (tree s) \<or> i = length (tree s) + 1"
      using i t' by (auto simp: less_Suc_eq)
    then consider "i < length (tree s)" "i \<noteq> node" | "i = node"
      | "i = length (tree s)" | "i = length (tree s) + 1"
      by blast
    then show "(i = 0 \<or> depth (tree s' ! i) \<le> maxDepth cfg)
               \<and> (leftChild (tree s' ! i) \<noteq> 0 \<longrightarrow> depth (tree s' ! i) < maxDepth cfg)"
    proof cases
      case 1
      with db show ?thesis by (simp add: t' nth_append depthBounded_def)
    next
      case 2
      with db top dp md show ?thesis by (simp add: t' nth_append depthBounded_def)
    next
      case 3
      with md show ?thesis by (simp add: t' nth_append freshNode_def d_def)
    next
      case 4
      with md show ?thesis by (simp add: t' nth_append freshNode_def d_def)
    qed
  qed
qed

lemma splitOutcome_partitionInv:
  assumes inv: "buildInv storage s" and ne: "splitStack s \<noteq> []"
    and pi: "partitionInv cfg s"
    and so: "splitOutcome gl cfg s s'"
  shows "partitionInv cfg s'"
proof -
  define node where "node = hd (splitStack s)"
  from so obtain setConfig reordered where
    dp: "\<forall>nd. depth (setConfig nd) = depth nd"
    and ms: "mset reordered = mset (trainingExamples s ! node)"
    and t: "tree s' = fst (splitNode ((tree s)[node := setConfig (tree s ! node)]) node)"
    and ex: "trainingExamples s' = trainingExamples s
               @ [rev (filter gl reordered), rev (filter (\<lambda>n. \<not> gl n) reordered)]"
    and sz: "trainingExamplesSizes s' = trainingExamplesSizes s
               @ [int (length (rev (filter gl reordered))),
                  int (length (rev (filter (\<lambda>n. \<not> gl n) reordered)))]"
    and mc: "minChildSplitExamples cfg \<le> int (length (rev (filter gl reordered)))"
      "minChildSplitExamples cfg \<le> int (length (rev (filter (\<lambda>n. \<not> gl n) reordered)))"
    unfolding splitOutcome_def Let_def node_def by blast
  have top: "node < length (tree s)" using buildInv_top[OF inv ne] by (simp add: node_def)
  from inv have l1: "length (trainingExamples s) = length (tree s)"
    and l2: "length (trainingExamplesSizes s) = length (tree s)"
    by (simp_all add: buildInv_def)
  from inv top have szn: "trainingExamplesSizes s ! node = int (length (trainingExamples s ! node))"
    by (simp add: buildInv_def)
  define d where "d = depth (tree s ! node)"
  have t': "tree s' = (tree s)[node := (setConfig (tree s ! node))\<lparr>leftChild := length (tree s)\<rparr>]
                 @ [freshNode (d + 1), freshNode (d + 1)]"
    using t top dp by (simp add: splitNode_def Let_def d_def)
  have lenr: "length reordered = length (trainingExamples s ! node)"
    using ms by (metis size_mset)
  have parts: "mset (rev (filter gl reordered)) + mset (rev (filter (\<lambda>n. \<not> gl n) reordered))
                 = mset (trainingExamples s ! node)"
    using ms by (simp add: union_commute)
  have cnt: "int (length (filter gl reordered)) + int (length (filter (\<lambda>n. \<not> gl n) reordered))
               = int (length (trainingExamples s ! node))"
    using sum_length_filter_compl[of gl reordered] lenr by simp
  show ?thesis
    unfolding partitionInv_def
  proof (intro allI impI)
    fix p assume p: "p < length (tree s')" and lc: "leftChild (tree s' ! p) \<noteq> 0"
    have "p < length (tree s) \<and> p \<noteq> node \<or> p = node
      \<or> p = length (tree s) \<or> p = length (tree s) + 1"
      using p t' by (auto simp: less_Suc_eq)
    then consider "p < length (tree s)" "p \<noteq> node" | "p = node"
      | "p = length (tree s)" | "p = length (tree s) + 1"
      by blast
    then show "let l = leftChild (tree s' ! p); r = l + 1
         in r < length (tree s')
            \<and> trainingExamplesSizes s' ! l + trainingExamplesSizes s' ! r
                = trainingExamplesSizes s' ! p
            \<and> minChildSplitExamples cfg \<le> trainingExamplesSizes s' ! l
            \<and> minChildSplitExamples cfg \<le> trainingExamplesSizes s' ! r
            \<and> mset (trainingExamples s' ! l) + mset (trainingExamples s' ! r)
                = mset (trainingExamples s' ! p)"
    proof cases
      case 1
      with lc have lc0: "leftChild (tree s ! p) \<noteq> 0" and same: "tree s' ! p = tree s ! p"
        by (simp_all add: t' nth_append)
      with pi 1 have "let l = leftChild (tree s ! p); r = l + 1
         in r < length (tree s)
            \<and> trainingExamplesSizes s ! l + trainingExamplesSizes s ! r
                = trainingExamplesSizes s ! p
            \<and> minChildSplitExamples cfg \<le> trainingExamplesSizes s ! l
            \<and> minChildSplitExamples cfg \<le> trainingExamplesSizes s ! r
            \<and> mset (trainingExamples s ! l) + mset (trainingExamples s ! r)
                = mset (trainingExamples s ! p)"
        by (simp add: partitionInv_def)
      with 1 l1 l2 same show ?thesis
        by (simp add: Let_def ex sz nth_append t')
    next
      case 2
      with top have "leftChild (tree s' ! p) = length (tree s)" by (simp add: t' nth_append)
      with 2 top l1 l2 szn mc parts cnt show ?thesis
        by (simp add: Let_def ex sz nth_append t')
    next
      case 3
      with lc show ?thesis by (simp add: t' nth_append freshNode_def)
    next
      case 4
      with lc show ?thesis by (simp add: t' nth_append freshNode_def)
    qed
  qed
qed

lemma initialState_buildInv: "buildInv storage (initialState storage rd0 seed)"
  by (simp add: buildInv_def initialState_def addNode_def getSize_def)

lemma initialState_partitionInv: "partitionInv cfg (initialState storage rd0 seed)"
  by (simp add: partitionInv_def initialState_def addNode_def freshNode_def)

lemma initialState_depthBounded: "depthBounded cfg (tree (initialState storage rd0 seed))"
  by (simp add: depthBounded_def initialState_def addNode_def freshNode_def)

text \<open>What one successful iteration of any of the three batch learners does to the
  invariants.\<close>

lemma batch_step_outcome:
  assumes wf: "wfStorage storage"
    and st: "step = dtStep env cfg numF storage \<or> step = projStep env cfg storage
             \<or> step = dotStep env cfg storage"
    and inv: "buildInv storage s" and ne: "splitStack s \<noteq> []" and ok: "step s = Inr s'"
  shows "leafOutcome cfg storage s s' \<or> (\<exists>goesLeft. splitOutcome goesLeft cfg s s')"
  using st
proof (elim disjE)
  assume "step = dtStep env cfg numF storage"
  with dtStep_outcome[OF inv ne, of env cfg numF s'] ok show ?thesis by auto
next
  assume "step = projStep env cfg storage"
  with projStep_outcome[OF wf inv ne, of env cfg s'] ok show ?thesis by auto
next
  assume "step = dotStep env cfg storage"
  with dotStep_outcome[OF wf inv ne, of env cfg s'] ok show ?thesis by auto
qed

lemma batch_step_invariants:
  assumes wf: "wfStorage storage"
    and st: "step = dtStep env cfg numF storage \<or> step = projStep env cfg storage
             \<or> step = dotStep env cfg storage"
    and inv: "buildInv storage s \<and> partitionInv cfg s \<and> depthBounded cfg (tree s)"
    and ne: "splitStack s \<noteq> []" and ok: "step s = Inr s'"
  shows "buildInv storage s' \<and> partitionInv cfg s' \<and> depthBounded cfg (tree s')"
proof -
  from inv have b: "buildInv storage s" and p: "partitionInv cfg s"
    and d: "depthBounded cfg (tree s)" by simp_all
  from batch_step_outcome[OF wf st b ne ok] show ?thesis
  proof
    assume l: "leafOutcome cfg storage s s'"
    from leafOutcome_buildInv[OF b ne l] leafOutcome_partitionInv[OF p l]
      leafOutcome_depthBounded[OF d l] show ?thesis by simp
  next
    assume "\<exists>goesLeft. splitOutcome goesLeft cfg s s'"
    then obtain gl where so: "splitOutcome gl cfg s s'" ..
    from splitOutcome_buildInv[OF b ne so] splitOutcome_partitionInv[OF b ne p so]
      splitOutcome_depthBounded[OF b ne d so] show ?thesis by simp
  qed
qed

lemma stateAfter_invariant:
  assumes pres: "\<And>s s'. P s \<Longrightarrow> splitStack s \<noteq> [] \<Longrightarrow> step s = Inr s' \<Longrightarrow> P s'"
  shows "P s \<Longrightarrow> stateAfter step k s = Inr s' \<Longrightarrow> P s'"
proof (induction k arbitrary: s)
  case 0
  then show ?case by simp
next
  case (Suc k)
  show ?case
  proof (cases "splitStack s = []")
    case True
    with Suc.prems show ?thesis by simp
  next
    case False
    with Suc.prems(2) obtain s1 where s1: "step s = Inr s1" and r: "stateAfter step k s1 = Inr s'"
      by (auto split: sum.splits)
    from Suc.IH[OF pres[OF Suc.prems(1) False s1] r] show ?thesis .
  qed
qed

lemma learnLoop_stateAfter:
  "learnLoop step fuel s = Some (Inr s') \<Longrightarrow> stateAfter step fuel s = Inr s' \<and> splitStack s' = []"
proof (induction fuel arbitrary: s)
  case 0
  then show ?case by (simp split: if_splits)
next
  case (Suc k)
  then show ?case by (auto split: if_splits sum.splits)
qed

lemma batch_invariants:
  assumes wf: "wfStorage storage"
    and st: "step = dtStep env cfg numF storage \<or> step = projStep env cfg storage
             \<or> step = dotStep env cfg storage"
    and run: "stateAfter step k (initialState storage rd0 seed) = Inr s"
  shows "buildInv storage s \<and> partitionInv cfg s \<and> depthBounded cfg (tree s)"
proof (rule stateAfter_invariant[where P = "\<lambda>s. buildInv storage s \<and> partitionInv cfg s
      \<and> depthBounded cfg (tree s)", OF _ _ run])
  show "buildInv storage (initialState storage rd0 seed)
        \<and> partitionInv cfg (initialState storage rd0 seed)
        \<and> depthBounded cfg (tree (initialState storage rd0 seed))"
    by (simp add: initialState_buildInv initialState_partitionInv initialState_depthBounded)
  show "buildInv storage s' \<and> partitionInv cfg s' \<and> depthBounded cfg (tree s')"
    if "buildInv storage s \<and> partitionInv cfg s \<and> depthBounded cfg (tree s)"
      and "splitStack s \<noteq> []" and "step s = Inr s'" for s s'
    using batch_step_invariants[OF wf st that] .
qed

lemma getEntropy_pure2: "getEntropy [1, 0] = 0" "getEntropy [0, 1] = 0"
  by (simp_all add: getEntropy_def getMass_def)

lemma upt_small: "[0..<2] = [0, 1]" "[0..<1] = [0]"
  by (simp_all add: upt_rec)

lemma wfStorage_twoExamples: "wfStorage twoExamples"
  by (simp add: wfStorage_def twoExamples_def)

lemma dtStep_first:
  "dtStep exampleEnv exampleConfig 1 twoExamples (initialState twoExamples 0 0) = Inr afterFirstSplit"
  by (simp add: dtStep_def initialState_def twoExamples_def exampleConfig_def exampleEnv_def
      afterFirstSplit_def splitRoot_def addNode_def getSize_def nodeHistogram_def histogramOfSize_def
      addOne_def subOne_def reset_def getMass_def isPure_def freshNode_def evalFeature_def
      getDataPoint_def getClassLabel_def tooClose_def initialBest_def Let_def
      commitSplit_def splitNode_def getEntropy_def upt_small numeral_2_eq_2)



lemma fold_update_map:
  "n \<le> length xs \<Longrightarrow> fold (\<lambda>c lh. lh[c := f c]) [0..<n] xs = map f [0..<n] @ drop n xs"
proof (induction n)
  case 0
  then show ?case by simp
next
  case (Suc n)
  then have "fold (\<lambda>c lh. lh[c := f c]) [0..<Suc n] xs = (map f [0..<n] @ drop n xs)[n := f n]"
    by simp
  also have "\<dots> = map f [0..<n] @ (drop n xs)[0 := f n]"
    by (simp add: list_update_append)
  also have "(drop n xs)[0 := f n] = f n # drop (Suc n) xs"
    using Suc.prems by (simp add: Cons_nth_drop_Suc[symmetric])
  finally show ?case by simp
qed

lemma length_resize [simp]: "length (resize n v xs) = n"
  by (simp add: resize_def)

lemma updateLeafNodeHistogram_smoothed:
  "updateLeafNodeHistogram lh hist smoothing False = Inr v \<Longrightarrow>
   v = map (smoothedLogProb hist smoothing) [0..<length hist]"
  by (auto simp: updateLeafNodeHistogram_def Let_def fold_update_map split: if_splits)



lemma dtStep_second:
  "dtStep exampleEnv exampleConfig 1 twoExamples afterFirstSplit = Inr afterRightLeaf"
  by (simp add: dtStep_def twoExamples_def exampleConfig_def exampleEnv_def
      afterFirstSplit_def afterRightLeaf_def splitRoot_def nodeHistogram_def histogramOfSize_def
      addOne_def getMass_def isPure_def freshNode_def getClassLabel_def Let_def
      leafStep_def finalizeLeaf_def updateLeafNodeHistogram_def resize_def smoothedLogProb_def
      upt_small numeral_2_eq_2)

lemma dtLearn_Inr:
  assumes "dtLearn fuel env cfg dataStorage rd0 = Some (Inr (t, c))"
  shows "numFeatures cfg \<le> dimensionality dataStorage
         \<and> (\<exists>final. learnLoop (dtStep env cfg (effectiveNumFeatures cfg dataStorage)
                                  (dtStorage env cfg dataStorage)) fuel
                         (initialState (dtStorage env cfg dataStorage) rd0 0) = Some (Inr final)
                    \<and> t = (if useBootstrap cfg
                           then updateHistograms AxisAlignedTree (tree final) dataStorage
                                  (smoothingParameter cfg)
                           else tree final))"
proof -
  from assms obtain final where
    "learnLoop (dtStep env cfg (effectiveNumFeatures cfg dataStorage)
                                  (dtStorage env cfg dataStorage)) fuel
                         (initialState (dtStorage env cfg dataStorage) rd0 0) = Some (Inr final)"
    "t = (if useBootstrap cfg
                           then updateHistograms AxisAlignedTree (tree final) dataStorage
                                  (smoothingParameter cfg)
                           else tree final)"
    "numFeatures cfg \<le> dimensionality dataStorage"
    by (auto simp: dtLearn_def dtStorage_def Let_def split: if_splits option.splits sum.splits)
  then show ?thesis by blast
qed

lemma projLearn_Inr:
  assumes "projLearn fuel env cfg dataStorage rd0 = Some (Inr (t, c))"
  shows "\<exists>final. learnLoop (projStep env cfg (pdStorage env cfg dataStorage)) fuel
                         (initialState (pdStorage env cfg dataStorage) (rd0 + 1) (rd env rd0))
                    = Some (Inr final)
                    \<and> t = (if useBootstrap cfg
                           then updateHistograms ProjectiveTree (tree final) dataStorage
                                  (smoothingParameter cfg)
                           else tree final)"
proof -
  from assms obtain final where
    "learnLoop (projStep env cfg (pdStorage env cfg dataStorage)) fuel
                         (initialState (pdStorage env cfg dataStorage) (rd0 + 1) (rd env rd0))
                    = Some (Inr final)"
    "t = (if useBootstrap cfg
                           then updateHistograms ProjectiveTree (tree final) dataStorage
                                  (smoothingParameter cfg)
                           else tree final)"
    by (auto simp: projLearn_def pdStorage_def Let_def split: if_splits option.splits sum.splits)
  then show ?thesis by blast
qed

lemma dotLearn_Inr:
  assumes "dotLearn fuel env cfg dataStorage rd0 = Some (Inr (t, c))"
  shows "\<exists>final. learnLoop (dotStep env cfg (pdStorage env cfg dataStorage)) fuel
                         (initialState (pdStorage env cfg dataStorage) (rd0 + 1) (rd env rd0))
                    = Some (Inr final)
                    \<and> t = (if useBootstrap cfg
                           then updateHistograms DotProductTree (tree final) dataStorage
                                  (smoothingParameter cfg)
                           else tree final)"
proof -
  from assms obtain final where
    "learnLoop (dotStep env cfg (pdStorage env cfg dataStorage)) fuel
                         (initialState (pdStorage env cfg dataStorage) (rd0 + 1) (rd env rd0))
                    = Some (Inr final)"
    "t = (if useBootstrap cfg
                           then updateHistograms DotProductTree (tree final) dataStorage
                                  (smoothingParameter cfg)
                           else tree final)"
    by (auto simp: dotLearn_def pdStorage_def Let_def split: if_splits option.splits sum.splits)
  then show ?thesis by blast
qed



lemma bootstrap_wf:
  assumes wf: "wfStorage st" and ne: "dataPoints st \<noteq> []"
  shows "wfStorage (bootstrap env st n)"
proof -
  have len: "length (classLabels st) = length (dataPoints st)"
    and rng: "\<forall>c \<in> set (classLabels st). int c < classcount st"
    using wf by (simp_all add: wfStorage_def)
  have "int (classLabels st ! (k mod length (dataPoints st))) < classcount st" for k
  proof -
    have "k mod length (dataPoints st) < length (classLabels st)" using ne len by simp
    then have "classLabels st ! (k mod length (dataPoints st)) \<in> set (classLabels st)"
      by (rule nth_mem)
    with rng show ?thesis by blast
  qed
  then have "\<forall>c \<in> set (map (\<lambda>i. classLabels st ! i)
                       (map (\<lambda>k. bootstrapDraw env k mod length (dataPoints st)) [0..<nat n])).
               int c < classcount st"
    by (simp add: image_iff)
  then show ?thesis
    unfolding wfStorage_def bootstrap_def Let_def by simp
qed

lemma dtStorage_wf:
  "wfStorage dataStorage \<Longrightarrow> (useBootstrap cfg \<longrightarrow> dataPoints dataStorage \<noteq> []) \<Longrightarrow>
   wfStorage (dtStorage env cfg dataStorage)"
  by (simp add: dtStorage_def bootstrap_wf)

lemma pdStorage_wf:
  "wfStorage dataStorage \<Longrightarrow> (useBootstrap cfg \<longrightarrow> dataPoints dataStorage \<noteq> []) \<Longrightarrow>
   wfStorage (pdStorage env cfg dataStorage)"
  by (simp add: pdStorage_def bootstrap_wf)

lemma updateHistograms_shape:
  "length (updateHistograms kind t ds a) = length t"
  "i < length t \<Longrightarrow> depth (updateHistograms kind t ds a ! i) = depth (t ! i)"
  "i < length t \<Longrightarrow> leftChild (updateHistograms kind t ds a ! i) = leftChild (t ! i)"
  by (simp_all add: updateHistograms_def)

lemma updateHistograms_depthBounded:
  "depthBounded cfg t \<Longrightarrow> depthBounded cfg (updateHistograms kind t ds a)"
  by (simp add: depthBounded_def updateHistograms_shape)

lemma leafOutcome_rootAtZero:
  assumes r: "rootAtZero (tree s)" and l: "leafOutcome cfg storage s s'"
  shows "rootAtZero (tree s')"
proof -
  from l obtain h where
    t: "tree s' = (tree s)[hd (splitStack s) := (tree s ! hd (splitStack s))\<lparr>histogram := h\<rparr>]"
    unfolding leafOutcome_def Let_def by blast
  from r have "0 < length (tree s)" "depth (tree s ! 0) = 0" by (simp_all add: rootAtZero_def)
  then show ?thesis
    unfolding rootAtZero_def t by (simp add: nth_update_histogram)
qed

lemma splitOutcome_rootAtZero:
  assumes r: "rootAtZero (tree s)" and so: "splitOutcome gl cfg s s'"
  shows "rootAtZero (tree s')"
proof -
  define node where "node = hd (splitStack s)"
  from so obtain setConfig where
    dp: "\<forall>nd. depth (setConfig nd) = depth nd"
    and t: "tree s' = fst (splitNode ((tree s)[node := setConfig (tree s ! node)]) node)"
    unfolding splitOutcome_def Let_def node_def by blast
  from r have ne: "0 < length (tree s)" and d0: "depth (tree s ! 0) = 0"
    by (simp_all add: rootAtZero_def)
  define nd where "nd = (tree s)[node := setConfig (tree s ! node)] ! node"
  have t': "tree s' = (tree s)[node := nd\<lparr>leftChild := length (tree s)\<rparr>]
                 @ [freshNode (depth nd + 1), freshNode (depth nd + 1)]"
    using t by (simp add: splitNode_def Let_def nd_def)
  have "depth (tree s' ! 0) = 0"
  proof (cases "node = 0")
    case True
    with ne have "nd = setConfig (tree s ! 0)" by (simp add: nd_def)
    with True ne d0 dp show ?thesis by (simp add: t' nth_append)
  next
    case False
    with ne d0 show ?thesis by (simp add: t' nth_append)
  qed
  moreover have "0 < length (tree s')" by (simp add: t')
  ultimately show ?thesis by (simp add: rootAtZero_def)
qed

lemma batch_rootAtZero:
  assumes wf: "wfStorage storage"
    and st: "step = dtStep env cfg numF storage \<or> step = projStep env cfg storage
             \<or> step = dotStep env cfg storage"
    and run: "stateAfter step k (initialState storage rd0 seed) = Inr s"
  shows "rootAtZero (tree s)"
proof -
  have "buildInv storage s \<and> rootAtZero (tree s)"
  proof (rule stateAfter_invariant[where P = "\<lambda>s. buildInv storage s \<and> rootAtZero (tree s)",
        OF _ _ run])
    show "buildInv storage (initialState storage rd0 seed)
          \<and> rootAtZero (tree (initialState storage rd0 seed))"
      by (simp add: initialState_buildInv)
        (simp add: rootAtZero_def initialState_def addNode_def freshNode_def)
    show "buildInv storage s' \<and> rootAtZero (tree s')"
      if a: "buildInv storage s \<and> rootAtZero (tree s)"
        and ne: "splitStack s \<noteq> []" and ok: "step s = Inr s'" for s s'
    proof -
      from a have b: "buildInv storage s" and r: "rootAtZero (tree s)" by simp_all
      from batch_step_outcome[OF wf st b ne ok] show ?thesis
      proof
        assume l: "leafOutcome cfg storage s s'"
        from leafOutcome_buildInv[OF b ne l] leafOutcome_rootAtZero[OF r l] show ?thesis by simp
      next
        assume "\<exists>goesLeft. splitOutcome goesLeft cfg s s'"
        then obtain gl where so: "splitOutcome gl cfg s s'" ..
        from splitOutcome_buildInv[OF b ne so] splitOutcome_rootAtZero[OF r so]
        show ?thesis by simp
      qed
    qed
  qed
  then show ?thesis by simp
qed

lemma batch_final_tree:
  assumes wf: "wfStorage storage"
    and st: "step = dtStep env cfg numF storage \<or> step = projStep env cfg storage
             \<or> step = dotStep env cfg storage"
    and run: "learnLoop step fuel (initialState storage rd0 seed) = Some (Inr final)"
    and t: "t = (if b then updateHistograms kind (tree final) ds a else tree final)"
  shows "depthBounded cfg t \<and> depth (t ! 0) = 0"
proof -
  from learnLoop_stateAfter[OF run]
  have sa: "stateAfter step fuel (initialState storage rd0 seed) = Inr final" by simp
  from batch_invariants[OF wf st sa] have d: "depthBounded cfg (tree final)" by simp
  from batch_rootAtZero[OF wf st sa] have r: "0 < length (tree final)" "depth (tree final ! 0) = 0"
    by (simp_all add: rootAtZero_def)
  show ?thesis
    using d r t by (simp add: updateHistograms_depthBounded updateHistograms_shape)
qed

lemma findLeafNode_in_range:
  "childrenInRange t \<Longrightarrow> node < length t \<Longrightarrow> findLeafNode kind t x node < length t"
proof (induction kind t x node rule: findLeafNode.induct)
  case (1 kind t x node)
  show ?case
  proof (cases "node < length t \<and> node < leftChild (t ! node)")
    case True
    then have lc: "leftChild (t ! node) \<noteq> 0" by simp
    with "1.prems" True have r: "leftChild (t ! node) + 1 < length t"
      by (simp add: childrenInRange_def)
    define nxt where "nxt = (if goesLeftAt kind (t ! node) x then leftChild (t ! node)
              else leftChild (t ! node) + 1)"
    have "nxt < length t" using r by (simp add: nxt_def)
    from "1.IH"[OF True "1.prems"(1)] this have "findLeafNode kind t x nxt < length t"
      by (simp add: nxt_def)
    with True show ?thesis by (subst findLeafNode.simps) (simp add: nxt_def)
  next
    case False
    with "1.prems" show ?thesis by (subst findLeafNode.simps) simp
  qed
qed

lemma treeStructure_eqD:
  assumes "treeStructure t' = treeStructure t"
  shows "length t' = length t"
    and "i < length t \<Longrightarrow> depth (t' ! i) = depth (t ! i) \<and> leftChild (t' ! i) = leftChild (t ! i)
           \<and> splitFeature (t' ! i) = splitFeature (t ! i) \<and> threshold (t' ! i) = threshold (t ! i)"
proof -
  from assms show l: "length t' = length t"
    unfolding treeStructure_def by (rule map_eq_imp_length_eq)
  assume i: "i < length t"
  from assms have "treeStructure t' ! i = treeStructure t ! i" by simp
  with i l show "depth (t' ! i) = depth (t ! i) \<and> leftChild (t' ! i) = leftChild (t ! i)
           \<and> splitFeature (t' ! i) = splitFeature (t ! i) \<and> threshold (t' ! i) = threshold (t ! i)"
    by (simp add: treeStructure_def)
qed

lemma treeStructure_depthBounded:
  "treeStructure t' = treeStructure t \<Longrightarrow> depthBounded cfg t \<Longrightarrow> depthBounded cfg t'"
  using treeStructure_eqD[of t' t] by (simp add: depthBounded_def)

lemma treeStructure_childrenInRange:
  "treeStructure t' = treeStructure t \<Longrightarrow> childrenInRange t \<Longrightarrow> childrenInRange t'"
  using treeStructure_eqD[of t' t] by (auto simp: childrenInRange_def)

lemma treeStructure_update:
  "i < length t \<Longrightarrow> depth nd = depth (t ! i) \<Longrightarrow> leftChild nd = leftChild (t ! i) \<Longrightarrow>
   splitFeature nd = splitFeature (t ! i) \<Longrightarrow> threshold nd = threshold (t ! i) \<Longrightarrow>
   treeStructure (t[i := nd]) = treeStructure t"
  by (simp add: treeStructure_def map_update list_update_same_conv)

lemma accumulate_config:
  "depth (accumulate cfg x label nd) = depth nd"
  "leftChild (accumulate cfg x label nd) = leftChild nd"
  "splitFeature (accumulate cfg x label nd) = splitFeature nd"
  "threshold (accumulate cfg x label nd) = threshold nd"
  "histogram (accumulate cfg x label nd) = histogram nd"
  "nodeFeatures (accumulate cfg x label nd) = nodeFeatures nd"
  "nodeThresholds (accumulate cfg x label nd) = nodeThresholds nd"
  by (simp_all add: accumulate_def Let_def split: prod.splits)

lemma accumulate_funpow_config:
  "depth ((accumulate cfg x label ^^ K) nd) = depth nd
   \<and> leftChild ((accumulate cfg x label ^^ K) nd) = leftChild nd
   \<and> splitFeature ((accumulate cfg x label ^^ K) nd) = splitFeature nd
   \<and> threshold ((accumulate cfg x label ^^ K) nd) = threshold nd
   \<and> histogram ((accumulate cfg x label ^^ K) nd) = histogram nd"
  by (induction K) (simp_all add: accumulate_config)

lemma initLeaf_Inr:
  assumes "initLeaf env cfg storage s leaf = Inr s1"
  shows "\<exists>nd. onlineTree s1 = (onlineTree s)[leaf := nd]
           \<and> depth nd = depth (onlineTree s ! leaf)
           \<and> leftChild nd = leftChild (onlineTree s ! leaf)
           \<and> splitFeature nd = splitFeature (onlineTree s ! leaf)
           \<and> threshold nd = threshold (onlineTree s ! leaf)
           \<and> histogram nd = histogram (onlineTree s ! leaf)"
  using assms
  by (auto simp: initLeaf_def Let_def split: if_splits prod.splits)

lemma prepareVisit_Inr:
  assumes p: "prepareVisit env cfg storage s0 n = Inr (s2, leaf, leafDepth, nd)"
    and rng: "childrenInRange (onlineTree s0)"
  shows "leaf < length (onlineTree s0)"
    and "leafDepth = depth (onlineTree s0 ! leaf)"
    and "treeStructure (onlineTree s2) = treeStructure (onlineTree s0)"
    and "depth nd = depth (onlineTree s0 ! leaf) \<and> leftChild nd = leftChild (onlineTree s0 ! leaf)
         \<and> splitFeature nd = splitFeature (onlineTree s0 ! leaf)
         \<and> threshold nd = threshold (onlineTree s0 ! leaf)"
    and "\<forall>i < length (onlineTree s0). i \<noteq> leaf \<longrightarrow> onlineTree s2 ! i = onlineTree s0 ! i"
proof -
  define x where "x = getDataPoint storage n"
  define label where "label = getClassLabel storage n"
  define lf where "lf = findLeafNode AxisAlignedTree (onlineTree s0) x 0"
  define s1r where "s1r = (if length (nodeStatistics (onlineTree s0 ! lf)) \<le> 0
               then initLeaf env cfg storage s0 lf else Inr s0)"
  from rng have "0 < length (onlineTree s0)" by (simp add: childrenInRange_def)
  from findLeafNode_in_range[OF rng this] have lfr: "lf < length (onlineTree s0)"
    by (simp add: lf_def)
  from p obtain s1 where s1: "s1r = Inr s1"
    and s2: "s2 = (if useBootstrap cfg then s1\<lparr>gCount := gCount s1 + 1\<rparr> else s1)"
    and leaf: "leaf = lf" and ld: "leafDepth = depth (onlineTree s0 ! lf)"
    and nd: "nd = (accumulate cfg x label
                     ^^ (if useBootstrap cfg then poissonDraw env (gCount s1) else 1))
                  (onlineTree s2 ! lf)"
    unfolding prepareVisit_def Let_def x_def[symmetric] label_def[symmetric] lf_def[symmetric]
      s1r_def[symmetric]
    by (auto split: sum.splits)
  have t2: "onlineTree s2 = onlineTree s1" using s2 by simp
  have "\<exists>nd1. onlineTree s1 = (onlineTree s0)[lf := nd1]
           \<and> depth nd1 = depth (onlineTree s0 ! lf)
           \<and> leftChild nd1 = leftChild (onlineTree s0 ! lf)
           \<and> splitFeature nd1 = splitFeature (onlineTree s0 ! lf)
           \<and> threshold nd1 = threshold (onlineTree s0 ! lf)"
  proof (cases "length (nodeStatistics (onlineTree s0 ! lf)) \<le> 0")
    case True
    with s1 have "initLeaf env cfg storage s0 lf = Inr s1" by (simp add: s1r_def)
    from initLeaf_Inr[OF this] show ?thesis by blast
  next
    case False
    with s1 have "s1 = s0" by (simp add: s1r_def)
    then show ?thesis by (intro exI[of _ "onlineTree s0 ! lf"]) simp
  qed
  then obtain nd1 where u: "onlineTree s1 = (onlineTree s0)[lf := nd1]"
    and c: "depth nd1 = depth (onlineTree s0 ! lf)"
      "leftChild nd1 = leftChild (onlineTree s0 ! lf)"
      "splitFeature nd1 = splitFeature (onlineTree s0 ! lf)"
      "threshold nd1 = threshold (onlineTree s0 ! lf)"
    by blast
  show "leaf < length (onlineTree s0)" using lfr leaf by simp
  show "leafDepth = depth (onlineTree s0 ! leaf)" using ld leaf by simp
  show "treeStructure (onlineTree s2) = treeStructure (onlineTree s0)"
    unfolding t2 u using treeStructure_update[OF lfr c] .
  have "onlineTree s2 ! lf = nd1" using t2 u lfr by simp
  with nd c accumulate_funpow_config[where cfg = cfg and x = x and label = label and nd = nd1] leaf
  show "depth nd = depth (onlineTree s0 ! leaf) \<and> leftChild nd = leftChild (onlineTree s0 ! leaf)
         \<and> splitFeature nd = splitFeature (onlineTree s0 ! leaf)
         \<and> threshold nd = threshold (onlineTree s0 ! leaf)"
    by simp
  show "\<forall>i < length (onlineTree s0). i \<noteq> leaf \<longrightarrow> onlineTree s2 ! i = onlineTree s0 ! i"
    using t2 u leaf by simp
qed

lemma refreshLeaf_Inr:
  assumes "refreshLeaf cfg s leaf nd = Inr s'"
  shows "s' = s\<lparr>onlineTree := (onlineTree s)[leaf := nd\<lparr>histogram :=
                 map (smoothedLogProb (nodeStatistics nd) (smoothingParameter cfg))
                   [0..<length (nodeStatistics nd)]\<rparr>]\<rparr>"
proof -
  from assms obtain h where
    h: "updateLeafNodeHistogram (histogram nd) (nodeStatistics nd) (smoothingParameter cfg) False
          = Inr h"
    and s': "s' = s\<lparr>onlineTree := (onlineTree s)[leaf := nd\<lparr>histogram := h\<rparr>]\<rparr>"
    by (auto simp: refreshLeaf_def split: sum.splits)
  from updateLeafNodeHistogram_smoothed[OF h] s' show ?thesis by simp
qed

lemma splitLeaf_Inr:
  assumes leaf: "leaf < length (onlineTree s)"
    and sp: "splitLeaf cfg s leaf nd bestFeat bestThr = Inr s'"
  shows "s' = s\<lparr>onlineTree :=
            (onlineTree s)[leaf := nd\<lparr>threshold := nodeThresholds nd ! bestFeat ! bestThr,
                                       splitFeature := int (nodeFeatures nd ! bestFeat),
                                       leftChild := length (onlineTree s),
                                       leftChildStatistics := [], rightChildStatistics := [],
                                       nodeThresholds := [], nodeFeatures := [],
                                       histogram := []\<rparr>]
            @ [(freshNode (depth nd + 1))\<lparr>histogram :=
                  map (smoothedLogProb
                         (leftChildStatistics nd ! (bestThr + nat (numThresholds cfg) * bestFeat))
                         (smoothingParameter cfg))
                    [0..<length (leftChildStatistics nd
                                   ! (bestThr + nat (numThresholds cfg) * bestFeat))]\<rparr>,
               (freshNode (depth nd + 1))\<lparr>histogram :=
                  map (smoothedLogProb
                         (rightChildStatistics nd ! (bestThr + nat (numThresholds cfg) * bestFeat))
                         (smoothingParameter cfg))
                    [0..<length (rightChildStatistics nd
                                   ! (bestThr + nat (numThresholds cfg) * bestFeat))]\<rparr>]\<rparr>"
proof -
  define slot where "slot = bestThr + nat (numThresholds cfg) * bestFeat"
  define ndc where "ndc = nd\<lparr>threshold := nodeThresholds nd ! bestFeat ! bestThr,
                              splitFeature := int (nodeFeatures nd ! bestFeat)\<rparr>"
  define l where "l = length (onlineTree s)"
  define t where "t = (onlineTree s)[leaf := ndc\<lparr>leftChild := l\<rparr>]
                        @ [freshNode (depth nd + 1), freshNode (depth nd + 1)]"
  have sn: "splitNode ((onlineTree s)[leaf := ndc]) leaf = (t, l)"
    using leaf by (simp add: splitNode_def Let_def t_def l_def ndc_def)
  have tl: "t ! l = freshNode (depth nd + 1)" "t ! (l + 1) = freshNode (depth nd + 1)"
    "l < length t" "l + 1 < length t" "length t = l + 2"
    by (simp_all add: t_def l_def nth_append)
  from sp obtain hl hr where
    hl: "updateLeafNodeHistogram (histogram (t ! l)) (leftChildStatistics nd ! slot)
           (smoothingParameter cfg) False = Inr hl"
    and hr: "updateLeafNodeHistogram (histogram (t[l := (t ! l)\<lparr>histogram := hl\<rparr>] ! (l + 1)))
           (rightChildStatistics nd ! slot) (smoothingParameter cfg) False = Inr hr"
    and s': "s' = s\<lparr>onlineTree :=
               (t[l := (t ! l)\<lparr>histogram := hl\<rparr>,
                  l + 1 := (t[l := (t ! l)\<lparr>histogram := hl\<rparr>] ! (l + 1))\<lparr>histogram := hr\<rparr>])
               [leaf := (t[l := (t ! l)\<lparr>histogram := hl\<rparr>,
                  l + 1 := (t[l := (t ! l)\<lparr>histogram := hl\<rparr>] ! (l + 1))\<lparr>histogram := hr\<rparr>] ! leaf)
                  \<lparr>leftChildStatistics := [], rightChildStatistics := [], nodeThresholds := [],
                   nodeFeatures := [], histogram := []\<rparr>]\<rparr>"
    unfolding splitLeaf_def Let_def slot_def[symmetric] ndc_def[symmetric] sn
    by (auto split: sum.splits)
  note hl' = updateLeafNodeHistogram_smoothed[OF hl]
  note hr' = updateLeafNodeHistogram_smoothed[OF hr]
  have ll: "leaf < l" using leaf by (simp add: l_def)
  have "(t[l := (t ! l)\<lparr>histogram := hl\<rparr>,
           l + 1 := (t[l := (t ! l)\<lparr>histogram := hl\<rparr>] ! (l + 1))\<lparr>histogram := hr\<rparr>])
        = (onlineTree s)[leaf := ndc\<lparr>leftChild := l\<rparr>]
            @ [(freshNode (depth nd + 1))\<lparr>histogram := hl\<rparr>,
               (freshNode (depth nd + 1))\<lparr>histogram := hr\<rparr>]"
    by (simp add: t_def l_def[symmetric] list_update_append nth_append)
  then have "onlineTree s' = ((onlineTree s)[leaf := ndc\<lparr>leftChild := l\<rparr>]
            @ [(freshNode (depth nd + 1))\<lparr>histogram := hl\<rparr>,
               (freshNode (depth nd + 1))\<lparr>histogram := hr\<rparr>])
           [leaf := (ndc\<lparr>leftChild := l\<rparr>)
                  \<lparr>leftChildStatistics := [], rightChildStatistics := [], nodeThresholds := [],
                   nodeFeatures := [], histogram := []\<rparr>]"
    using s' leaf by (simp add: nth_append)
  then have "onlineTree s' = (onlineTree s)[leaf := (ndc\<lparr>leftChild := l\<rparr>)
                  \<lparr>leftChildStatistics := [], rightChildStatistics := [], nodeThresholds := [],
                   nodeFeatures := [], histogram := []\<rparr>]
            @ [(freshNode (depth nd + 1))\<lparr>histogram := hl\<rparr>,
               (freshNode (depth nd + 1))\<lparr>histogram := hr\<rparr>]"
    using leaf by (simp add: list_update_append)
  moreover have "s' = s\<lparr>onlineTree := onlineTree s'\<rparr>" using s' by simp
  ultimately show ?thesis
    unfolding hl' hr' slot_def ndc_def l_def by simp
qed

lemma decideVisit_Inr:
  assumes "decideVisit cfg storage s2 leaf leafDepth nd = Inr s'"
  shows "((getMass (nodeStatistics nd) < minSplitExamples cfg \<or> isPure (nodeStatistics nd)
           \<or> leafDepth \<ge> maxDepth cfg \<or> fst (bestSplit cfg nd) < minSplitObjective cfg)
          \<and> refreshLeaf cfg s2 leaf nd = Inr s')
         \<or> (\<not> getMass (nodeStatistics nd) < minSplitExamples cfg \<and> \<not> isPure (nodeStatistics nd)
             \<and> leafDepth < maxDepth cfg \<and> minSplitObjective cfg \<le> fst (bestSplit cfg nd)
             \<and> 0 \<le> snd (snd (bestSplit cfg nd))
             \<and> splitLeaf cfg s2 leaf nd (nat (snd (snd (bestSplit cfg nd))))
                  (nat (fst (snd (bestSplit cfg nd)))) = Inr s')"
  using assms
  by (auto simp: decideVisit_def Let_def split: if_splits prod.splits)

lemma split_shape_invariants:
  assumes t': "t' = t2[leaf := ndl] @ [c1, c2]"
    and leaf: "leaf < length t2"
    and ndl: "leftChild ndl = length t2" "depth ndl < maxDepth cfg"
    and c: "depth c1 = depth ndl + 1" "depth c2 = depth ndl + 1"
      "leftChild c1 = 0" "leftChild c2 = 0"
    and cr: "childrenInRange t2" and db: "depthBounded cfg t2"
  shows "childrenInRange t' \<and> depthBounded cfg t'"
proof -
  have each: "(leftChild (t' ! i) \<noteq> 0 \<longrightarrow> leftChild (t' ! i) + 1 < length t')
              \<and> (i = 0 \<or> depth (t' ! i) \<le> maxDepth cfg)
              \<and> (leftChild (t' ! i) \<noteq> 0 \<longrightarrow> depth (t' ! i) < maxDepth cfg)"
    if i: "i < length t'" for i
  proof -
    have "i < length t2 \<and> i \<noteq> leaf \<or> i = leaf \<or> i = length t2 \<or> i = length t2 + 1"
      using i t' by (auto simp: less_Suc_eq)
    then consider "i < length t2" "i \<noteq> leaf" | "i = leaf" | "i = length t2" | "i = length t2 + 1"
      by blast
    then show ?thesis
    proof cases
      case 1
      with cr db show ?thesis
        by (auto simp: t' nth_append childrenInRange_def depthBounded_def)
    next
      case 2
      with leaf ndl show ?thesis by (simp add: t' nth_append)
    next
      case 3
      with ndl c show ?thesis by (simp add: t' nth_append)
    next
      case 4
      with ndl c show ?thesis by (simp add: t' nth_append)
    qed
  qed
  have "t' \<noteq> []" by (simp add: t')
  with each show ?thesis by (simp add: childrenInRange_def depthBounded_def)
qed

lemma onlineVisit_invariants:
  assumes cr: "childrenInRange (onlineTree s0)" and db: "depthBounded cfg (onlineTree s0)"
    and v: "onlineVisit env cfg storage s0 n = Inr s'"
  shows "childrenInRange (onlineTree s') \<and> depthBounded cfg (onlineTree s')"
proof -
  from v obtain s2 leaf leafDepth nd where
    p: "prepareVisit env cfg storage s0 n = Inr (s2, leaf, leafDepth, nd)"
    and d: "decideVisit cfg storage s2 leaf leafDepth nd = Inr s'"
    by (auto simp: onlineVisit_def split: sum.splits)
  note pv = prepareVisit_Inr[OF p cr]
  note ts = treeStructure_eqD[OF pv(3)]
  have cr2: "childrenInRange (onlineTree s2)" and db2: "depthBounded cfg (onlineTree s2)"
    using treeStructure_childrenInRange[OF pv(3) cr] treeStructure_depthBounded[OF pv(3) db]
    by simp_all
  have leaf2: "leaf < length (onlineTree s2)" using pv(1) ts(1) by simp
  have nd2: "depth nd = depth (onlineTree s2 ! leaf)" "leftChild nd = leftChild (onlineTree s2 ! leaf)"
    "splitFeature nd = splitFeature (onlineTree s2 ! leaf)"
    "threshold nd = threshold (onlineTree s2 ! leaf)"
    using pv(4) ts(2)[OF pv(1)] by simp_all
  from decideVisit_Inr[OF d] consider
    (refresh) "refreshLeaf cfg s2 leaf nd = Inr s'"
    | (split) "leafDepth < maxDepth cfg"
      "splitLeaf cfg s2 leaf nd (nat (snd (snd (bestSplit cfg nd))))
                  (nat (fst (snd (bestSplit cfg nd)))) = Inr s'"
    by blast
  then show ?thesis
  proof cases
    case refresh
    from refreshLeaf_Inr[OF this] have
      "treeStructure (onlineTree s') = treeStructure (onlineTree s2)"
      using treeStructure_update[OF leaf2, of "nd\<lparr>histogram :=
                 map (smoothedLogProb (nodeStatistics nd) (smoothingParameter cfg))
                   [0..<length (nodeStatistics nd)]\<rparr>"] nd2
      by simp
    from treeStructure_childrenInRange[OF this cr2] treeStructure_depthBounded[OF this db2]
    show ?thesis by simp
  next
    case split
    note ld = split(1) and sp = split(2)
    from ld pv(2) pv(4) have dn: "depth nd < maxDepth cfg" by simp
    from splitLeaf_Inr[OF leaf2 sp] obtain ndl c1 c2 where
      "onlineTree s' = (onlineTree s2)[leaf := ndl] @ [c1, c2]"
      "leftChild ndl = length (onlineTree s2)" "depth ndl = depth nd"
      "depth c1 = depth nd + 1" "depth c2 = depth nd + 1" "leftChild c1 = 0" "leftChild c2 = 0"
      by (auto simp: freshNode_def)
    with split_shape_invariants[OF this(1) leaf2 this(2) _ _ _ this(6,7) cr2 db2] dn
    show ?thesis by simp
  qed
qed

lemma onlineLoop_invariants:
  "childrenInRange (onlineTree s) \<Longrightarrow> depthBounded cfg (onlineTree s) \<Longrightarrow>
   onlineLoop env cfg storage ns s = Inr s' \<Longrightarrow>
   childrenInRange (onlineTree s') \<and> depthBounded cfg (onlineTree s')"
proof (induction ns arbitrary: s)
  case Nil
  then show ?case by simp
next
  case (Cons n ns)
  from Cons.prems(3) obtain s1 where v: "onlineVisit env cfg storage s n = Inr s1"
    and r: "onlineLoop env cfg storage ns s1 = Inr s'"
    by (auto split: sum.splits)
  from onlineVisit_invariants[OF Cons.prems(1,2) v] Cons.IH[OF _ _ r] show ?case by simp
qed

lemma onlineLearn_Inr:
  "onlineLearn env cfg storage t rd0 g0 thr0 = Inr s' \<Longrightarrow>
   1 \<le> numFeatures cfg \<and> numFeatures cfg \<le> dimensionality storage
   \<and> thresholdGeneratorSize env = dimensionality storage \<and> 0 < length t
   \<and> onlineLoop env cfg storage [0..<nat (getSize storage)]
        \<lparr> onlineTree = t, features = [0..<nat (dimensionality storage)], rdCount = rd0,
          gCount = g0, thresholdCalls = thr0 \<rparr> = Inr s'"
  by (simp add: onlineLearn_def Let_def split: if_splits)

lemma dtStep_third:
  "dtStep exampleEnv exampleConfig 1 twoExamples afterRightLeaf = Inr afterLeftLeaf"
  by (simp add: dtStep_def twoExamples_def exampleConfig_def exampleEnv_def
      afterFirstSplit_def afterRightLeaf_def afterLeftLeaf_def learnedTree_def splitRoot_def
      nodeHistogram_def histogramOfSize_def
      addOne_def getMass_def isPure_def freshNode_def getClassLabel_def Let_def
      leafStep_def finalizeLeaf_def updateLeafNodeHistogram_def resize_def smoothedLogProb_def
      upt_small numeral_2_eq_2)

lemma learnLoop_twoExamples:
  "learnLoop (dtStep exampleEnv exampleConfig 1 twoExamples) 3 (initialState twoExamples 0 0)
     = Some (Inr afterLeftLeaf)"
proof -
  have s0: "splitStack (initialState twoExamples 0 0) \<noteq> []" by (simp add: initialState_def)
  have s1: "splitStack afterFirstSplit \<noteq> []" by (simp add: afterFirstSplit_def)
  have s2: "splitStack afterRightLeaf \<noteq> []" by (simp add: afterRightLeaf_def)
  have s3: "splitStack afterLeftLeaf = []" by (simp add: afterLeftLeaf_def)
  show ?thesis
    using s0 s1 s2 s3 by (simp add: numeral_3_eq_3 dtStep_first dtStep_second dtStep_third)
qed

lemma dtLearn_twoExamples:
  "dtLearn 3 exampleEnv exampleConfig twoExamples 0 = Some (Inr (learnedTree, 1))"
proof -
  have "effectiveNumFeatures exampleConfig twoExamples = 1"
    by (simp add: effectiveNumFeatures_def exampleConfig_def)
  moreover have "numFeatures exampleConfig \<le> dimensionality twoExamples"
    "\<not> useBootstrap exampleConfig"
    by (simp_all add: exampleConfig_def twoExamples_def)
  moreover have "tree afterLeftLeaf = learnedTree" "rdCalls afterLeftLeaf = 1"
    by (simp_all add: afterLeftLeaf_def afterFirstSplit_def)
  ultimately show ?thesis
    by (simp add: dtLearn_def Let_def learnLoop_twoExamples)
qed

lemma dtLearn_negativeDepth:
  "dtLearn 1 exampleEnv negativeDepthConfig twoExamples 0 = Some (Inr ([rootLeaf], 0))"
proof -
  have step: "dtStep exampleEnv negativeDepthConfig 1 twoExamples (initialState twoExamples 0 0)
          = Inr ((initialState twoExamples 0 0)\<lparr>tree := [rootLeaf], splitStack := []\<rparr>)"
    by (simp add: dtStep_def initialState_def twoExamples_def exampleConfig_def negativeDepthConfig_def
        rootLeaf_def addNode_def getSize_def nodeHistogram_def histogramOfSize_def
        addOne_def getMass_def isPure_def freshNode_def getClassLabel_def Let_def
        leafStep_def finalizeLeaf_def updateLeafNodeHistogram_def resize_def smoothedLogProb_def
        upt_small numeral_2_eq_2)
  have s0: "splitStack (initialState twoExamples 0 0) \<noteq> []" by (simp add: initialState_def)
  have "effectiveNumFeatures negativeDepthConfig twoExamples = 1"
    by (simp add: effectiveNumFeatures_def exampleConfig_def negativeDepthConfig_def)
  moreover have "numFeatures negativeDepthConfig \<le> dimensionality twoExamples"
    "\<not> useBootstrap negativeDepthConfig"
    by (simp_all add: exampleConfig_def negativeDepthConfig_def twoExamples_def)
  ultimately show ?thesis
    using s0 by (simp add: dtLearn_def Let_def step) (simp add: initialState_def)
qed

text \<open>C7, as amended. In the tree that a batch learner returns for a well-formed dataset
  the root has depth 0, every other node has a depth of at most \<open>maxDepth\<close>, and every node
  with children has a depth strictly below \<open>maxDepth\<close>. The online learner keeps the same
  bound: when every node but the root of the tree it is given is at most at \<open>maxDepth\<close> (and
  split nodes strictly below), the same holds for the tree it leaves.\<close>

theorem depth_bounded_except_root:
  "(wfStorage dataStorage \<and> (useBootstrap cfg \<longrightarrow> dataPoints dataStorage \<noteq> []) \<longrightarrow>
      (dtLearn fuel env cfg dataStorage rd0 = Some (Inr (t, c))
         \<longrightarrow> depthBounded cfg t \<and> depth (t ! 0) = 0)
      \<and> (projLearn fuel env cfg dataStorage rd0 = Some (Inr (t, c))
         \<longrightarrow> depthBounded cfg t \<and> depth (t ! 0) = 0)
      \<and> (dotLearn fuel env cfg dataStorage rd0 = Some (Inr (t, c))
         \<longrightarrow> depthBounded cfg t \<and> depth (t ! 0) = 0))
   \<and> (childrenInRange t0 \<and> depthBounded cfg t0
        \<and> onlineLearn env cfg storage t0 rd0 g0 thr0 = Inr s'
      \<longrightarrow> depthBounded cfg (onlineTree s'))"
proof (intro conjI impI)
  assume a: "wfStorage dataStorage \<and> (useBootstrap cfg \<longrightarrow> dataPoints dataStorage \<noteq> [])"
  then have wd: "wfStorage (dtStorage env cfg dataStorage)"
    and wp: "wfStorage (pdStorage env cfg dataStorage)"
    by (simp_all add: dtStorage_wf pdStorage_wf)
  { assume "dtLearn fuel env cfg dataStorage rd0 = Some (Inr (t, c))"
    from dtLearn_Inr[OF this] obtain final where
      run: "learnLoop (dtStep env cfg (effectiveNumFeatures cfg dataStorage)
                                  (dtStorage env cfg dataStorage)) fuel
                         (initialState (dtStorage env cfg dataStorage) rd0 0) = Some (Inr final)"
      and t: "t = (if useBootstrap cfg
                           then updateHistograms AxisAlignedTree (tree final) dataStorage
                                  (smoothingParameter cfg)
                           else tree final)" by blast
    have st: "dtStep env cfg (effectiveNumFeatures cfg dataStorage) (dtStorage env cfg dataStorage)
               = dtStep env cfg (effectiveNumFeatures cfg dataStorage) (dtStorage env cfg dataStorage)
             \<or> dtStep env cfg (effectiveNumFeatures cfg dataStorage) (dtStorage env cfg dataStorage)
               = projStep env cfg (dtStorage env cfg dataStorage)
             \<or> dtStep env cfg (effectiveNumFeatures cfg dataStorage) (dtStorage env cfg dataStorage)
               = dotStep env cfg (dtStorage env cfg dataStorage)" by simp
    from batch_final_tree[OF wd st run t]
    show "depthBounded cfg t" "depth (t ! 0) = 0" by simp_all }
  { assume "projLearn fuel env cfg dataStorage rd0 = Some (Inr (t, c))"
    from projLearn_Inr[OF this] obtain final where
      run: "learnLoop (projStep env cfg (pdStorage env cfg dataStorage)) fuel
                         (initialState (pdStorage env cfg dataStorage) (rd0 + 1) (rd env rd0))
                    = Some (Inr final)"
      and t: "t = (if useBootstrap cfg
                           then updateHistograms ProjectiveTree (tree final) dataStorage
                                  (smoothingParameter cfg)
                           else tree final)" by blast
    have st: "projStep env cfg (pdStorage env cfg dataStorage)
               = dtStep env cfg 0 (pdStorage env cfg dataStorage)
             \<or> projStep env cfg (pdStorage env cfg dataStorage)
               = projStep env cfg (pdStorage env cfg dataStorage)
             \<or> projStep env cfg (pdStorage env cfg dataStorage)
               = dotStep env cfg (pdStorage env cfg dataStorage)" by simp
    from batch_final_tree[OF wp st run t]
    show "depthBounded cfg t" "depth (t ! 0) = 0" by simp_all }
  { assume "dotLearn fuel env cfg dataStorage rd0 = Some (Inr (t, c))"
    from dotLearn_Inr[OF this] obtain final where
      run: "learnLoop (dotStep env cfg (pdStorage env cfg dataStorage)) fuel
                         (initialState (pdStorage env cfg dataStorage) (rd0 + 1) (rd env rd0))
                    = Some (Inr final)"
      and t: "t = (if useBootstrap cfg
                           then updateHistograms DotProductTree (tree final) dataStorage
                                  (smoothingParameter cfg)
                           else tree final)" by blast
    have st: "dotStep env cfg (pdStorage env cfg dataStorage)
               = dtStep env cfg 0 (pdStorage env cfg dataStorage)
             \<or> dotStep env cfg (pdStorage env cfg dataStorage)
               = projStep env cfg (pdStorage env cfg dataStorage)
             \<or> dotStep env cfg (pdStorage env cfg dataStorage)
               = dotStep env cfg (pdStorage env cfg dataStorage)" by simp
    from batch_final_tree[OF wp st run t]
    show "depthBounded cfg t" "depth (t ! 0) = 0" by simp_all }
next
  assume a: "childrenInRange t0 \<and> depthBounded cfg t0
        \<and> onlineLearn env cfg storage t0 rd0 g0 thr0 = Inr s'"
  then have "onlineLoop env cfg storage [0..<nat (getSize storage)]
        \<lparr> onlineTree = t0, features = [0..<nat (dimensionality storage)], rdCount = rd0,
          gCount = g0, thresholdCalls = thr0 \<rparr> = Inr s'"
    using onlineLearn_Inr by blast
  from onlineLoop_invariants[OF _ _ this] a show "depthBounded cfg (onlineTree s')" by simp
qed

theorem depth_bounded_except_root_witness:
  "wfStorage twoExamples \<and> \<not> useBootstrap exampleConfig
   \<and> dtLearn 3 exampleEnv exampleConfig twoExamples 0 = Some (Inr (learnedTree, 1))
   \<and> depthBounded exampleConfig learnedTree \<and> depth (learnedTree ! 0) = 0"
proof -
  have nb: "\<not> useBootstrap exampleConfig" by (simp add: exampleConfig_def)
  from depth_bounded_except_root[of twoExamples exampleConfig 3 exampleEnv 0 learnedTree 1]
    wfStorage_twoExamples nb dtLearn_twoExamples
  show ?thesis by simp
qed

text \<open>C7 as stated fails for a negative maximum depth: the root of the returned tree is
  at depth 0, above the configured maximum \<open>-1\<close>.\<close>

theorem depth_bound_counterexample:
  "dtLearn 1 exampleEnv negativeDepthConfig twoExamples 0 = Some (Inr ([rootLeaf], 0))
   \<and> maxDepth negativeDepthConfig < depth ([rootLeaf] ! 0)"
  using dtLearn_negativeDepth
  by (simp add: negativeDepthConfig_def exampleConfig_def rootLeaf_def freshNode_def)

lemma upt_three: "[0..<3] = [0, 1, 2]"
  by (simp add: upt_rec)

lemma sampleProjection_example:
  "even k \<Longrightarrow> sampleProjection exampleEnv 0 k 1 = [- 1 / sqrt 3]"
  by (simp add: sampleProjection_def exampleEnv_def upt_three)



















text \<open>The effect of \<open>updateSplitStatistics\<close> on every slot.\<close>

lemma slot_unique:
  fixes T :: nat
  assumes "t < T" "t' < T" "t + T * f = t' + T * f'"
  shows "t = t' \<and> f = f'"
proof -
  have "(t + T * f) div T = f" "(t + T * f) mod T = t" using assms(1) by simp_all
  moreover have "(t' + T * f') div T = f'" "(t' + T * f') mod T = t'" using assms(2) by simp_all
  ultimately show ?thesis using assms(3) by metis
qed

lemma fold_slotStep_inner:
  assumes "distinct ts" and "j < length l" and "j < length r"
  shows "fst (fold (slotStep T left label f) ts (l, r)) ! j
           = (if \<exists>t \<in> set ts. j = t + T * f \<and> left f t then addOne (l ! j) label else l ! j)
         \<and> snd (fold (slotStep T left label f) ts (l, r)) ! j
           = (if \<exists>t \<in> set ts. j = t + T * f \<and> \<not> left f t then addOne (r ! j) label else r ! j)
         \<and> length (fst (fold (slotStep T left label f) ts (l, r))) = length l
         \<and> length (snd (fold (slotStep T left label f) ts (l, r))) = length r"
  using assms
proof (induction ts arbitrary: l r)
  case Nil
  then show ?case by simp
next
  case (Cons t ts)
  define l1 where "l1 = fst (slotStep T left label f t (l, r))"
  define r1 where "r1 = snd (slotStep T left label f t (l, r))"
  have step: "slotStep T left label f t (l, r) = (l1, r1)" by (simp add: l1_def r1_def)
  have len: "length l1 = length l" "length r1 = length r"
    by (simp_all add: l1_def r1_def slotStep_def Let_def)
  have notin: "\<not> (\<exists>t' \<in> set ts. t + T * f = t' + T * f)"
    using Cons.prems(1) by auto
  have l1j: "l1 ! j = (if j = t + T * f \<and> left f t then addOne (l ! j) label else l ! j)"
    using Cons.prems(2) by (auto simp: l1_def slotStep_def Let_def)
  have r1j: "r1 ! j = (if j = t + T * f \<and> \<not> left f t then addOne (r ! j) label else r ! j)"
    using Cons.prems(3) by (auto simp: r1_def slotStep_def Let_def)
  from Cons.prems have d: "distinct ts" and jl: "j < length l1" and jr: "j < length r1"
    using len by simp_all
  note IH = Cons.IH[OF d jl jr]
  have unf: "fold (slotStep T left label f) (t # ts) (l, r)
               = fold (slotStep T left label f) ts (l1, r1)"
    by (simp add: step)
  have c: "(\<exists>t' \<in> set (t # ts). j = t' + T * f \<and> P t')
             = (if j = t + T * f then P t else (\<exists>t' \<in> set ts. j = t' + T * f \<and> P t'))" for P
    using notin by auto
  have no: "j = t + T * f \<Longrightarrow> \<not> (\<exists>t' \<in> set ts. j = t' + T * f \<and> P t')" for P
    using notin by auto
  show ?case
  proof (cases "j = t + T * f")
    case True
    have "fst (fold (slotStep T left label f) ts (l1, r1)) ! j = l1 ! j"
      "snd (fold (slotStep T left label f) ts (l1, r1)) ! j = r1 ! j"
      using IH no[OF True, of "left f"] no[OF True, of "\<lambda>t. \<not> left f t"] by simp_all
    with l1j r1j IH len True show ?thesis
      unfolding unf c[of "left f"] c[of "\<lambda>t. \<not> left f t"] by auto
  next
    case False
    with IH l1j r1j len show ?thesis
      unfolding unf c[of "left f"] c[of "\<lambda>t. \<not> left f t"] by auto
  qed
qed

lemma fold_slotStep_outer:
  assumes "distinct fs" and "\<forall>f \<in> set fs. n f \<le> T" and "j < length l" and "j < length r"
  shows "fst (fold (\<lambda>f. fold (slotStep T left label f) [0..<n f]) fs (l, r)) ! j
           = (if \<exists>f \<in> set fs. \<exists>t < n f. j = t + T * f \<and> left f t
              then addOne (l ! j) label else l ! j)
         \<and> snd (fold (\<lambda>f. fold (slotStep T left label f) [0..<n f]) fs (l, r)) ! j
           = (if \<exists>f \<in> set fs. \<exists>t < n f. j = t + T * f \<and> \<not> left f t
              then addOne (r ! j) label else r ! j)
         \<and> length (fst (fold (\<lambda>f. fold (slotStep T left label f) [0..<n f]) fs (l, r))) = length l
         \<and> length (snd (fold (\<lambda>f. fold (slotStep T left label f) [0..<n f]) fs (l, r))) = length r"
  using assms
proof (induction fs arbitrary: l r)
  case Nil
  then show ?case by simp
next
  case (Cons f fs)
  define l1 where "l1 = fst (fold (slotStep T left label f) [0..<n f] (l, r))"
  define r1 where "r1 = snd (fold (slotStep T left label f) [0..<n f] (l, r))"
  have step: "fold (slotStep T left label f) [0..<n f] (l, r) = (l1, r1)"
    by (simp add: l1_def r1_def)
  note inner = fold_slotStep_inner[of "[0..<n f]" j l r T left label f, OF _ Cons.prems(3,4),
      folded l1_def r1_def]
  from inner have len: "length l1 = length l" "length r1 = length r" by simp_all
  from inner have l1j: "l1 ! j = (if \<exists>t < n f. j = t + T * f \<and> left f t
                                  then addOne (l ! j) label else l ! j)"
    and r1j: "r1 ! j = (if \<exists>t < n f. j = t + T * f \<and> \<not> left f t
                        then addOne (r ! j) label else r ! j)"
    by (simp_all add: Bex_def)
  from Cons.prems have d: "distinct fs" and b: "\<forall>f \<in> set fs. n f \<le> T"
    and jl: "j < length l1" and jr: "j < length r1" and nf: "n f \<le> T" and fn: "f \<notin> set fs"
    using len by simp_all
  note IH = Cons.IH[OF d b jl jr]
  have excl: "\<not> (\<exists>f' \<in> set fs. \<exists>t' < n f'. j = t' + T * f' \<and> P f' t')"
    if "\<exists>t < n f. j = t + T * f" for P
  proof
    assume "\<exists>f' \<in> set fs. \<exists>t' < n f'. j = t' + T * f' \<and> P f' t'"
    then obtain f' t' where f': "f' \<in> set fs" "t' < n f'" "j = t' + T * f'" by blast
    from that obtain t where t: "t < n f" "j = t + T * f" by blast
    from f' b have "t' < T" by force
    moreover from t nf have "t < T" by simp
    ultimately have "f = f'" using slot_unique[of t T t' f f'] t(2) f'(3) by simp
    with f'(1) fn show False by simp
  qed
  have unf: "fold (\<lambda>f. fold (slotStep T left label f) [0..<n f]) (f # fs) (l, r)
               = fold (\<lambda>f. fold (slotStep T left label f) [0..<n f]) fs (l1, r1)"
    by (simp add: step)
  have c: "(\<exists>f' \<in> set (f # fs). \<exists>t' < n f'. j = t' + T * f' \<and> P f' t')
             = (if \<exists>t < n f. j = t + T * f then (\<exists>t < n f. j = t + T * f \<and> P f t)
                else (\<exists>f' \<in> set fs. \<exists>t' < n f'. j = t' + T * f' \<and> P f' t'))" for P
    using excl[of P] by auto
  show ?case
  proof (cases "\<exists>t < n f. j = t + T * f")
    case True
    have "fst (fold (\<lambda>f. fold (slotStep T left label f) [0..<n f]) fs (l1, r1)) ! j = l1 ! j"
      "snd (fold (\<lambda>f. fold (slotStep T left label f) [0..<n f]) fs (l1, r1)) ! j = r1 ! j"
      using IH excl[OF True, of left] excl[OF True, of "\<lambda>f t. \<not> left f t"] by simp_all
    with l1j r1j IH len True show ?thesis
      unfolding unf c[of left] c[of "\<lambda>f t. \<not> left f t"] by auto
  next
    case False
    then have "l1 ! j = l ! j" "r1 ! j = r ! j" using l1j r1j by auto
    with IH len False show ?thesis
      unfolding unf c[of left] c[of "\<lambda>f t. \<not> left f t"] by auto
  qed
qed

lemma updateSplitStatistics_slotStep:
  "updateSplitStatistics cfg leftStats rightStats feats thresholds x label
     = fold (\<lambda>f. fold (slotStep (nat (numThresholds cfg))
                         (\<lambda>f t. x ! (feats ! f) < thresholds ! f ! t) label f)
                   [0..<length (thresholds ! f)])
         [0..<nat (numFeatures cfg)] (leftStats, rightStats)"
  unfolding updateSplitStatistics_def slotStep_def by (rule refl)

lemma updateSplitStatistics_slot:
  assumes f: "f < nat (numFeatures cfg)" and t: "t < length (thresholds ! f)"
    and shape: "\<forall>f' < nat (numFeatures cfg). length (thresholds ! f') \<le> nat (numThresholds cfg)"
    and jl: "t + nat (numThresholds cfg) * f < length leftStats"
    and jr: "t + nat (numThresholds cfg) * f < length rightStats"
  shows "fst (updateSplitStatistics cfg leftStats rightStats feats thresholds x label)
           ! (t + nat (numThresholds cfg) * f)
         = (if x ! (feats ! f) < thresholds ! f ! t
            then addOne (leftStats ! (t + nat (numThresholds cfg) * f)) label
            else leftStats ! (t + nat (numThresholds cfg) * f))
       \<and> snd (updateSplitStatistics cfg leftStats rightStats feats thresholds x label)
           ! (t + nat (numThresholds cfg) * f)
         = (if x ! (feats ! f) < thresholds ! f ! t
            then rightStats ! (t + nat (numThresholds cfg) * f)
            else addOne (rightStats ! (t + nat (numThresholds cfg) * f)) label)"
proof -
  define T where "T = nat (numThresholds cfg)"
  define left where "left = (\<lambda>f t. x ! (feats ! f) < thresholds ! f ! t)"
  define j where "j = t + T * f"
  have b: "\<forall>f' \<in> set [0..<nat (numFeatures cfg)]. length (thresholds ! f') \<le> T"
    using shape by (simp add: T_def)
  have tT: "t < T" using t f shape by (auto simp: T_def)
  have uniq: "(\<exists>f' \<in> set [0..<nat (numFeatures cfg)]. \<exists>t' < length (thresholds ! f').
                 j = t' + T * f' \<and> P f' t') \<longleftrightarrow> P f t" for P
  proof
    assume "\<exists>f' \<in> set [0..<nat (numFeatures cfg)]. \<exists>t' < length (thresholds ! f').
                 j = t' + T * f' \<and> P f' t'"
    then obtain f' t' where f': "f' < nat (numFeatures cfg)" "t' < length (thresholds ! f')"
      "j = t' + T * f'" "P f' t'" by auto
    from f'(1,2) shape have "t' < T" by (auto simp: T_def)
    with slot_unique[of t T t' f f'] tT f'(3) have "t = t'" "f = f'" by (simp_all add: j_def)
    with f'(4) show "P f t" by simp
  next
    assume "P f t"
    with f t show "\<exists>f' \<in> set [0..<nat (numFeatures cfg)]. \<exists>t' < length (thresholds ! f').
                 j = t' + T * f' \<and> P f' t'"
      by (auto simp: j_def)
  qed
  have jl': "j < length leftStats" and jr': "j < length rightStats"
    using jl jr by (simp_all add: j_def T_def)
  have d: "distinct [0..<nat (numFeatures cfg)]" by simp
  note o = fold_slotStep_outer[of "[0..<nat (numFeatures cfg)]" "\<lambda>f. length (thresholds ! f)" T j
      leftStats rightStats left label, OF d b jl' jr',
      unfolded uniq[of left] uniq[of "\<lambda>f t. \<not> left f t"]]
  have "updateSplitStatistics cfg leftStats rightStats feats thresholds x label
     = fold (\<lambda>f. fold (slotStep T left label f) [0..<length (thresholds ! f)])
         [0..<nat (numFeatures cfg)] (leftStats, rightStats)"
    unfolding updateSplitStatistics_slotStep T_def left_def by (rule refl)
  with o show ?thesis
    unfolding T_def[symmetric] j_def[symmetric] by (simp add: left_def)
qed

lemma batch_split_by_decision:
  assumes wf: "wfStorage storage"
    and st: "(step, kind) = (dtStep env cfg numF storage, AxisAlignedTree)
             \<or> (step, kind) = (projStep env cfg storage, ProjectiveTree)
             \<or> (step, kind) = (dotStep env cfg storage, DotProductTree)"
    and inv: "buildInv storage s" and ne: "splitStack s \<noteq> []" and ok: "step s = Inr s'"
  shows "leafOutcome cfg storage s s'
         \<or> splitOutcome (\<lambda>n. decisionValue kind (tree s' ! hd (splitStack s)) (getDataPoint storage n)
                              < decisionThreshold kind (tree s' ! hd (splitStack s))) cfg s s'"
  using st
proof (elim disjE)
  assume "(step, kind) = (dtStep env cfg numF storage, AxisAlignedTree)"
  then have s: "step = dtStep env cfg numF storage" and k: "kind = AxisAlignedTree" by simp_all
  from dtStep_outcome[OF inv ne ok[unfolded s]] show ?thesis
    by (auto simp: k decisionValue_def decisionThreshold_def)
next
  assume "(step, kind) = (projStep env cfg storage, ProjectiveTree)"
  then have s: "step = projStep env cfg storage" and k: "kind = ProjectiveTree" by simp_all
  from projStep_outcome[OF wf inv ne ok[unfolded s]] show ?thesis
    by (auto simp: k decisionValue_def decisionThreshold_def)
next
  assume "(step, kind) = (dotStep env cfg storage, DotProductTree)"
  then have s: "step = dotStep env cfg storage" and k: "kind = DotProductTree" by simp_all
  from dotStep_outcome[OF wf inv ne ok[unfolded s]] show ?thesis
    by (auto simp: k decisionValue_def decisionThreshold_def)
qed

lemma splitOutcome_children:
  assumes inv: "buildInv storage s" and ne: "splitStack s \<noteq> []"
    and so: "splitOutcome gl cfg s s'"
  shows "leftChild (tree s' ! hd (splitStack s)) = length (tree s)"
    and "set (trainingExamples s' ! length (tree s))
           = {n \<in> set (trainingExamples s ! hd (splitStack s)). gl n}"
    and "set (trainingExamples s' ! (length (tree s) + 1))
           = {n \<in> set (trainingExamples s ! hd (splitStack s)). \<not> gl n}"
proof -
  define node where "node = hd (splitStack s)"
  from so obtain setConfig reordered where
    ms: "mset reordered = mset (trainingExamples s ! node)"
    and t: "tree s' = fst (splitNode ((tree s)[node := setConfig (tree s ! node)]) node)"
    and ex: "trainingExamples s' = trainingExamples s
               @ [rev (filter gl reordered), rev (filter (\<lambda>n. \<not> gl n) reordered)]"
    unfolding splitOutcome_def Let_def node_def by blast
  have top: "node < length (tree s)" using buildInv_top[OF inv ne] by (simp add: node_def)
  from inv have l1: "length (trainingExamples s) = length (tree s)" by (simp add: buildInv_def)
  have se: "set reordered = set (trainingExamples s ! node)" using ms by (rule mset_eq_setD)
  show "leftChild (tree s' ! hd (splitStack s)) = length (tree s)"
    using t top by (simp add: splitNode_def Let_def nth_append node_def)
  show "set (trainingExamples s' ! length (tree s))
           = {n \<in> set (trainingExamples s ! hd (splitStack s)). gl n}"
    using l1 se by (auto simp: ex nth_append node_def)
  show "set (trainingExamples s' ! (length (tree s) + 1))
           = {n \<in> set (trainingExamples s ! hd (splitStack s)). \<not> gl n}"
    using l1 se by (auto simp: ex nth_append node_def)
qed

text \<open>C9. A committed split of a batch learner puts an example of the node's list into
  the left child's list exactly when its decision value (feature value, projection, or
  dot-product discriminant) is strictly below the bound (threshold, 0, threshold), and into
  the right child's list otherwise; so an example whose value equals the bound goes right.
  The online learner's \<open>updateSplitStatistics\<close> counts an example in the left statistic of
  a slot exactly when its feature value is strictly below the slot's threshold, and in
  the right statistic otherwise.\<close>

theorem ties_are_routed_right:
  assumes "wfStorage storage"
    and "(step, kind) = (dtStep env cfg numF storage, AxisAlignedTree)
         \<or> (step, kind) = (projStep env cfg storage, ProjectiveTree)
         \<or> (step, kind) = (dotStep env cfg storage, DotProductTree)"
    and "stateAfter step k (initialState storage rd0 seed) = Inr s"
    and "splitStack s \<noteq> []"
    and "step s = Inr s'"
    and "length (tree s') \<noteq> length (tree s)"
  shows "(let node = hd (splitStack s); nd = tree s' ! node
          in \<forall>n \<in> set (trainingExamples s ! node).
               (n \<in> set (trainingExamples s' ! leftChild nd)
                  \<longleftrightarrow> decisionValue kind nd (getDataPoint storage n) < decisionThreshold kind nd)
               \<and> (n \<in> set (trainingExamples s' ! (leftChild nd + 1))
                  \<longleftrightarrow> \<not> decisionValue kind nd (getDataPoint storage n)
                          < decisionThreshold kind nd)
               \<and> (decisionValue kind nd (getDataPoint storage n) = decisionThreshold kind nd
                  \<longrightarrow> n \<in> set (trainingExamples s' ! (leftChild nd + 1))
                      \<and> n \<notin> set (trainingExamples s' ! leftChild nd)))
         \<and> (f < nat (numFeatures cfg) \<and> t < length (thresholds ! f)
            \<and> (\<forall>f' < nat (numFeatures cfg). length (thresholds ! f') \<le> nat (numThresholds cfg))
            \<and> t + nat (numThresholds cfg) * f < length leftStats
            \<and> t + nat (numThresholds cfg) * f < length rightStats
            \<longrightarrow>
              fst (updateSplitStatistics cfg leftStats rightStats feats thresholds x label)
                  ! (t + nat (numThresholds cfg) * f)
                = (if x ! (feats ! f) < thresholds ! f ! t
                   then addOne (leftStats ! (t + nat (numThresholds cfg) * f)) label
                   else leftStats ! (t + nat (numThresholds cfg) * f))
              \<and> snd (updateSplitStatistics cfg leftStats rightStats feats thresholds x label)
                  ! (t + nat (numThresholds cfg) * f)
                = (if x ! (feats ! f) < thresholds ! f ! t
                   then rightStats ! (t + nat (numThresholds cfg) * f)
                   else addOne (rightStats ! (t + nat (numThresholds cfg) * f)) label))"
proof (intro conjI impI)
  have st': "step = dtStep env cfg numF storage \<or> step = projStep env cfg storage
             \<or> step = dotStep env cfg storage"
    using assms(2) by auto
  from batch_invariants[OF assms(1) st' assms(3)] have inv: "buildInv storage s" by simp
  define node where "node = hd (splitStack s)"
  define nd where "nd = tree s' ! node"
  define gl where "gl = (\<lambda>n. decisionValue kind nd (getDataPoint storage n)
                              < decisionThreshold kind nd)"
  from batch_split_by_decision[OF assms(1,2) inv assms(4,5)] assms(6)
  have so: "splitOutcome gl cfg s s'"
    by (auto simp: leafOutcome_def Let_def gl_def nd_def node_def)
  note ch = splitOutcome_children[OF inv assms(4) so, folded node_def, folded nd_def]
  show "let node = hd (splitStack s); nd = tree s' ! node
          in \<forall>n \<in> set (trainingExamples s ! node).
               (n \<in> set (trainingExamples s' ! leftChild nd)
                  \<longleftrightarrow> decisionValue kind nd (getDataPoint storage n) < decisionThreshold kind nd)
               \<and> (n \<in> set (trainingExamples s' ! (leftChild nd + 1))
                  \<longleftrightarrow> \<not> decisionValue kind nd (getDataPoint storage n)
                          < decisionThreshold kind nd)
               \<and> (decisionValue kind nd (getDataPoint storage n) = decisionThreshold kind nd
                  \<longrightarrow> n \<in> set (trainingExamples s' ! (leftChild nd + 1))
                      \<and> n \<notin> set (trainingExamples s' ! leftChild nd))"
    unfolding Let_def node_def[symmetric] nd_def[symmetric] ch
    by (simp add: gl_def)
next
  assume a: "f < nat (numFeatures cfg) \<and> t < length (thresholds ! f)
            \<and> (\<forall>f' < nat (numFeatures cfg). length (thresholds ! f') \<le> nat (numThresholds cfg))
            \<and> t + nat (numThresholds cfg) * f < length leftStats
            \<and> t + nat (numThresholds cfg) * f < length rightStats"
  from updateSplitStatistics_slot[of f cfg t thresholds leftStats rightStats feats x label] a
  show "fst (updateSplitStatistics cfg leftStats rightStats feats thresholds x label)
                  ! (t + nat (numThresholds cfg) * f)
                = (if x ! (feats ! f) < thresholds ! f ! t
                   then addOne (leftStats ! (t + nat (numThresholds cfg) * f)) label
                   else leftStats ! (t + nat (numThresholds cfg) * f))"
    and "snd (updateSplitStatistics cfg leftStats rightStats feats thresholds x label)
                  ! (t + nat (numThresholds cfg) * f)
                = (if x ! (feats ! f) < thresholds ! f ! t
                   then rightStats ! (t + nat (numThresholds cfg) * f)
                   else addOne (rightStats ! (t + nat (numThresholds cfg) * f)) label)"
    by simp_all
qed

lemma projStep_first:
  "projStep exampleEnv exampleConfig twoExamples (initialState twoExamples 1 0)
     = Inr afterProjectiveSplit"
  by (simp add: projStep_def initialState_def twoExamples_def exampleConfig_def
      afterProjectiveSplit_def
      addNode_def getSize_def nodeHistogram_def histogramOfSize_def
      addOne_def subOne_def reset_def getMass_def isPure_def freshNode_def
      getDataPoint_def getClassLabel_def initialBest_def Let_def projCandidate_def
      sampleProjection_example candidateHistograms_def moveLeft_def dot_def
      commitSplit_def splitNode_def getEntropy_def upt_small numeral_2_eq_2)


theorem ties_are_routed_right_witness:
  "wfStorage twoExamples
   \<and> stateAfter (projStep exampleEnv exampleConfig twoExamples) 0 (initialState twoExamples 1 0)
       = Inr (initialState twoExamples 1 0)
   \<and> splitStack (initialState twoExamples 1 0) \<noteq> []
   \<and> projStep exampleEnv exampleConfig twoExamples (initialState twoExamples 1 0)
       = Inr afterProjectiveSplit
   \<and> length (tree afterProjectiveSplit) \<noteq> length (tree (initialState twoExamples 1 0))
   \<and> decisionValue ProjectiveTree (tree afterProjectiveSplit ! 0) (getDataPoint twoExamples 0)
       = decisionThreshold ProjectiveTree (tree afterProjectiveSplit ! 0)
   \<and> 0 \<in> set (trainingExamples afterProjectiveSplit ! 2)
   \<and> 0 \<notin> set (trainingExamples afterProjectiveSplit ! 1)
   \<and> tiedPoint ! 0 = [[1 / 2]] ! 0 ! 0
   \<and> fst (updateSplitStatistics exampleConfig [[0, 0]] [[0, 0]] [0] [[1 / 2]] tiedPoint 0) ! 0
       = [0, 0]
   \<and> snd (updateSplitStatistics exampleConfig [[0, 0]] [[0, 0]] [0] [[1 / 2]] tiedPoint 0) ! 0
       = addOne [0, 0] 0"
proof -
  have run: "stateAfter (projStep exampleEnv exampleConfig twoExamples) 0
               (initialState twoExamples 1 0) = Inr (initialState twoExamples 1 0)"
    by simp
  have ne: "splitStack (initialState twoExamples 1 0) \<noteq> []" by (simp add: initialState_def)
  have grew: "length (tree afterProjectiveSplit) \<noteq> length (tree (initialState twoExamples 1 0))"
    by (simp add: afterProjectiveSplit_def initialState_def addNode_def)
  have kind: "(projStep exampleEnv exampleConfig twoExamples, ProjectiveTree)
                = (dtStep exampleEnv exampleConfig 0 twoExamples, AxisAlignedTree)
              \<or> (projStep exampleEnv exampleConfig twoExamples, ProjectiveTree)
                = (projStep exampleEnv exampleConfig twoExamples, ProjectiveTree)
              \<or> (projStep exampleEnv exampleConfig twoExamples, ProjectiveTree)
                = (dotStep exampleEnv exampleConfig twoExamples, DotProductTree)"
    by simp
  have tie: "decisionValue ProjectiveTree (tree afterProjectiveSplit ! 0) (getDataPoint twoExamples 0)
       = decisionThreshold ProjectiveTree (tree afterProjectiveSplit ! 0)"
    by (simp add: decisionValue_def decisionThreshold_def afterProjectiveSplit_def
        getDataPoint_def twoExamples_def dot_def)
  have pt: "tiedPoint ! 0 = [[1 / 2]] ! 0 ! 0" by (simp add: tiedPoint_def)
  have mem: "0 \<in> set (trainingExamples (initialState twoExamples 1 0)
                         ! hd (splitStack (initialState twoExamples 1 0)))"
    by (simp add: initialState_def getSize_def twoExamples_def)
  have lc: "leftChild (tree afterProjectiveSplit ! hd (splitStack (initialState twoExamples 1 0))) = 1"
    by (simp add: initialState_def afterProjectiveSplit_def)
  have hd0: "hd (splitStack (initialState twoExamples 1 0)) = 0" by (simp add: initialState_def)
  note th = ties_are_routed_right[OF wfStorage_twoExamples kind run ne projStep_first grew,
      where f = 0 and t = 0 and thresholds = "[[1 / 2]]" and leftStats = "[[0, 0]]"
        and rightStats = "[[0, 0]]" and feats = "[0]" and x = tiedPoint and label = 0]
  note th1 = th[THEN conjunct1, unfolded Let_def hd0]
  note th2 = th[THEN conjunct2]
  from bspec[OF th1 mem[unfolded hd0]] tie
  have batch: "0 \<in> set (trainingExamples afterProjectiveSplit ! 2)
                       \<and> 0 \<notin> set (trainingExamples afterProjectiveSplit ! 1)"
    unfolding lc[unfolded hd0] by (simp add: numeral_2_eq_2)
  from th2 have online: "fst (updateSplitStatistics exampleConfig [[0, 0]] [[0, 0]] [0] [[1 / 2]]
                               tiedPoint 0) ! 0 = [0, 0]
       \<and> snd (updateSplitStatistics exampleConfig [[0, 0]] [[0, 0]] [0] [[1 / 2]] tiedPoint 0) ! 0
           = addOne [0, 0] 0"
    by (simp add: exampleConfig_def tiedPoint_def)
  from wfStorage_twoExamples run ne projStep_first grew tie batch pt online show ?thesis
    by simp
qed

lemma findLeafNode_root: "leftChild nd = 0 \<Longrightarrow> findLeafNode kind [nd] x 0 = 0"
  by (subst findLeafNode.simps) simp

lemma getEntropy_both: "getEntropy [1, 1] = 2 * ln 2"
  by (simp add: getEntropy_def getMass_def ln_div)

lemma onlineVisit_first:
  "onlineVisit exampleEnv onlineConfig twoExamples onlineStart 0 = Inr afterFirstVisit"
  by (simp add: onlineVisit_def prepareVisit_def decideVisit_def onlineStart_def afterFirstVisit_def
      seenRoot_def onlineConfig_def exampleConfig_def twoExamples_def exampleEnv_def
      getDataPoint_def getClassLabel_def findLeafNode_root freshNode_def initLeaf_def Let_def
      histogramOfSize_def accumulate_def updateSplitStatistics_def addOne_def getMass_def isPure_def
      refreshLeaf_def updateLeafNodeHistogram_def resize_def smoothedLogProb_def
      upt_small numeral_2_eq_2)

lemma prepareVisit_second:
  "prepareVisit exampleEnv onlineConfig twoExamples afterFirstVisit 1
     = Inr (afterFirstVisit\<lparr>gCount := 2\<rparr>, 0, 0, accumulatedRoot)"
  by (simp add: prepareVisit_def afterFirstVisit_def accumulatedRoot_def
      seenRoot_def onlineConfig_def exampleConfig_def twoExamples_def exampleEnv_def
      getDataPoint_def getClassLabel_def findLeafNode_root freshNode_def Let_def
      accumulate_def updateSplitStatistics_def addOne_def
      upt_small numeral_2_eq_2)

lemma bestSplit_second: "bestSplit onlineConfig accumulatedRoot = (2 * ln 2, 0, 0)"
  by (simp add: bestSplit_def candidateSlots_def scanSlot_def accumulatedRoot_def seenRoot_def
      onlineConfig_def exampleConfig_def getMass_def getEntropy_both getEntropy_pure2 upt_small
      Let_def)

lemma onlineVisit_second:
  "onlineVisit exampleEnv onlineConfig twoExamples afterFirstVisit 1 = Inr afterOnlineSplit"
  unfolding onlineVisit_def prepareVisit_second
  by (simp add: decideVisit_def bestSplit_second)
     (simp add: afterFirstVisit_def accumulatedRoot_def afterOnlineSplit_def
      seenRoot_def onlineConfig_def exampleConfig_def twoExamples_def
      freshNode_def Let_def getMass_def isPure_def splitLeaf_def splitNode_def
      updateLeafNodeHistogram_def resize_def smoothedLogProb_def
      upt_small numeral_2_eq_2)

lemma childrenInRange_afterFirstVisit: "childrenInRange (onlineTree afterFirstVisit)"
  by (simp add: childrenInRange_def afterFirstVisit_def seenRoot_def freshNode_def)




lemma onlineVisit_cases:
  assumes cr: "childrenInRange (onlineTree s0)"
    and p: "prepareVisit env cfg storage s0 n = Inr (s2, leaf, leafDepth, nd)"
    and v: "onlineVisit env cfg storage s0 n = Inr s'"
  shows "leaf < length (onlineTree s0) \<and> length (onlineTree s2) = length (onlineTree s0)
     \<and> (((getMass (nodeStatistics nd) < minSplitExamples cfg \<or> isPure (nodeStatistics nd)
           \<or> leafDepth \<ge> maxDepth cfg \<or> fst (bestSplit cfg nd) < minSplitObjective cfg)
          \<and> onlineTree s' = (onlineTree s2)[leaf := nd\<lparr>histogram :=
                 map (smoothedLogProb (nodeStatistics nd) (smoothingParameter cfg))
                   [0..<length (nodeStatistics nd)]\<rparr>]
          \<and> treeStructure (onlineTree s') = treeStructure (onlineTree s0))
       \<or> (\<not> getMass (nodeStatistics nd) < minSplitExamples cfg \<and> \<not> isPure (nodeStatistics nd)
             \<and> leafDepth < maxDepth cfg \<and> minSplitObjective cfg \<le> fst (bestSplit cfg nd)
             \<and> 0 \<le> snd (snd (bestSplit cfg nd))
             \<and> splitLeaf cfg s2 leaf nd (nat (snd (snd (bestSplit cfg nd))))
                  (nat (fst (snd (bestSplit cfg nd)))) = Inr s'))"
proof -
  from v p have d: "decideVisit cfg storage s2 leaf leafDepth nd = Inr s'"
    by (simp add: onlineVisit_def)
  note pv = prepareVisit_Inr[OF p cr]
  note ts = treeStructure_eqD[OF pv(3)]
  have leaf2: "leaf < length (onlineTree s2)" using pv(1) ts(1) by simp
  have nd2: "depth nd = depth (onlineTree s2 ! leaf)" "leftChild nd = leftChild (onlineTree s2 ! leaf)"
    "splitFeature nd = splitFeature (onlineTree s2 ! leaf)"
    "threshold nd = threshold (onlineTree s2 ! leaf)"
    using pv(4) ts(2)[OF pv(1)] by simp_all
  from decideVisit_Inr[OF d] consider
    (refresh) "getMass (nodeStatistics nd) < minSplitExamples cfg \<or> isPure (nodeStatistics nd)
           \<or> leafDepth \<ge> maxDepth cfg \<or> fst (bestSplit cfg nd) < minSplitObjective cfg"
      "refreshLeaf cfg s2 leaf nd = Inr s'"
    | (split) "\<not> getMass (nodeStatistics nd) < minSplitExamples cfg \<and> \<not> isPure (nodeStatistics nd)
             \<and> leafDepth < maxDepth cfg \<and> minSplitObjective cfg \<le> fst (bestSplit cfg nd)
             \<and> 0 \<le> snd (snd (bestSplit cfg nd))
             \<and> splitLeaf cfg s2 leaf nd (nat (snd (snd (bestSplit cfg nd))))
                  (nat (fst (snd (bestSplit cfg nd)))) = Inr s'"
    by blast
  then show ?thesis
  proof cases
    case refresh
    from refreshLeaf_Inr[OF refresh(2)] have
      t: "onlineTree s' = (onlineTree s2)[leaf := nd\<lparr>histogram :=
                 map (smoothedLogProb (nodeStatistics nd) (smoothingParameter cfg))
                   [0..<length (nodeStatistics nd)]\<rparr>]"
      by simp
    have "treeStructure (onlineTree s') = treeStructure (onlineTree s2)"
      unfolding t using treeStructure_update[OF leaf2, of "nd\<lparr>histogram :=
                 map (smoothedLogProb (nodeStatistics nd) (smoothingParameter cfg))
                   [0..<length (nodeStatistics nd)]\<rparr>"] nd2
      by simp
    with pv(3) have "treeStructure (onlineTree s') = treeStructure (onlineTree s0)" by simp
    with refresh(1) t pv(1) ts(1) show ?thesis by simp
  next
    case split
    with pv(1) ts(1) show ?thesis by simp
  qed
qed





lemma prepareVisit_first:
  "prepareVisit exampleEnv onlineConfig twoExamples onlineStart 0
     = Inr (afterFirstVisit\<lparr>onlineTree := [seenRoot [0, 0] [0, 0] [0, 0]]\<rparr>, 0, 0,
            seenRoot [1, 0] [1, 0] [0, 0])"
  by (simp add: prepareVisit_def onlineStart_def afterFirstVisit_def
      seenRoot_def onlineConfig_def exampleConfig_def twoExamples_def exampleEnv_def
      getDataPoint_def getClassLabel_def findLeafNode_root freshNode_def initLeaf_def Let_def
      histogramOfSize_def accumulate_def updateSplitStatistics_def addOne_def
      upt_small numeral_2_eq_2)

lemma childrenInRange_onlineStart: "childrenInRange (onlineTree onlineStart)"
  by (simp add: childrenInRange_def onlineStart_def freshNode_def)

text \<open>C10. Whatever the configuration (bagging on or off), a visit of the online learner
  that returns without growing the tree leaves the visited leaf with the smoothed
  log-probability vector of its accumulated node statistics; a visit that commits a split
  appends two children whose histograms are the smoothed vectors of the winning slot's
  accumulated left and right statistics, and clears the histogram of the former leaf.\<close>

theorem online_histograms_always_smoothed:
  assumes "childrenInRange (onlineTree s0)"
    and "prepareVisit env cfg storage s0 n = Inr (s2, leaf, leafDepth, nd)"
    and "onlineVisit env cfg storage s0 n = Inr s'"
  shows "(length (onlineTree s') = length (onlineTree s0)
            \<longrightarrow> histogram (onlineTree s' ! leaf)
                  = map (smoothedLogProb (nodeStatistics nd) (smoothingParameter cfg))
                      [0..<length (nodeStatistics nd)]
                \<and> nodeStatistics (onlineTree s' ! leaf) = nodeStatistics nd)
         \<and> (length (onlineTree s') \<noteq> length (onlineTree s0)
            \<longrightarrow> (let slot = nat (fst (snd (bestSplit cfg nd)))
                            + nat (numThresholds cfg) * nat (snd (snd (bestSplit cfg nd)));
                      l = length (onlineTree s0)
                  in length (onlineTree s') = l + 2
                     \<and> leftChild (onlineTree s' ! leaf) = l
                     \<and> histogram (onlineTree s' ! l)
                         = map (smoothedLogProb (leftChildStatistics nd ! slot)
                                  (smoothingParameter cfg))
                             [0..<length (leftChildStatistics nd ! slot)]
                     \<and> histogram (onlineTree s' ! (l + 1))
                         = map (smoothedLogProb (rightChildStatistics nd ! slot)
                                  (smoothingParameter cfg))
                             [0..<length (rightChildStatistics nd ! slot)]
                     \<and> histogram (onlineTree s' ! leaf) = []))"
proof -
  note c = onlineVisit_cases[OF assms]
  from c have leaf: "leaf < length (onlineTree s2)"
    and len: "length (onlineTree s2) = length (onlineTree s0)" by simp_all
  from c consider
    (refresh) "onlineTree s' = (onlineTree s2)[leaf := nd\<lparr>histogram :=
                 map (smoothedLogProb (nodeStatistics nd) (smoothingParameter cfg))
                   [0..<length (nodeStatistics nd)]\<rparr>]"
    | (split) "splitLeaf cfg s2 leaf nd (nat (snd (snd (bestSplit cfg nd))))
                  (nat (fst (snd (bestSplit cfg nd)))) = Inr s'"
    by blast
  then show ?thesis
  proof cases
    case refresh
    with leaf len show ?thesis by simp
  next
    case split
    from splitLeaf_Inr[OF leaf split] leaf len show ?thesis
      by (simp add: Let_def nth_append)
  qed
qed

theorem online_histograms_always_smoothed_witness:
  "useBootstrap onlineConfig
   \<and> childrenInRange (onlineTree onlineStart)
   \<and> prepareVisit exampleEnv onlineConfig twoExamples onlineStart 0
       = Inr (afterFirstVisit\<lparr>onlineTree := [seenRoot [0, 0] [0, 0] [0, 0]]\<rparr>, 0, 0,
              seenRoot [1, 0] [1, 0] [0, 0])
   \<and> onlineVisit exampleEnv onlineConfig twoExamples onlineStart 0 = Inr afterFirstVisit
   \<and> histogram (onlineTree afterFirstVisit ! 0) = map (smoothedLogProb [1, 0] 1) [0..<2]
   \<and> childrenInRange (onlineTree afterFirstVisit)
   \<and> prepareVisit exampleEnv onlineConfig twoExamples afterFirstVisit 1
       = Inr (afterFirstVisit\<lparr>gCount := 2\<rparr>, 0, 0, accumulatedRoot)
   \<and> onlineVisit exampleEnv onlineConfig twoExamples afterFirstVisit 1 = Inr afterOnlineSplit
   \<and> histogram (onlineTree afterOnlineSplit ! 1) = map (smoothedLogProb [1, 0] 1) [0..<2]
   \<and> histogram (onlineTree afterOnlineSplit ! 2) = map (smoothedLogProb [0, 1] 1) [0..<2]
   \<and> histogram (onlineTree afterOnlineSplit ! 0) = []"
proof -
  have b: "useBootstrap onlineConfig" by (simp add: onlineConfig_def)
  have sm: "smoothingParameter onlineConfig = 1" "numThresholds onlineConfig = 1"
    by (simp_all add: onlineConfig_def exampleConfig_def)
  have l0: "length (onlineTree afterFirstVisit) = length (onlineTree onlineStart)"
    by (simp add: afterFirstVisit_def onlineStart_def)
  have l1: "length (onlineTree afterOnlineSplit) \<noteq> length (onlineTree afterFirstVisit)"
    "length (onlineTree afterFirstVisit) = 1"
    by (simp_all add: afterFirstVisit_def afterOnlineSplit_def)
  from online_histograms_always_smoothed[OF childrenInRange_onlineStart prepareVisit_first
      onlineVisit_first] l0
  have first: "histogram (onlineTree afterFirstVisit ! 0) = map (smoothedLogProb [1, 0] 1) [0..<2]"
    by (simp add: sm seenRoot_def numeral_2_eq_2)
  have stats: "leftChildStatistics accumulatedRoot = [[1, 0]]"
    "rightChildStatistics accumulatedRoot = [[0, 1]]"
    by (simp_all add: accumulatedRoot_def seenRoot_def)
  from online_histograms_always_smoothed[OF childrenInRange_afterFirstVisit prepareVisit_second
      onlineVisit_second, unfolded bestSplit_second stats] l1
  have second: "histogram (onlineTree afterOnlineSplit ! 1) = map (smoothedLogProb [1, 0] 1) [0..<2]
     \<and> histogram (onlineTree afterOnlineSplit ! 2) = map (smoothedLogProb [0, 1] 1) [0..<2]
     \<and> histogram (onlineTree afterOnlineSplit ! 0) = []"
    by (simp add: Let_def sm numeral_2_eq_2)
  from b childrenInRange_onlineStart prepareVisit_first onlineVisit_first first
    childrenInRange_afterFirstVisit prepareVisit_second onlineVisit_second second
  show ?thesis by (intro conjI) simp_all
qed

end
